theory Spec2Isabelle
  imports Complex_Main
begin

section \<open>Objects, enumerations and transforms\<close>

text \<open>
  A shallow embedding of \<^verbatim>\<open>UTransformerComponent\<close> (TransformerComponent.cpp).
  Scene components and actors are identified by natural numbers; a C++ pointer is an
  \<open>option\<close>, with \<open>None\<close> for \<^verbatim>\<open>nullptr\<close>.
\<close>

type_synonym comp = nat
type_synonym actor = nat

datatype uobject = ObjComponent comp | ObjActor actor

datatype ETransformationType = TT_NoTransform | TT_Translation | TT_Rotation | TT_Scale

text \<open>
  Of the domain enumeration the source file only names \<^verbatim>\<open>TD_None\<close>; the engaged
  axis, plane and uniform values are declared in a header, and are numbered here.
\<close>

datatype ETransformationDomain = TD_None | TD_Engaged nat

datatype ESpaceType = ST_None | ST_Local | ST_World

datatype EGizmoPlacement = GP_None | GP_OnFirstSelection | GP_OnLastSelection

datatype ENetRole = ROLE_None | ROLE_SimulatedProxy | ROLE_AutonomousProxy | ROLE_Authority

fun role_rank :: "ENetRole \<Rightarrow> nat" where
  "role_rank ROLE_None = 0"
| "role_rank ROLE_SimulatedProxy = 1"
| "role_rank ROLE_AutonomousProxy = 2"
| "role_rank ROLE_Authority = 3"

text \<open>
  The class of a gizmo decides the transformation type its instances report through
  \<^verbatim>\<open>GetGizmoType\<close>.
\<close>

datatype gizmo_class = ATranslationGizmo | ARotationGizmo | AScaleGizmo

fun class_gizmo_type :: "gizmo_class \<Rightarrow> ETransformationType" where
  "class_gizmo_type ATranslationGizmo = TT_Translation"
| "class_gizmo_type ARotationGizmo = TT_Rotation"
| "class_gizmo_type AScaleGizmo = TT_Scale"

text \<open>
  An \<^verbatim>\<open>FTransform\<close> is a rotation quaternion, a translation and a scale. The operations
  modelled here only store the constants 0 and 1 in it, so its scalars are taken as reals.
\<close>

type_synonym FVector = "real \<times> real \<times> real"
type_synonym FQuat = "real \<times> real \<times> real \<times> real"

record FTransform =
  Rotation :: FQuat
  Translation :: FVector
  Scale3D :: FVector

definition ZeroVector :: FVector where
  "ZeroVector = (0, 0, 0)"

text \<open>The default constructor \<^verbatim>\<open>FTransform()\<close>: the identity transform.\<close>

definition FTransform_Identity :: FTransform where
  "FTransform_Identity = \<lparr>Rotation = (0, 0, 0, 1), Translation = (0, 0, 0), Scale3D = (1, 1, 1)\<rparr>"

text \<open>
  \<^verbatim>\<open>ResetDeltaTransform(FTransform& Transform)\<close> overwrites its argument; the model
  returns the new value.
\<close>

definition ResetDeltaTransform :: "FTransform \<Rightarrow> FTransform" where
  "ResetDeltaTransform T = FTransform_Identity\<lparr>Scale3D := ZeroVector\<rparr>"

section \<open>The world and the component's state\<close>

text \<open>
  The actor that owns the transformer component, as far as the component reads it: a
  player controller, with the result of its \<^verbatim>\<open>IsLocalController()\<close>, or another actor.
\<close>

datatype owner = PlayerController bool | OtherActor

text \<open>
  What the engine knows about the objects, read by the component through engine calls.
  \<open>ShouldSelect\<close> is an overridable hook of the component declared outside the source
  file and is taken as given. \<open>NextId\<close> is the identity the next spawned or duplicated
  object receives. \<open>TransformerOwner\<close> is the component's own \<^verbatim>\<open>GetOwner()\<close>, \<open>None\<close> when
  null, and \<open>OwnerRole\<close> its \<^verbatim>\<open>GetOwnerRole()\<close>, the local role of that owner.
\<close>

record world =
  HasWorld :: bool
  NextId :: nat
  OwnerRole :: ENetRole
  GetOwner :: "comp \<Rightarrow> actor option"
  GetRootComponent :: "actor \<Rightarrow> comp option"
  GetAttachParent :: "comp \<Rightarrow> comp option"
  CompImplementsFocusable :: "comp \<Rightarrow> bool"
  ActorImplementsFocusable :: "actor \<Rightarrow> bool"
  IsBaseGizmo :: "actor \<Rightarrow> bool"
  GetGizmoType :: "actor \<Rightarrow> ETransformationType"
  GetTransformationDomain :: "comp \<Rightarrow> ETransformationDomain"
  ShouldSelect :: "actor option \<Rightarrow> comp option \<Rightarrow> bool"
  ActorSupportedForNetworking :: "actor \<Rightarrow> bool"
  CompSupportedForNetworking :: "comp \<Rightarrow> bool"
  CompHasBegunPlay :: "comp \<Rightarrow> bool"
  CompPendingKill :: "comp \<Rightarrow> bool"
  ActorPendingKill :: "actor \<Rightarrow> bool"
  NumComponents :: "actor \<Rightarrow> nat"
  SpawnSucceeds :: "actor \<Rightarrow> bool"
  DuplicateSucceeds :: "comp \<Rightarrow> bool"
  TransformerOwner :: "owner option"

text \<open>
  \<^verbatim>\<open>GetPlayerController\<close> casts the owner to a player controller; the controller is given
  by what its \<^verbatim>\<open>IsLocalController()\<close> returns, and \<open>None\<close> is the null pointer.
  \<^verbatim>\<open>AActor::HasAuthority\<close> of the owner compares the owner's local role.
\<close>

definition GetPlayerController :: "world \<Rightarrow> bool option" where
  "GetPlayerController w =
     (case TransformerOwner w of
        Some (PlayerController bIsLocalController) \<Rightarrow> Some bIsLocalController
      | _ \<Rightarrow> None)"

definition HasAuthority :: "world \<Rightarrow> bool" where
  "HasAuthority w = (OwnerRole w = ROLE_Authority)"

text \<open>Notifications sent to focusable objects and to the selection-change event.\<close>

datatype event =
    Focus uobject "comp option" bool
  | Unfocus uobject "comp option" bool
  | SelectionChange "comp option" bool bool

text \<open>Calls made on a gizmo actor; the gizmo classes are outside the source file.\<close>

datatype gizmo_call =
    SetTransformProgressState bool ETransformationDomain
  | AttachGizmoToComponent comp
  | UpdateGizmoSpace ESpaceType
  | DestroyGizmo

text \<open>
  Remote procedure calls. A call is recorded in \<open>Sent\<close> in program order; the engine
  runs the matching \<^verbatim>\<open>_Implementation\<close> on the authority (Server calls) or on every
  participant (Multicast calls). Of the arguments of a server trace only
  \<^verbatim>\<open>bAppendToList\<close> is kept; the others feed the engine query.
\<close>

datatype rpc =
    ServerDeselectAll bool
  | MulticastDeselectAll bool
  | ServerClearDomain
  | MulticastClearDomain
  | ServerApplyTransform FTransform
  | MulticastApplyTransform FTransform
  | MulticastSetDomain ETransformationDomain
  | MulticastSetSelectedComponents "comp option list"
  | ServerSyncSelectedComponents
  | ServerTraceByObjectTypes bool
  | ServerTraceByChannel bool
  | ServerTraceByProfile bool
  | ServerSetDomain ETransformationDomain

datatype verbosity = LogLevel | WarningLevel

datatype timer_fn = Fn_CheckUnreplicatedActors | Fn_ResyncSelection

text \<open>A timer handle is valid exactly while it holds a timer.\<close>

record timer =
  TimerFn :: timer_fn
  TimerRate :: real
  TimerLoop :: bool
  TimerFirstDelay :: real

record state =
  SelectedComponents :: "comp option list"
  Gizmo :: "actor option"
  GizmoPlacement :: EGizmoPlacement
  CurrentTransformation :: ETransformationType
  CurrentDomain :: ETransformationDomain
  CurrentSpaceType :: ESpaceType
  TranslationGizmoClass :: "gizmo_class option"
  RotationGizmoClass :: "gizmo_class option"
  ScaleGizmoClass :: "gizmo_class option"
  AccumulatedDeltaTransform :: FTransform
  NetworkDeltaTransform :: FTransform
  bToggleSelectedInMultiSelection :: bool
  bComponentBased :: bool
  bIgnoreNonReplicatedObjects :: bool
  bResyncSelection :: bool
  ResyncSelectionTimerHandle :: "timer option"
  CheckUnrepTimerHandle :: "timer option"
  UnreplicatedComponentClones :: "comp option list"
  CloneReplicationCheckFrequency :: real
  MinimumCloneReplicationTime :: real
  World :: world
  Events :: "event list"
  GizmoCalls :: "(actor \<times> gizmo_call) list"
  Sent :: "rpc list"
  LogOutput :: "(verbosity \<times> string) list"

definition UE_LOG :: "verbosity \<Rightarrow> string \<Rightarrow> state \<Rightarrow> state" where
  "UE_LOG v msg s = s\<lparr>LogOutput := LogOutput s @ [(v, msg)]\<rparr>"

definition call_rpc :: "rpc \<Rightarrow> state \<Rightarrow> state" where
  "call_rpc r s = s\<lparr>Sent := Sent s @ [r]\<rparr>"

definition gizmo_do :: "actor \<Rightarrow> gizmo_call \<Rightarrow> state \<Rightarrow> state" where
  "gizmo_do g c s = s\<lparr>GizmoCalls := GizmoCalls s @ [(g, c)]\<rparr>"

text \<open>
  Dereferencing a null pointer ends the program; a \<^verbatim>\<open>while (1)\<close> loop may not
  return. An outcome is \<open>None\<close> when the code does not return, \<open>Some (Inl e)\<close> when it
  stops with the error \<open>e\<close>, and \<open>Some (Inr x)\<close> when it returns \<open>x\<close>.
\<close>

datatype error = NullDereference

type_synonym 'a outcome = "(error + 'a) option"

definition returns :: "'a \<Rightarrow> 'a outcome" where
  "returns x = Some (Inr x)"

definition bind_outcome :: "'a outcome \<Rightarrow> ('a \<Rightarrow> 'b outcome) \<Rightarrow> 'b outcome" where
  "bind_outcome m f =
     (case m of None \<Rightarrow> None | Some (Inl e) \<Rightarrow> Some (Inl e) | Some (Inr x) \<Rightarrow> f x)"

section \<open>Domain and transformation type\<close>

definition SetDomain :: "ETransformationDomain \<Rightarrow> state \<Rightarrow> state" where
  "SetDomain NewDomain s =
     (let s1 = s\<lparr>CurrentDomain := NewDomain\<rparr>
      in case Gizmo s1 of
           None \<Rightarrow> s1
         | Some g \<Rightarrow> gizmo_do g (SetTransformProgressState (NewDomain \<noteq> TD_None) NewDomain) s1)"

definition ClearDomain :: "state \<Rightarrow> state" where
  "ClearDomain s =
     SetDomain TD_None
       (s\<lparr>AccumulatedDeltaTransform := ResetDeltaTransform (AccumulatedDeltaTransform s)\<rparr>)"

text \<open>
  \<^verbatim>\<open>GetGizmoClass\<close> switches on \<^verbatim>\<open>CurrentTransformation\<close>, not on its parameter.
\<close>

definition GetGizmoClass :: "state \<Rightarrow> ETransformationType \<Rightarrow> gizmo_class option" where
  "GetGizmoClass s TransformationType =
     (case CurrentTransformation s of
        TT_Translation \<Rightarrow> TranslationGizmoClass s
      | TT_Rotation \<Rightarrow> RotationGizmoClass s
      | TT_Scale \<Rightarrow> ScaleGizmoClass s
      | TT_NoTransform \<Rightarrow> None)"

text \<open>
  The \<^verbatim>\<open>if (bCreateGizmo)\<close> block of \<^verbatim>\<open>SetGizmo\<close>: spawning gives the gizmo a fresh
  actor identity, of the type of its class.
\<close>

definition SpawnGizmo :: "state \<Rightarrow> state" where
  "SpawnGizmo s =
     (if HasWorld (World s) then
        (case GetGizmoClass s (CurrentTransformation s) of
           None \<Rightarrow> s
         | Some cls \<Rightarrow>
             (let w = World s; a = NextId w
              in s\<lparr>Gizmo := Some a,
                   World := w\<lparr>NextId := Suc a,
                              IsBaseGizmo := (IsBaseGizmo w)(a := True),
                              GetGizmoType := (GetGizmoType w)(a := class_gizmo_type cls)\<rparr>\<rparr>))
      else s)"

definition SetGizmo :: "state \<Rightarrow> state" where
  "SetGizmo s =
     (if length (SelectedComponents s) > 0 then
        (case Gizmo s of
           None \<Rightarrow> SpawnGizmo s
         | Some g \<Rightarrow>
             if CurrentTransformation s = GetGizmoType (World s) g then s
             else SpawnGizmo (gizmo_do g DestroyGizmo s))
      else
        (case Gizmo s of
           None \<Rightarrow> s
         | Some g \<Rightarrow> (gizmo_do g DestroyGizmo s)\<lparr>Gizmo := None\<rparr>))"

text \<open>
  \<^verbatim>\<open>SelectedComponents[0]\<close> and \<^verbatim>\<open>Last()\<close> are read only while a gizmo exists, which
  \<^verbatim>\<open>SetGizmo\<close> allows only for a non-empty selection; the empty case is written out.
\<close>

definition UpdateGizmoPlacement :: "state \<Rightarrow> state" where
  "UpdateGizmoPlacement s =
     (let s1 = SetGizmo s
      in case Gizmo s1 of
           None \<Rightarrow> s1
         | Some g \<Rightarrow>
             (let ComponentToAttachTo =
                    (case GizmoPlacement s1 of
                       GP_OnFirstSelection \<Rightarrow>
                         (case SelectedComponents s1 of [] \<Rightarrow> None | c # _ \<Rightarrow> c)
                     | GP_OnLastSelection \<Rightarrow>
                         (if SelectedComponents s1 = [] then None
                          else last (SelectedComponents s1))
                     | GP_None \<Rightarrow> None);
                  s2 = (case ComponentToAttachTo of
                          None \<Rightarrow> s1
                        | Some c \<Rightarrow> gizmo_do g (AttachGizmoToComponent c) s1)
              in gizmo_do g (UpdateGizmoSpace (CurrentSpaceType s2)) s2))"

definition SetTransformationType :: "ETransformationType \<Rightarrow> state \<Rightarrow> state" where
  "SetTransformationType TransformationType s =
     (if CurrentTransformation s = TransformationType then s
      else
        (let s1 = (if TransformationType = TT_NoTransform
                   then UE_LOG WarningLevel ''Setting Transformation Type to None!'' s
                   else s);
             s2 = s1\<lparr>CurrentTransformation := TransformationType\<rparr>;
             s3 = s2\<lparr>AccumulatedDeltaTransform :=
                        ResetDeltaTransform (AccumulatedDeltaTransform s2)\<rparr>
         in UpdateGizmoPlacement s3))"


section \<open>The selection set\<close>

definition GetUFocusable :: "state \<Rightarrow> comp option \<Rightarrow> uobject option" where
  "GetUFocusable s Component =
     (case Component of
        None \<Rightarrow> None
      | Some c \<Rightarrow>
          if bComponentBased s then
            (if CompImplementsFocusable (World s) c then Some (ObjComponent c) else None)
          else
            (case GetOwner (World s) c of
               Some ComponentOwner \<Rightarrow>
                 (if ActorImplementsFocusable (World s) ComponentOwner
                  then Some (ObjActor ComponentOwner) else None)
             | None \<Rightarrow> None))"

text \<open>
  \<^verbatim>\<open>Select\<close> and \<^verbatim>\<open>Deselect\<close> notify the focusable object, if there is one, and
  report through their out-parameter whether there was one.
\<close>

definition Select :: "comp option \<Rightarrow> state \<Rightarrow> state \<times> bool" where
  "Select Component s =
     (case GetUFocusable s Component of
        Some focusableObject \<Rightarrow>
          (s\<lparr>Events := Events s @ [Focus focusableObject Component (bComponentBased s)]\<rparr>, True)
      | None \<Rightarrow> (s, False))"

definition Deselect :: "comp option \<Rightarrow> state \<Rightarrow> state \<times> bool" where
  "Deselect Component s =
     (case GetUFocusable s Component of
        Some focusableObject \<Rightarrow>
          (s\<lparr>Events := Events s @ [Unfocus focusableObject Component (bComponentBased s)]\<rparr>, True)
      | None \<Rightarrow> (s, False))"

definition OnComponentSelectionChange :: "comp option \<Rightarrow> bool \<Rightarrow> bool \<Rightarrow> state \<Rightarrow> state" where
  "OnComponentSelectionChange Component bSelected bImplementsUFocusable s =
     s\<lparr>Events := Events s @ [SelectionChange Component bSelected bImplementsUFocusable]\<rparr>"

text \<open>
  \<^verbatim>\<open>TArray::Find\<close> gives the index of the first equal element (\<open>None\<close> is
  \<^verbatim>\<open>INDEX_NONE\<close>); \<^verbatim>\<open>TArray::RemoveAt\<close> removes the element at an index.
\<close>

fun Find :: "'a list \<Rightarrow> 'a \<Rightarrow> nat option" where
  "Find [] x = None"
| "Find (y # ys) x = (if y = x then Some 0 else map_option Suc (Find ys x))"

definition RemoveAt :: "nat \<Rightarrow> 'a list \<Rightarrow> 'a list" where
  "RemoveAt i xs = take i xs @ drop (Suc i) xs"

definition DeselectComponentAtIndex_Internal :: "nat \<Rightarrow> state \<Rightarrow> state" where
  "DeselectComponentAtIndex_Internal Index s =
     (if Index < length (SelectedComponents s) then
        (let Component = SelectedComponents s ! Index;
             (s1, bImplementsInterface) = Deselect Component s;
             s2 = s1\<lparr>SelectedComponents := RemoveAt Index (SelectedComponents s1)\<rparr>
         in OnComponentSelectionChange Component False bImplementsInterface s2)
      else s)"

text \<open>
  The list parameter of the three internal functions is \<^verbatim>\<open>SelectedComponents\<close> at
  every call in the source file, so they act on the state.
\<close>

definition AddComponent_Internal :: "comp option \<Rightarrow> state \<Rightarrow> state" where
  "AddComponent_Internal Component s =
     (case Find (SelectedComponents s) Component of
        None \<Rightarrow>
          (let s1 = s\<lparr>SelectedComponents := SelectedComponents s @ [Component]\<rparr>;
               (s2, bImplementsInterface) = Select (last (SelectedComponents s1)) s1
           in OnComponentSelectionChange Component True bImplementsInterface s2)
      | Some Index \<Rightarrow>
          if bToggleSelectedInMultiSelection s
          then DeselectComponentAtIndex_Internal Index s
          else s)"

definition DeselectComponent_Internal :: "comp option \<Rightarrow> state \<Rightarrow> state" where
  "DeselectComponent_Internal Component s =
     (case Find (SelectedComponents s) Component of
        None \<Rightarrow> s
      | Some Index \<Rightarrow> DeselectComponentAtIndex_Internal Index s)"

definition DeselectComponent :: "comp option \<Rightarrow> state \<Rightarrow> state" where
  "DeselectComponent Component s =
     (case Component of
        None \<Rightarrow> s
      | Some c \<Rightarrow> UpdateGizmoPlacement (DeselectComponent_Internal Component s))"

definition DeselectActor :: "actor option \<Rightarrow> state \<Rightarrow> state" where
  "DeselectActor Actor s =
     (case Actor of
        None \<Rightarrow> s
      | Some a \<Rightarrow> DeselectComponent (GetRootComponent (World s) a) s)"

text \<open>
  The destroy loop of \<^verbatim>\<open>DeselectAll\<close>. An object is valid while neither it nor its
  owner is pending kill; destroying a component takes it off its owner's component list.
\<close>

definition IsValid :: "world \<Rightarrow> comp \<Rightarrow> bool" where
  "IsValid w c =
     (\<not> CompPendingKill w c \<and>
      (case GetOwner w c of None \<Rightarrow> True | Some a \<Rightarrow> \<not> ActorPendingKill w a))"

definition DestroyComponent :: "comp \<Rightarrow> actor \<Rightarrow> world \<Rightarrow> world" where
  "DestroyComponent c a w =
     w\<lparr>CompPendingKill := (CompPendingKill w)(c := True),
       NumComponents := (NumComponents w)(a := NumComponents w a - 1)\<rparr>"

definition DestroyActor :: "actor \<Rightarrow> world \<Rightarrow> world" where
  "DestroyActor a w = w\<lparr>ActorPendingKill := (ActorPendingKill w)(a := True)\<rparr>"

fun destroy_deselected :: "comp option list \<Rightarrow> state \<Rightarrow> state" where
  "destroy_deselected [] s = s"
| "destroy_deselected (None # cs) s = destroy_deselected cs s"
| "destroy_deselected (Some c # cs) s =
     destroy_deselected cs
       (if \<not> IsValid (World s) c then s
        else
          (case GetOwner (World s) c of
             None \<Rightarrow> s
           | Some a \<Rightarrow>
               if bComponentBased s \<and> NumComponents (World s) a > 1
               then s\<lparr>World := DestroyComponent c a (World s)\<rparr>
               else s\<lparr>World := DestroyActor a (World s)\<rparr>))"

definition DeselectAll :: "bool \<Rightarrow> state \<Rightarrow> state \<times> comp option list" where
  "DeselectAll bDestroyDeselected s =
     (let componentsToDeselect = SelectedComponents s;
          s1 = fold DeselectComponent componentsToDeselect s;
          s2 = s1\<lparr>SelectedComponents := []\<rparr>;
          s3 = UpdateGizmoPlacement s2;
          s4 = (if bDestroyDeselected then destroy_deselected componentsToDeselect s3 else s3)
      in (s4, componentsToDeselect))"

definition SelectComponent :: "comp option \<Rightarrow> bool \<Rightarrow> state \<Rightarrow> state" where
  "SelectComponent Component bAppendToList s =
     (case Component of
        None \<Rightarrow> s
      | Some c \<Rightarrow>
          if ShouldSelect (World s) (GetOwner (World s) c) Component then
            (let s1 = (if \<not> bAppendToList then fst (DeselectAll False s) else s)
             in UpdateGizmoPlacement (AddComponent_Internal Component s1))
          else s)"

definition SelectActor :: "actor option \<Rightarrow> bool \<Rightarrow> state \<Rightarrow> state" where
  "SelectActor Actor bAppendToList s =
     (case Actor of
        None \<Rightarrow> s
      | Some a \<Rightarrow>
          if ShouldSelect (World s) Actor (GetRootComponent (World s) a) then
            (let s1 = (if \<not> bAppendToList then fst (DeselectAll False s) else s)
             in UpdateGizmoPlacement
                  (AddComponent_Internal (GetRootComponent (World s1) a) s1))
          else s)"

text \<open>
  The loops of \<^verbatim>\<open>SelectMultipleComponents\<close> and \<^verbatim>\<open>SelectMultipleActors\<close> carry the
  local \<^verbatim>\<open>bAppendToList\<close> and \<^verbatim>\<open>bValidList\<close>.
\<close>

fun select_components_loop :: "comp option list \<Rightarrow> bool \<Rightarrow> bool \<Rightarrow> state \<Rightarrow> state \<times> bool" where
  "select_components_loop [] bAppendToList bValidList s = (s, bValidList)"
| "select_components_loop (None # cs) bAppendToList bValidList s =
     select_components_loop cs bAppendToList bValidList s"
| "select_components_loop (Some c # cs) bAppendToList bValidList s =
     (if \<not> ShouldSelect (World s) (GetOwner (World s) c) (Some c)
      then select_components_loop cs bAppendToList bValidList s
      else
        (let s1 = (if \<not> bAppendToList then fst (DeselectAll False s) else s)
         in select_components_loop cs True True (AddComponent_Internal (Some c) s1)))"

definition SelectMultipleComponents :: "comp option list \<Rightarrow> bool \<Rightarrow> state \<Rightarrow> state" where
  "SelectMultipleComponents Components bAppendToList s =
     (let (s1, bValidList) = select_components_loop Components bAppendToList False s
      in if bValidList then UpdateGizmoPlacement s1 else s1)"

fun select_actors_loop :: "actor option list \<Rightarrow> bool \<Rightarrow> bool \<Rightarrow> state \<Rightarrow> state \<times> bool" where
  "select_actors_loop [] bAppendToList bValidList s = (s, bValidList)"
| "select_actors_loop (None # as) bAppendToList bValidList s =
     select_actors_loop as bAppendToList bValidList s"
| "select_actors_loop (Some a # as) bAppendToList bValidList s =
     (if \<not> ShouldSelect (World s) (Some a) (GetRootComponent (World s) a)
      then select_actors_loop as bAppendToList bValidList s
      else
        (let s1 = (if \<not> bAppendToList then fst (DeselectAll False s) else s)
         in select_actors_loop as True True
              (AddComponent_Internal (GetRootComponent (World s1) a) s1)))"

definition SelectMultipleActors :: "actor option list \<Rightarrow> bool \<Rightarrow> state \<Rightarrow> state" where
  "SelectMultipleActors Actors bAppendToList s =
     (let (s1, bValidList) = select_actors_loop Actors bAppendToList False s
      in if bValidList then UpdateGizmoPlacement s1 else s1)"

section \<open>Traces\<close>

record FHitResult =
  HitActor :: "actor option"
  HitComponent :: "comp option"

definition hit_is_gizmo :: "world \<Rightarrow> FHitResult \<Rightarrow> bool" where
  "hit_is_gizmo w h = (case HitActor h of None \<Rightarrow> False | Some a \<Rightarrow> IsBaseGizmo w a)"

text \<open>
  \<^verbatim>\<open>FilterHits\<close>: with \<^verbatim>\<open>bIgnoreNonReplicatedObjects\<close>, a hit stays when it is a gizmo
  or supported for networking, and is removed (with a warning when it has an actor and a
  component) otherwise.
\<close>

fun filter_hits_loop :: "FHitResult list \<Rightarrow> state \<Rightarrow> state \<times> FHitResult list" where
  "filter_hits_loop [] s = (s, [])"
| "filter_hits_loop (h # hs) s =
     (if hit_is_gizmo (World s) h then
        (let (s1, r) = filter_hits_loop hs s in (s1, h # r))
      else if (case HitActor h of
                 None \<Rightarrow> False
               | Some a \<Rightarrow>
                   ActorSupportedForNetworking (World s) a \<and>
                   (if bComponentBased s
                    then (case HitComponent h of
                            None \<Rightarrow> False
                          | Some c \<Rightarrow> CompSupportedForNetworking (World s) c)
                    else True)) then
        (let (s1, r) = filter_hits_loop hs s in (s1, h # r))
      else
        filter_hits_loop hs
          (if HitActor h \<noteq> None \<and> HitComponent h \<noteq> None
           then UE_LOG WarningLevel
                  ''Removing (Actor: %s   ComponentHit:  %s) from hits because it is not supported for networking.'' s
           else s))"

definition FilterHits :: "FHitResult list \<Rightarrow> state \<Rightarrow> state \<times> FHitResult list" where
  "FilterHits outHits s =
     (if bIgnoreNonReplicatedObjects s then filter_hits_loop outHits s else (s, outHits))"

text \<open>The first loop of \<^verbatim>\<open>HandleTracedObjects\<close>: the search for our own gizmo.\<close>

fun find_gizmo_domain :: "actor \<Rightarrow> FHitResult list \<Rightarrow> state \<Rightarrow> state \<times> bool" where
  "find_gizmo_domain g [] s = (s, False)"
| "find_gizmo_domain g (hitResult # hs) s =
     (if HitActor hitResult = Some g then
        (case HitComponent hitResult of
           None \<Rightarrow> find_gizmo_domain g hs s
         | Some componentHit \<Rightarrow>
             (let s1 = SetDomain (GetTransformationDomain (World s) componentHit) s
              in if CurrentDomain s1 \<noteq> TD_None
                 then (gizmo_do g (SetTransformProgressState True (CurrentDomain s1)) s1, True)
                 else find_gizmo_domain g hs s1))
      else find_gizmo_domain g hs s)"

text \<open>The second loop: the first hit that is no gizmo is selected, and ends the loop.\<close>

fun select_first_hit :: "FHitResult list \<Rightarrow> bool \<Rightarrow> state \<Rightarrow> state \<times> bool" where
  "select_first_hit [] bAppendToList s = (s, False)"
| "select_first_hit (hits # hs) bAppendToList s =
     (if hit_is_gizmo (World s) hits then select_first_hit hs bAppendToList s
      else
        ((if bComponentBased s
          then SelectComponent (HitComponent hits) bAppendToList s
          else SelectActor (HitActor hits) bAppendToList s), True))"

definition HandleTracedObjects :: "FHitResult list \<Rightarrow> bool \<Rightarrow> state \<Rightarrow> state \<times> bool" where
  "HandleTracedObjects HitResults bAppendToList s =
     (let s1 = ClearDomain s;
          (s2, bGizmoHit) =
             (case Gizmo s1 of
                None \<Rightarrow> (s1, False)
              | Some g \<Rightarrow> find_gizmo_domain g HitResults s1)
      in if bGizmoHit then (s2, True)
         else select_first_hit HitResults bAppendToList s2)"

text \<open>
  The three traces differ in the engine query they run. The query's outcome, its boolean
  result and the hits it wrote, is the parameter \<open>LineTrace\<close>; the points, channels and
  ignored actors only feed the query.
\<close>

definition TraceByObjectTypes :: "bool \<times> FHitResult list \<Rightarrow> bool \<Rightarrow> state \<Rightarrow> state \<times> bool" where
  "TraceByObjectTypes LineTrace bAppendToList s =
     (if HasWorld (World s) then
        (if fst LineTrace then
           (let (s1, OutHits) = FilterHits (snd LineTrace) s
            in HandleTracedObjects OutHits bAppendToList s1)
         else (s, False))
      else (s, False))"

definition TraceByChannel :: "bool \<times> FHitResult list \<Rightarrow> bool \<Rightarrow> state \<Rightarrow> state \<times> bool" where
  "TraceByChannel LineTrace bAppendToList s =
     (if HasWorld (World s) then
        (if fst LineTrace then
           (let (s1, OutHits) = FilterHits (snd LineTrace) s
            in HandleTracedObjects OutHits bAppendToList s1)
         else (s, False))
      else (s, False))"

definition TraceByProfile :: "bool \<times> FHitResult list \<Rightarrow> bool \<Rightarrow> state \<Rightarrow> state \<times> bool" where
  "TraceByProfile LineTrace bAppendToList s =
     (if HasWorld (World s) then
        (if fst LineTrace then
           (let (s1, OutHits) = FilterHits (snd LineTrace) s
            in HandleTracedObjects OutHits bAppendToList s1)
         else (s, False))
      else (s, False))"

text \<open>
  The mouse traces; \<open>bMousePoints\<close> is the result of \<^verbatim>\<open>GetMouseStartEndPoints\<close>. Each
  returns the new state and the function's return value.
\<close>

definition MouseTraceByObjectTypes ::
  "bool \<Rightarrow> bool \<times> FHitResult list \<Rightarrow> bool \<Rightarrow> state \<Rightarrow> state \<times> bool" where
  "MouseTraceByObjectTypes bMousePoints LineTrace bAppendToList s =
     (if bMousePoints then
        (let (s1, bTraceSuccessful) = TraceByObjectTypes LineTrace bAppendToList s;
             s2 = (if \<not> bTraceSuccessful \<and> \<not> bAppendToList
                   then call_rpc (ServerDeselectAll False) s1 else s1)
         in (s2, bTraceSuccessful))
      else (s, False))"

definition MouseTraceByChannel ::
  "bool \<Rightarrow> bool \<times> FHitResult list \<Rightarrow> bool \<Rightarrow> state \<Rightarrow> state \<times> bool" where
  "MouseTraceByChannel bMousePoints LineTrace bAppendToList s =
     (if bMousePoints then
        (let (s1, bTraceSuccessful) = TraceByChannel LineTrace bAppendToList s;
             s2 = (if \<not> bTraceSuccessful \<and> \<not> bAppendToList
                   then call_rpc (ServerDeselectAll False) s1 else s1)
         in (s2, False))
      else (s, False))"

definition MouseTraceByProfile ::
  "bool \<Rightarrow> bool \<times> FHitResult list \<Rightarrow> bool \<Rightarrow> state \<Rightarrow> state \<times> bool" where
  "MouseTraceByProfile bMousePoints LineTrace bAppendToList s =
     (if bMousePoints then
        (let (s1, bTraceSuccessful) = TraceByProfile LineTrace bAppendToList s;
             s2 = (if \<not> bTraceSuccessful \<and> \<not> bAppendToList
                   then call_rpc (ServerDeselectAll False) s1 else s1)
         in (s2, bTraceSuccessful))
      else (s, False))"

section \<open>Replication\<close>

text \<open>
  \<^verbatim>\<open>GetIgnoredActorsForServerTrace\<close> dereferences the player controller unchecked.
\<close>

definition GetIgnoredActorsForServerTrace :: "state \<Rightarrow> actor list outcome" where
  "GetIgnoredActorsForServerTrace s =
     (case GetPlayerController (World s) of
        None \<Rightarrow> Some (Inl NullDereference)
      | Some bIsLocalController \<Rightarrow>
          returns
            (if \<not> bIsLocalController then (case Gizmo s of Some g \<Rightarrow> [g] | None \<Rightarrow> [])
             else []))"

text \<open>
  The server trace handlers evaluate the actors to ignore, which feed the engine query,
  before they trace.
\<close>

definition ServerTraceByObjectTypes_Implementation ::
  "bool \<times> FHitResult list \<Rightarrow> bool \<Rightarrow> state \<Rightarrow> state outcome" where
  "ServerTraceByObjectTypes_Implementation LineTrace bAppendToList s =
     bind_outcome (GetIgnoredActorsForServerTrace s)
       (\<lambda>IgnoredActors.
          let (s1, bTraceSuccessful) = TraceByObjectTypes LineTrace bAppendToList s;
              s2 = (if \<not> bTraceSuccessful \<and> \<not> bAppendToList
                    then fst (DeselectAll False s1) else s1);
              s3 = call_rpc (MulticastSetDomain (CurrentDomain s2)) s2
          in returns (call_rpc (MulticastSetSelectedComponents (SelectedComponents s3)) s3))"

definition ServerTraceByChannel_Implementation ::
  "bool \<times> FHitResult list \<Rightarrow> bool \<Rightarrow> state \<Rightarrow> state outcome" where
  "ServerTraceByChannel_Implementation LineTrace bAppendToList s =
     bind_outcome (GetIgnoredActorsForServerTrace s)
       (\<lambda>IgnoredActors.
          let (s1, bTraceSuccessful) = TraceByChannel LineTrace bAppendToList s;
              s2 = (if \<not> bTraceSuccessful \<and> \<not> bAppendToList
                    then fst (DeselectAll False s1) else s1);
              s3 = call_rpc (MulticastSetDomain (CurrentDomain s2)) s2
          in returns (call_rpc (MulticastSetSelectedComponents (SelectedComponents s3)) s3))"

definition ServerTraceByProfile_Implementation ::
  "bool \<times> FHitResult list \<Rightarrow> bool \<Rightarrow> state \<Rightarrow> state outcome" where
  "ServerTraceByProfile_Implementation LineTrace bAppendToList s =
     bind_outcome (GetIgnoredActorsForServerTrace s)
       (\<lambda>IgnoredActors.
          let (s1, bTraceSuccessful) = TraceByProfile LineTrace bAppendToList s;
              s2 = (if \<not> bTraceSuccessful \<and> \<not> bAppendToList
                    then fst (DeselectAll False s1) else s1);
              s3 = call_rpc (MulticastSetDomain (CurrentDomain s2)) s2
          in returns (call_rpc (MulticastSetSelectedComponents (SelectedComponents s3)) s3))"

text \<open>
  \<^verbatim>\<open>ReplicateServerTraceResults\<close> dereferences the owner and runs its body when the owner
  has no authority.
\<close>

definition ReplicateServerTraceResults :: "bool \<Rightarrow> bool \<Rightarrow> state \<Rightarrow> state outcome" where
  "ReplicateServerTraceResults bTraceSuccessful bAppendToList s =
     (case TransformerOwner (World s) of
        None \<Rightarrow> Some (Inl NullDereference)
      | Some ownerActor \<Rightarrow>
          if \<not> HasAuthority (World s) then
            (let s1 = (if \<not> bTraceSuccessful \<and> \<not> bAppendToList
                       then fst (DeselectAll False s) else s);
                 s2 = call_rpc (MulticastSetDomain (CurrentDomain s1)) s1
             in returns (call_rpc (MulticastSetSelectedComponents (SelectedComponents s2)) s2))
          else returns s)"

text \<open>
  The replicated mouse traces, which trace locally with no actor ignored. On the
  authority they hand the result to \<^verbatim>\<open>ReplicateServerTraceResults\<close>; elsewhere they send
  requests to the server. The channel and profile variants send the trace or domain
  request also after the deselect-all request, the object-type variant only otherwise.
\<close>

definition ReplicatedMouseTraceByObjectTypes ::
  "bool \<Rightarrow> bool \<times> FHitResult list \<Rightarrow> bool \<Rightarrow> state \<Rightarrow> state outcome" where
  "ReplicatedMouseTraceByObjectTypes bMousePoints LineTrace bAppendToList s =
     (if bMousePoints then
        (let (s1, bTraceSuccessful) = TraceByObjectTypes LineTrace bAppendToList s
         in if OwnerRole (World s1) = ROLE_Authority
            then ReplicateServerTraceResults bTraceSuccessful bAppendToList s1
            else
              returns
                (if \<not> bTraceSuccessful \<and> \<not> bAppendToList
                 then call_rpc (ServerDeselectAll False) s1
                 else if CurrentDomain s1 = TD_None
                 then call_rpc (ServerTraceByObjectTypes bAppendToList) s1
                 else call_rpc (ServerSetDomain (CurrentDomain s1)) s1))
      else returns s)"

definition ReplicatedMouseTraceByChannel ::
  "bool \<Rightarrow> bool \<times> FHitResult list \<Rightarrow> bool \<Rightarrow> state \<Rightarrow> state outcome" where
  "ReplicatedMouseTraceByChannel bMousePoints LineTrace bAppendToList s =
     (if bMousePoints then
        (let (s1, bTraceSuccessful) = TraceByChannel LineTrace bAppendToList s
         in if OwnerRole (World s1) = ROLE_Authority
            then ReplicateServerTraceResults bTraceSuccessful bAppendToList s1
            else
              (let s2 = (if \<not> bTraceSuccessful \<and> \<not> bAppendToList
                         then call_rpc (ServerDeselectAll False) s1 else s1)
               in returns
                    (if CurrentDomain s2 = TD_None
                     then call_rpc (ServerTraceByChannel bAppendToList) s2
                     else call_rpc (ServerSetDomain (CurrentDomain s2)) s2)))
      else returns s)"

definition ReplicatedMouseTraceByProfile ::
  "bool \<Rightarrow> bool \<times> FHitResult list \<Rightarrow> bool \<Rightarrow> state \<Rightarrow> state outcome" where
  "ReplicatedMouseTraceByProfile bMousePoints LineTrace bAppendToList s =
     (if bMousePoints then
        (let (s1, bTraceSuccessful) = TraceByProfile LineTrace bAppendToList s
         in if OwnerRole (World s1) = ROLE_Authority
            then ReplicateServerTraceResults bTraceSuccessful bAppendToList s1
            else
              (let s2 = (if \<not> bTraceSuccessful \<and> \<not> bAppendToList
                         then call_rpc (ServerDeselectAll False) s1 else s1)
               in returns
                    (if CurrentDomain s2 = TD_None
                     then call_rpc (ServerTraceByProfile bAppendToList) s2
                     else call_rpc (ServerSetDomain (CurrentDomain s2)) s2)))
      else returns s)"

definition ServerDeselectAll_Implementation :: "bool \<Rightarrow> state \<Rightarrow> state" where
  "ServerDeselectAll_Implementation bDestroySelected s =
     call_rpc (MulticastDeselectAll bDestroySelected) s"

definition MulticastDeselectAll_Implementation :: "bool \<Rightarrow> state \<Rightarrow> state" where
  "MulticastDeselectAll_Implementation bDestroySelected s =
     fst (DeselectAll bDestroySelected s)"

definition ServerClearDomain_Implementation :: "state \<Rightarrow> state" where
  "ServerClearDomain_Implementation s = call_rpc MulticastClearDomain s"

definition MulticastClearDomain_Implementation :: "state \<Rightarrow> state" where
  "MulticastClearDomain_Implementation s = ClearDomain s"

definition MulticastSetDomain_Implementation :: "ETransformationDomain \<Rightarrow> state \<Rightarrow> state" where
  "MulticastSetDomain_Implementation NewDomain s = SetDomain NewDomain s"

definition ServerSyncSelectedComponents_Implementation :: "state \<Rightarrow> state" where
  "ServerSyncSelectedComponents_Implementation s =
     call_rpc (MulticastSetSelectedComponents (SelectedComponents s)) s"

definition ResyncSelectionTimer :: timer where
  "ResyncSelectionTimer =
     \<lparr>TimerFn = Fn_ResyncSelection, TimerRate = 1 / 10, TimerLoop = True, TimerFirstDelay = 0\<rparr>"

definition MulticastSetSelectedComponents_Implementation ::
  "comp option list \<Rightarrow> state \<Rightarrow> state" where
  "MulticastSetSelectedComponents_Implementation Components s =
     (let s0 = (if role_rank (OwnerRole (World s)) < role_rank ROLE_Authority
                then UE_LOG LogLevel ''MulticastSelect ComponentCount: %d'' s else s);
          s1 = fst (DeselectAll False s0);
          s2 = SelectMultipleComponents Components True s1;
          s3 = s2\<lparr>bResyncSelection := (length Components \<noteq> length (SelectedComponents s2))\<rparr>;
          s4 = (if bResyncSelection s3 then
                  (if HasWorld (World s3) then
                     (if ResyncSelectionTimerHandle s3 = None
                      then s3\<lparr>ResyncSelectionTimerHandle := Some ResyncSelectionTimer\<rparr>
                      else s3)
                   else s3)
                else s3)
      in if role_rank (OwnerRole (World s4)) < role_rank ROLE_Authority
         then UE_LOG LogLevel ''Selected ComponentCount: %d'' s4 else s4)"

definition ResyncSelection :: "state \<Rightarrow> state" where
  "ResyncSelection s =
     (if bResyncSelection s then
        call_rpc ServerSyncSelectedComponents (UE_LOG WarningLevel ''Resyncing Selection'' s)
      else
        (UE_LOG WarningLevel ''Resyncing FINISHED'' s)\<lparr>ResyncSelectionTimerHandle := None\<rparr>)"

text \<open>
  What a participant runs when a Multicast call reaches it. The transform application
  is floating-point arithmetic on the selected objects and is left out.
\<close>

fun multicast_Implementation :: "rpc \<Rightarrow> state \<Rightarrow> state" where
  "multicast_Implementation (MulticastDeselectAll b) s = MulticastDeselectAll_Implementation b s"
| "multicast_Implementation MulticastClearDomain s = MulticastClearDomain_Implementation s"
| "multicast_Implementation (MulticastSetDomain d) s = MulticastSetDomain_Implementation d s"
| "multicast_Implementation (MulticastSetSelectedComponents cs) s =
     MulticastSetSelectedComponents_Implementation cs s"
| "multicast_Implementation (MulticastApplyTransform t) s = s"
| "multicast_Implementation (ServerDeselectAll b) s = s"
| "multicast_Implementation ServerClearDomain s = s"
| "multicast_Implementation (ServerApplyTransform t) s = s"
| "multicast_Implementation ServerSyncSelectedComponents s = s"
| "multicast_Implementation (ServerTraceByObjectTypes b) s = s"
| "multicast_Implementation (ServerTraceByChannel b) s = s"
| "multicast_Implementation (ServerTraceByProfile b) s = s"
| "multicast_Implementation (ServerSetDomain d) s = s"

definition deliver_multicasts :: "rpc list \<Rightarrow> state \<Rightarrow> state" where
  "deliver_multicasts rs p = fold multicast_Implementation rs p"

section \<open>Cloning\<close>

text \<open>
  \<^verbatim>\<open>SpawnActor\<close> with a template, as far as the component reads the result: the new
  actor has a root component of its own exactly when the template has one.
\<close>

definition SpawnActor :: "actor \<Rightarrow> world \<Rightarrow> world \<times> actor option" where
  "SpawnActor templateActor w =
     (if SpawnSucceeds w templateActor then
        (let a = NextId w
         in case GetRootComponent w templateActor of
              None \<Rightarrow>
                (w\<lparr>NextId := Suc a, GetRootComponent := (GetRootComponent w)(a := None)\<rparr>, Some a)
            | Some r \<Rightarrow>
                (w\<lparr>NextId := Suc (Suc a),
                   GetOwner := (GetOwner w)(Suc a := Some a),
                   GetRootComponent := (GetRootComponent w)(a := Some (Suc a)),
                   GetAttachParent := (GetAttachParent w)(Suc a := None)\<rparr>, Some a))
      else (w, None))"

fun clone_actors_loop ::
  "actor option list \<Rightarrow> actor set \<Rightarrow> world \<Rightarrow> comp option list \<Rightarrow> world \<times> comp option list" where
  "clone_actors_loop [] actorsProcessed w outClones = (w, outClones)"
| "clone_actors_loop (None # as) actorsProcessed w outClones =
     clone_actors_loop as actorsProcessed w outClones"
| "clone_actors_loop (Some templateActor # as) actorsProcessed w outClones =
     (if templateActor \<in> actorsProcessed
      then clone_actors_loop as actorsProcessed w outClones
      else
        (case SpawnActor templateActor w of
           (w1, None) \<Rightarrow> clone_actors_loop as (insert templateActor actorsProcessed) w1 outClones
         | (w1, Some a) \<Rightarrow>
             clone_actors_loop as (insert templateActor actorsProcessed) w1
               (outClones @ [GetRootComponent w1 a])))"

definition CloneActors :: "actor option list \<Rightarrow> world \<Rightarrow> world \<times> comp option list" where
  "CloneActors Actors w =
     (if \<not> HasWorld w then (w, []) else clone_actors_loop Actors {} w [])"

text \<open>
  \<^verbatim>\<open>StaticDuplicateObject\<close> and the registration of the duplicate: a fresh component
  with the given owner, which starts on its template's attach parent.
\<close>

definition StaticDuplicateObject :: "comp \<Rightarrow> actor \<Rightarrow> world \<Rightarrow> world" where
  "StaticDuplicateObject templateComponent owner w =
     w\<lparr>NextId := Suc (NextId w),
       GetOwner := (GetOwner w)(NextId w := Some owner),
       GetAttachParent := (GetAttachParent w)(NextId w := GetAttachParent w templateComponent)\<rparr>"

definition AttachToComponent :: "comp \<Rightarrow> comp \<Rightarrow> world \<Rightarrow> world" where
  "AttachToComponent c parent w = w\<lparr>GetAttachParent := (GetAttachParent w)(c := Some parent)\<rparr>"

text \<open>
  The clone phase of \<^verbatim>\<open>CloneComponents\<close>. \<open>OcCc\<close> maps an original component to its
  clone; \<open>CcOp\<close> lists each clone with its original parent, in insertion order.
\<close>

fun clone_phase ::
  "comp option list \<Rightarrow> world \<Rightarrow> (comp \<Rightarrow> comp option) \<Rightarrow> (comp \<times> comp option) list \<Rightarrow> comp option list
     \<Rightarrow> world \<times> (comp \<Rightarrow> comp option) \<times> (comp \<times> comp option) list \<times> comp option list" where
  "clone_phase [] w OcCc CcOp outClones = (w, OcCc, CcOp, outClones)"
| "clone_phase (None # ts) w OcCc CcOp outClones = clone_phase ts w OcCc CcOp outClones"
| "clone_phase (Some templateComponent # ts) w OcCc CcOp outClones =
     (case GetOwner w templateComponent of
        None \<Rightarrow> clone_phase ts w OcCc CcOp outClones
      | Some owner \<Rightarrow>
          if DuplicateSucceeds w templateComponent then
            (let clone = NextId w;
                 w1 = StaticDuplicateObject templateComponent owner w;
                 OriginalParent =
                   (if Some templateComponent = GetRootComponent w1 owner
                    then GetRootComponent w1 owner
                    else GetAttachParent w1 templateComponent)
             in clone_phase ts w1 (OcCc(templateComponent \<mapsto> clone))
                  (CcOp @ [(clone, OriginalParent)]) (outClones @ [Some clone]))
          else clone_phase ts w OcCc CcOp outClones)"

text \<open>\<^verbatim>\<open>TMap::Find\<close> with a pointer key; no key of \<open>OcCc\<close> is null.\<close>

definition TMap_Find :: "(comp \<Rightarrow> comp option) \<Rightarrow> comp option \<Rightarrow> comp option" where
  "TMap_Find m key = (case key of None \<Rightarrow> None | Some k \<Rightarrow> m k)"

text \<open>
  The \<^verbatim>\<open>while (1)\<close> loop of the reparenting phase, entered with \<open>parent\<close> the original
  parent \<open>OriginalParent\<close> and \<open>actorOwner\<close> its owner.
\<close>

partial_function (option) reparent_walk ::
  "world \<Rightarrow> (comp \<Rightarrow> comp option) \<Rightarrow> actor option \<Rightarrow> comp \<Rightarrow> comp option \<Rightarrow> (error + comp) option" where
  "reparent_walk w OcCc actorOwner OriginalParent parent =
     (case actorOwner of
        None \<Rightarrow> Some (Inl NullDereference)
      | Some ao \<Rightarrow>
          if parent = GetRootComponent w ao then Some (Inr OriginalParent)
          else
            (case parent of
               None \<Rightarrow> Some (Inl NullDereference)
             | Some p \<Rightarrow>
                 (case TMap_Find OcCc (GetAttachParent w p) of
                    Some cloneParent \<Rightarrow> Some (Inr cloneParent)
                  | None \<Rightarrow> reparent_walk w OcCc actorOwner OriginalParent (GetAttachParent w p))))"

text \<open>The parent one clone is attached to, and the attachment.\<close>

definition reparent_one :: "(comp \<Rightarrow> comp option) \<Rightarrow> comp \<times> comp option \<Rightarrow> world \<Rightarrow> world outcome" where
  "reparent_one OcCc cp w =
     (case snd cp of
        None \<Rightarrow> Some (Inl NullDereference)
      | Some OriginalParent \<Rightarrow>
          (let actorOwner = GetOwner w OriginalParent
           in case TMap_Find OcCc (Some OriginalParent) of
                Some cloneParent \<Rightarrow>
                  returns (AttachToComponent (fst cp)
                             (if cloneParent \<noteq> fst cp then cloneParent else OriginalParent) w)
              | None \<Rightarrow>
                  bind_outcome (reparent_walk w OcCc actorOwner OriginalParent (Some OriginalParent))
                    (\<lambda>parent. returns (AttachToComponent (fst cp) parent w))))"

fun reparent_phase :: "(comp \<times> comp option) list \<Rightarrow> (comp \<Rightarrow> comp option) \<Rightarrow> world \<Rightarrow> world outcome" where
  "reparent_phase [] OcCc w = returns w"
| "reparent_phase (cp # rest) OcCc w =
     bind_outcome (reparent_one OcCc cp w) (\<lambda>w1. reparent_phase rest OcCc w1)"

definition CloneComponents :: "comp option list \<Rightarrow> world \<Rightarrow> (world \<times> comp option list) outcome" where
  "CloneComponents Components w =
     (if \<not> HasWorld w then returns (w, [])
      else
        (case clone_phase Components w Map.empty [] [] of
           (w1, OcCc, CcOp, outClones) \<Rightarrow>
             bind_outcome (reparent_phase CcOp OcCc w1) (\<lambda>w2. returns (w2, outClones))))"

definition CloneFromList :: "comp option list \<Rightarrow> state \<Rightarrow> (state \<times> comp option list) outcome" where
  "CloneFromList ComponentList s =
     bind_outcome
       (if bComponentBased s then
          bind_outcome (CloneComponents (filter (\<lambda>i. i \<noteq> None) ComponentList) (World s))
            (\<lambda>(w, outClones). returns (s\<lparr>World := w\<rparr>, outClones))
        else
          (case CloneActors
                  (map (\<lambda>i. case i of None \<Rightarrow> None | Some c \<Rightarrow> GetOwner (World s) c)
                     (filter (\<lambda>i. i \<noteq> None) ComponentList)) (World s) of
             (w, outClones) \<Rightarrow> returns (s\<lparr>World := w\<rparr>, outClones)))
       (\<lambda>(s1, outClones).
          returns
            ((if CurrentDomain s1 \<noteq> TD_None then
                (case Gizmo s1 of
                   None \<Rightarrow> s1
                 | Some g \<Rightarrow> gizmo_do g (SetTransformProgressState True (CurrentDomain s1)) s1)
              else s1), outClones))"

definition CheckUnrepTimer :: "state \<Rightarrow> timer" where
  "CheckUnrepTimer s =
     \<lparr>TimerFn = Fn_CheckUnreplicatedActors, TimerRate = CloneReplicationCheckFrequency s,
      TimerLoop = True, TimerFirstDelay = 0\<rparr>"

definition ServerCloneSelected_Implementation :: "bool \<Rightarrow> bool \<Rightarrow> state \<Rightarrow> state outcome" where
  "ServerCloneSelected_Implementation bSelectNewClones bAppendToList s =
     (if bComponentBased s then
        returns (UE_LOG WarningLevel
                   ''** Component Cloning is currently not supported in a Network Environment :( **'' s)
      else
        bind_outcome (CloneFromList (SelectedComponents s) s)
          (\<lambda>(s1, CloneList).
             returns
               (if bSelectNewClones then
                  (let s2 = SelectMultipleComponents CloneList bAppendToList s1;
                       s3 = s2\<lparr>UnreplicatedComponentClones := CloneList\<rparr>
                   in if HasWorld (World s3) then
                        (if CheckUnrepTimerHandle s3 = None
                         then s3\<lparr>CheckUnrepTimerHandle := Some (CheckUnrepTimer s3)\<rparr>
                         else s3)
                      else s3)
                else s1)))"

text \<open>
  \<^verbatim>\<open>TArray::RemoveAtSwap(Index, Count)\<close>: the hole of \<open>Count\<close> elements at \<open>Index\<close> is
  filled with as many elements from the end of the array as fit.
\<close>

definition RemoveAtSwap :: "nat \<Rightarrow> nat \<Rightarrow> 'a list \<Rightarrow> 'a list" where
  "RemoveAtSwap Index Count xs =
     (let n = length xs; m = min Count (n - (Index + Count))
      in take Index xs @ drop (n - m) xs @ take (n - Index - Count - m) (drop (Index + m) xs))"

text \<open>
  The test \<^verbatim>\<open>CheckUnreplicatedActors\<close> makes on a pending clone; \<open>timeElapsed\<close> is what
  the timer manager reports for the poll's timer.
\<close>

definition clone_ready :: "state \<Rightarrow> real \<Rightarrow> comp option \<Rightarrow> bool" where
  "clone_ready s timeElapsed c =
     (case c of
        None \<Rightarrow> False
      | Some x \<Rightarrow>
          CompHasBegunPlay (World s) x \<and> CompSupportedForNetworking (World s) x \<and>
          timeElapsed > MinimumCloneReplicationTime s)"

definition CheckUnreplicatedActors :: "real \<Rightarrow> state \<Rightarrow> state" where
  "CheckUnreplicatedActors timeElapsed s =
     (let RemoveCount = length (filter (clone_ready s timeElapsed) (UnreplicatedComponentClones s));
          s1 = s\<lparr>UnreplicatedComponentClones :=
                   RemoveAtSwap 0 RemoveCount (UnreplicatedComponentClones s)\<rparr>
      in if length (UnreplicatedComponentClones s1) = 0 then
           (let s2 = s1\<lparr>CheckUnrepTimerHandle := None\<rparr>;
                s3 = UE_LOG LogLevel
                       ''[SERVER] Time Elapsed for %d Replicated Actors to replicate: %f'' s2
            in call_rpc (MulticastSetSelectedComponents (SelectedComponents s3)) s3)
         else s1)"

section \<open>Construction and example scenes\<close>

definition SetSpaceType :: "ESpaceType \<Rightarrow> state \<Rightarrow> state" where
  "SetSpaceType Type s = SetGizmo (s\<lparr>CurrentSpaceType := Type\<rparr>)"

text \<open>
  The constructor, for a component placed in the world \<open>w\<close>. The selection starts empty
  and without a gizmo.
\<close>

definition Constructor :: "world \<Rightarrow> state" where
  "Constructor w =
     (let s0 = \<lparr>SelectedComponents = [], Gizmo = None,
                GizmoPlacement = GP_OnLastSelection,
                CurrentTransformation = TT_Translation,
                CurrentDomain = TD_None,
                CurrentSpaceType = ST_World,
                TranslationGizmoClass = Some ATranslationGizmo,
                RotationGizmoClass = Some ARotationGizmo,
                ScaleGizmoClass = Some AScaleGizmo,
                AccumulatedDeltaTransform = ResetDeltaTransform FTransform_Identity,
                NetworkDeltaTransform = ResetDeltaTransform FTransform_Identity,
                bToggleSelectedInMultiSelection = True,
                bComponentBased = False,
                bIgnoreNonReplicatedObjects = False,
                bResyncSelection = False,
                ResyncSelectionTimerHandle = None,
                CheckUnrepTimerHandle = None,
                UnreplicatedComponentClones = [],
                CloneReplicationCheckFrequency = 5 / 100,
                MinimumCloneReplicationTime = 1 / 100,
                World = w, Events = [], GizmoCalls = [], Sent = [], LogOutput = []\<rparr>
      in SetSpaceType ST_World (SetTransformationType TT_Translation s0))"

text \<open>
  A scene for the examples. Actor 5 has the root component 10, with 11 attached to 10 and
  12 attached to 11; actor 6 has the root component 20; actor 7 has no root component.
  Actor 5 and component 11 are focusable, and \<open>ShouldSelect\<close> accepts everything, as the
  default implementation does. The transformer component is owned by a local player
  controller on the authority.
\<close>

definition scene_owner :: "comp \<Rightarrow> actor option" where
  "scene_owner c = (if c = 10 \<or> c = 11 \<or> c = 12 then Some 5 else if c = 20 then Some 6 else None)"

definition scene_root :: "actor \<Rightarrow> comp option" where
  "scene_root a = (if a = 5 then Some 10 else if a = 6 then Some 20 else None)"

definition scene_parent :: "comp \<Rightarrow> comp option" where
  "scene_parent c = (if c = 11 then Some 10 else if c = 12 then Some 11 else None)"

definition scene :: world where
  "scene =
     \<lparr>HasWorld = True, NextId = 100, OwnerRole = ROLE_Authority,
      GetOwner = scene_owner, GetRootComponent = scene_root, GetAttachParent = scene_parent,
      CompImplementsFocusable = (\<lambda>c. c = 11),
      ActorImplementsFocusable = (\<lambda>a. a = 5),
      IsBaseGizmo = (\<lambda>a. False),
      GetGizmoType = (\<lambda>a. TT_NoTransform),
      GetTransformationDomain = (\<lambda>c. TD_None),
      ShouldSelect = (\<lambda>a c. True),
      ActorSupportedForNetworking = (\<lambda>a. True),
      CompSupportedForNetworking = (\<lambda>c. True),
      CompHasBegunPlay = (\<lambda>c. c \<noteq> 10),
      CompPendingKill = (\<lambda>c. False),
      ActorPendingKill = (\<lambda>a. False),
      NumComponents = (\<lambda>a. if a = 5 then 3 else if a = 6 then 1 else 0),
      SpawnSucceeds = (\<lambda>a. True),
      DuplicateSucceeds = (\<lambda>c. True),
      TransformerOwner = Some (PlayerController True)\<rparr>"

section \<open>Frames and expected notifications\<close>

text \<open>
  \<open>core s\<close> blanks what the selection, gizmo, domain and trace operations may change:
  the selection, the notifications, the gizmo and the calls on it, the domain, the
  frame-level accumulator, the log, and in the world the identities handed out and the
  destroyed objects.
  \<open>frame s s'\<close> says that \<open>s'\<close> differs from \<open>s\<close> at most there.
\<close>

definition core :: "state \<Rightarrow> state" where
  "core s =
     s\<lparr>SelectedComponents := [], Events := [], Gizmo := None, GizmoCalls := [],
       CurrentDomain := TD_None, AccumulatedDeltaTransform := FTransform_Identity,
       LogOutput := [],
       World := (World s)\<lparr>NextId := 0, IsBaseGizmo := (\<lambda>a. False),
                          GetGizmoType := (\<lambda>a. TT_NoTransform),
                          CompPendingKill := (\<lambda>c. False),
                          ActorPendingKill := (\<lambda>a. False),
                          NumComponents := (\<lambda>a. 0)\<rparr>\<rparr>"

definition frame :: "state \<Rightarrow> state \<Rightarrow> bool" where
  "frame s s' \<longleftrightarrow> core s' = core s"

text \<open>The notifications one deselection and one selection of a list entry send.\<close>

definition deselect_events :: "state \<Rightarrow> comp option \<Rightarrow> event list" where
  "deselect_events s Component =
     (case GetUFocusable s Component of
        Some obj \<Rightarrow> [Unfocus obj Component (bComponentBased s), SelectionChange Component False True]
      | None \<Rightarrow> [SelectionChange Component False False])"

definition select_events :: "state \<Rightarrow> comp option \<Rightarrow> event list" where
  "select_events s Component =
     (case GetUFocusable s Component of
        Some obj \<Rightarrow> [Focus obj Component (bComponentBased s), SelectionChange Component True True]
      | None \<Rightarrow> [SelectionChange Component True False])"

text \<open>\<^verbatim>\<open>DeselectAll\<close> passes over null entries without a notification.\<close>

definition deselect_all_events :: "state \<Rightarrow> comp option list \<Rightarrow> event list" where
  "deselect_all_events s cs = concat (map (deselect_events s) (filter (\<lambda>c. c \<noteq> None) cs))"

text \<open>
  A state in the middle of a snapped translation: the frame-level accumulator holds a
  remainder of three units along the first axis, and the network delta the ten units
  already applied.
\<close>

definition snap_remainder_state :: state where
  "snap_remainder_state =
     (Constructor scene)
       \<lparr>AccumulatedDeltaTransform :=
          \<lparr>Rotation = (0, 0, 0, 1), Translation = (3, 0, 0), Scale3D = (0, 0, 0)\<rparr>,
        NetworkDeltaTransform :=
          \<lparr>Rotation = (0, 0, 0, 1), Translation = (10, 0, 0), Scale3D = (0, 0, 0)\<rparr>\<rparr>"

text \<open>
  Two reachable selections in the scene: in actor mode, actors 5 and 6 selected one after
  the other; in component mode, components 11 and 12.
\<close>

definition actors_selected :: state where
  "actors_selected = SelectActor (Some 6) True (SelectActor (Some 5) True (Constructor scene))"

definition components_selected :: state where
  "components_selected =
     SelectComponent (Some 12) True
       (SelectComponent (Some 11) True ((Constructor scene)\<lparr>bComponentBased := True\<rparr>))"

section \<open>Sequences of selection operations\<close>

text \<open>The public select and deselect operations, and a run of them.\<close>

datatype sel_op =
    OpSelectComponent "comp option" bool
  | OpSelectActor "actor option" bool
  | OpSelectMultipleComponents "comp option list" bool
  | OpSelectMultipleActors "actor option list" bool
  | OpDeselectComponent "comp option"
  | OpDeselectActor "actor option"
  | OpDeselectAll bool

fun apply_op :: "sel_op \<Rightarrow> state \<Rightarrow> state" where
  "apply_op (OpSelectComponent C bAppendToList) s = SelectComponent C bAppendToList s"
| "apply_op (OpSelectActor A bAppendToList) s = SelectActor A bAppendToList s"
| "apply_op (OpSelectMultipleComponents Cs bAppendToList) s =
     SelectMultipleComponents Cs bAppendToList s"
| "apply_op (OpSelectMultipleActors As bAppendToList) s = SelectMultipleActors As bAppendToList s"
| "apply_op (OpDeselectComponent C) s = DeselectComponent C s"
| "apply_op (OpDeselectActor A) s = DeselectActor A s"
| "apply_op (OpDeselectAll bDestroyDeselected) s = fst (DeselectAll bDestroyDeselected s)"

definition run_ops :: "sel_op list \<Rightarrow> state \<Rightarrow> state" where
  "run_ops ops s = fold apply_op ops s"

text \<open>
  The Selection Set as the specification describes it: a set of references. Adding a
  reference that is present removes it under the toggle policy and is a no-op
  otherwise; a selection that does not append first clears the set; selections of a
  null component or actor are no-ops, as are selections the \<open>ShouldSelect\<close> hook
  rejects. An actor is selected through the reference to its root component, which is
  null for an actor without one; such an actor is deselected by a no-op.
\<close>

definition spec_add :: "bool \<Rightarrow> comp option \<Rightarrow> comp option set \<Rightarrow> comp option set" where
  "spec_add toggle c S = (if c \<in> S then (if toggle then S - {c} else S) else insert c S)"

fun spec_select_components ::
  "world \<Rightarrow> bool \<Rightarrow> comp option list \<Rightarrow> bool \<Rightarrow> comp option set \<Rightarrow> comp option set" where
  "spec_select_components w toggle [] app S = S"
| "spec_select_components w toggle (None # cs) app S =
     spec_select_components w toggle cs app S"
| "spec_select_components w toggle (Some c # cs) app S =
     (if ShouldSelect w (GetOwner w c) (Some c)
      then spec_select_components w toggle cs True
             (spec_add toggle (Some c) (if app then S else {}))
      else spec_select_components w toggle cs app S)"

fun spec_select_actors ::
  "world \<Rightarrow> bool \<Rightarrow> actor option list \<Rightarrow> bool \<Rightarrow> comp option set \<Rightarrow> comp option set" where
  "spec_select_actors w toggle [] app S = S"
| "spec_select_actors w toggle (None # as) app S = spec_select_actors w toggle as app S"
| "spec_select_actors w toggle (Some a # as) app S =
     (if ShouldSelect w (Some a) (GetRootComponent w a)
      then spec_select_actors w toggle as True
             (spec_add toggle (GetRootComponent w a) (if app then S else {}))
      else spec_select_actors w toggle as app S)"

fun spec_apply :: "world \<Rightarrow> bool \<Rightarrow> sel_op \<Rightarrow> comp option set \<Rightarrow> comp option set" where
  "spec_apply w toggle (OpSelectComponent C app) S =
     spec_select_components w toggle [C] app S"
| "spec_apply w toggle (OpSelectActor A app) S = spec_select_actors w toggle [A] app S"
| "spec_apply w toggle (OpSelectMultipleComponents Cs app) S =
     spec_select_components w toggle Cs app S"
| "spec_apply w toggle (OpSelectMultipleActors As app) S =
     spec_select_actors w toggle As app S"
| "spec_apply w toggle (OpDeselectComponent C) S =
     (case C of None \<Rightarrow> S | Some c \<Rightarrow> S - {Some c})"
| "spec_apply w toggle (OpDeselectActor A) S =
     (case A of
        None \<Rightarrow> S
      | Some a \<Rightarrow> (case GetRootComponent w a of None \<Rightarrow> S | Some r \<Rightarrow> S - {Some r}))"
| "spec_apply w toggle (OpDeselectAll bDestroyDeselected) S = {}"

definition spec_run ::
  "world \<Rightarrow> bool \<Rightarrow> sel_op list \<Rightarrow> comp option set \<Rightarrow> comp option set" where
  "spec_run w toggle ops S = fold (spec_apply w toggle) ops S"

text \<open>The selection represents the set \<open>S\<close> of references: no entry twice.\<close>

definition represents :: "state \<Rightarrow> comp option set \<Rightarrow> bool" where
  "represents s S \<longleftrightarrow> distinct (SelectedComponents s) \<and> set (SelectedComponents s) = S"

text \<open>Actor 6 is destroyed by the game while it is selected.\<close>

definition actor6_destroyed :: state where
  "actor6_destroyed = actors_selected\<lparr>World := DestroyActor 6 (World actors_selected)\<rparr>"

text \<open>A run of operations in the scene, for the examples.\<close>

definition example_ops :: "sel_op list" where
  "example_ops =
     [OpSelectActor (Some 5) True, OpSelectActor (Some 6) True, OpSelectActor (Some 5) True,
      OpSelectComponent (Some 12) True, OpSelectActor (Some 7) True,
      OpDeselectComponent (Some 20)]"

section \<open>A proxy's view of the resync poll\<close>

text \<open>
  What reaches a proxy while it reconciles its selection: a selection broadcast, or the
  firing of the resync timer, which calls \<^verbatim>\<open>ResyncSelection\<close> only while the timer
  handle is valid.
\<close>

datatype proxy_event = Broadcast "comp option list" | TimerFires

fun proxy_step :: "proxy_event \<Rightarrow> state \<Rightarrow> state" where
  "proxy_step (Broadcast Components) s = MulticastSetSelectedComponents_Implementation Components s"
| "proxy_step TimerFires s =
     (if ResyncSelectionTimerHandle s = None then s else ResyncSelection s)"

definition proxy_run :: "proxy_event list \<Rightarrow> state \<Rightarrow> state" where
  "proxy_run evs s = fold proxy_step evs s"

text \<open>
  A proxy in the scene, and the scenario of a broadcast of three references of which
  the third does not resolve yet, a firing of the timer, the broadcast again with all
  three resolved, and another firing.
\<close>

definition proxy_state :: state where
  "proxy_state = Constructor (scene\<lparr>OwnerRole := ROLE_AutonomousProxy\<rparr>)"

definition resync_scenario :: "proxy_event list" where
  "resync_scenario =
     [Broadcast [Some 10, Some 20, None], TimerFires,
      Broadcast [Some 10, Some 20, Some 11], TimerFires]"

text \<open>
  An authority in the state a clone request with \<^verbatim>\<open>bSelectNewClones\<close> leaves: the new
  root components 10 and 20 are both the selection and the pending clones, and the poll
  timer is running. In the scene, component 10 has not begun play yet.
\<close>

definition clones_pending :: state where
  "clones_pending =
     actors_selected
       \<lparr>UnreplicatedComponentClones := [Some 10, Some 20],
        CheckUnrepTimerHandle := Some (CheckUnrepTimer actors_selected)\<rparr>"

text \<open>The time the timer manager reports to a poll: the interval of the poll's timer.\<close>

definition poll_time :: real where
  "poll_time = 5 / 100"

section \<open>The attachment hierarchy and the reparenting of clones\<close>

text \<open>The attachment relation of a world: pairs of a parent and a component attached to it.\<close>

definition attach_rel :: "world \<Rightarrow> (comp \<times> comp) set" where
  "attach_rel w = {(p, c). GetAttachParent w c = Some p}"

text \<open>
  A well-formed hierarchy: attachment chains are finite and acyclic, every attach parent
  exists already, and a component that is not the root of its actor is attached to a
  component of that actor.
\<close>

definition world_wf :: "world \<Rightarrow> bool" where
  "world_wf w \<longleftrightarrow>
     wf (attach_rel w) \<and>
     (\<forall>c p. GetAttachParent w c = Some p \<longrightarrow> p < NextId w) \<and>
     (\<forall>c a. GetOwner w c = Some a \<longrightarrow> GetRootComponent w a \<noteq> Some c \<longrightarrow>
        (\<exists>p. GetAttachParent w c = Some p \<and> GetOwner w p = Some a))"

text \<open>The two maps the clone phase hands to the reparenting phase.\<close>

definition OcCc_of :: "comp option list \<Rightarrow> world \<Rightarrow> comp \<Rightarrow> comp option" where
  "OcCc_of Components w =
     (case clone_phase Components w Map.empty [] [] of (w1, OcCc, CcOp, outClones) \<Rightarrow> OcCc)"

definition CcOp_of :: "comp option list \<Rightarrow> world \<Rightarrow> (comp \<times> comp option) list" where
  "CcOp_of Components w =
     (case clone_phase Components w Map.empty [] [] of (w1, OcCc, CcOp, outClones) \<Rightarrow> CcOp)"

text \<open>
  The walk up the original hierarchy as the amended claim words it, from the component
  \<open>cur\<close>: at the root of the actor the result is the original parent \<open>v0\<close>; otherwise
  it is the clone of the parent of \<open>cur\<close> when that parent was cloned, and the result
  of the walk from that parent when it was not.
\<close>

inductive nearest_cloned ::
  "world \<Rightarrow> (comp \<Rightarrow> comp option) \<Rightarrow> actor \<Rightarrow> comp \<Rightarrow> comp \<Rightarrow> comp \<Rightarrow> bool"
  for w :: world and OcCc :: "comp \<Rightarrow> comp option" and ao :: actor and v0 :: comp where
  at_root: "GetRootComponent w ao = Some cur \<Longrightarrow> nearest_cloned w OcCc ao v0 cur v0"
| found: "GetRootComponent w ao \<noteq> Some cur \<Longrightarrow> GetAttachParent w cur = Some p \<Longrightarrow>
          OcCc p = Some cp \<Longrightarrow> nearest_cloned w OcCc ao v0 cur cp"
| up: "GetRootComponent w ao \<noteq> Some cur \<Longrightarrow> GetAttachParent w cur = Some p \<Longrightarrow>
       OcCc p = None \<Longrightarrow> nearest_cloned w OcCc ao v0 p P \<Longrightarrow>
       nearest_cloned w OcCc ao v0 cur P"

text \<open>
  The parent \<open>P\<close> the amended claim gives the clone \<open>clone\<close> whose original parent is
  \<open>v\<close>: the clone of \<open>v\<close> when \<open>v\<close> was cloned, except that a clone recorded as the clone
  of its own original parent, as the clone of a root is, stays on the original; the
  result of the walk when \<open>v\<close> was not cloned.
\<close>

definition reparent_spec ::
  "world \<Rightarrow> (comp \<Rightarrow> comp option) \<Rightarrow> comp \<Rightarrow> comp \<Rightarrow> comp \<Rightarrow> bool" where
  "reparent_spec w OcCc clone v P \<longleftrightarrow>
     (case OcCc v of
        Some cv \<Rightarrow> P = (if cv \<noteq> clone then cv else v)
      | None \<Rightarrow> (\<exists>ao. GetOwner w v = Some ao \<and> nearest_cloned w OcCc ao v v P))"

text \<open>
  The original parent the clone phase records for a template: the template itself when
  it is the root of its owner.
\<close>

definition original_parent :: "world \<Rightarrow> comp \<Rightarrow> comp option" where
  "original_parent w t =
     (case GetOwner w t of
        None \<Rightarrow> None
      | Some owner \<Rightarrow>
          if Some t = GetRootComponent w owner then GetRootComponent w owner
          else GetAttachParent w t)"

text \<open>
  \<open>same_below w0 w\<close>: the world \<open>w\<close> is \<open>w0\<close> after some duplications and attachments
  of duplicates. The objects of \<open>w0\<close>, whose identities are below \<open>NextId w0\<close>, have
  their owners and attach parents of \<open>w0\<close>, and so have the identities not handed out yet.
\<close>

definition same_below :: "world \<Rightarrow> world \<Rightarrow> bool" where
  "same_below w0 w \<longleftrightarrow>
     NextId w0 \<le> NextId w \<and>
     GetRootComponent w = GetRootComponent w0 \<and>
     DuplicateSucceeds w = DuplicateSucceeds w0 \<and>
     (\<forall>c. c < NextId w0 \<longrightarrow>
        GetAttachParent w c = GetAttachParent w0 c \<and> GetOwner w c = GetOwner w0 c) \<and>
     (\<forall>c. NextId w \<le> c \<longrightarrow> GetAttachParent w c = GetAttachParent w0 c)"

text \<open>
  The components handed to \<^verbatim>\<open>CloneComponents\<close> exist: their identities have been handed
  out.
\<close>

definition components_exist :: "comp option list \<Rightarrow> world \<Rightarrow> bool" where
  "components_exist Components w \<longleftrightarrow> (\<forall>t. Some t \<in> set Components \<longrightarrow> t < NextId w)"

text \<open>
  The rank of a component after the reparenting, for the clones \<open>T\<close> listed with their
  templates: an original ranks below every clone; a clone ranks by its template, and
  among the clones of one template the one recorded in \<open>OcCc\<close> ranks first.
\<close>

definition clone_rank ::
  "(comp \<times> comp) list \<Rightarrow> (comp \<Rightarrow> comp option) \<Rightarrow> comp \<Rightarrow> nat \<times> comp \<times> nat" where
  "clone_rank T OcCc c =
     (case map_of T c of
        None \<Rightarrow> (0, c, 0)
      | Some t \<Rightarrow> (1, t, if OcCc t = Some c then 0 else 1))"

text \<open>What a call of \<^verbatim>\<open>CloneComponents\<close> returned, and the attach parent of a component after it.\<close>

definition clones_returned :: "(world \<times> comp option list) outcome \<Rightarrow> comp option list option" where
  "clones_returned r = (case r of Some (Inr (w, outClones)) \<Rightarrow> Some outClones | _ \<Rightarrow> None)"

definition parent_after :: "(world \<times> comp option list) outcome \<Rightarrow> comp \<Rightarrow> comp option" where
  "parent_after r c = (case r of Some (Inr (w, outClones)) \<Rightarrow> GetAttachParent w c | _ \<Rightarrow> None)"

section \<open>Frames\<close>

lemma frame_refl: "frame s s"
  by (simp add: frame_def)

lemma frame_trans: "frame s s1 \<Longrightarrow> frame s1 s2 \<Longrightarrow> frame s s2"
  by (simp add: frame_def)

lemma frame_fields:
  assumes "frame s s'"
  shows "Sent s' = Sent s"
    and "NetworkDeltaTransform s' = NetworkDeltaTransform s"
    and "CurrentTransformation s' = CurrentTransformation s"
    and "CurrentSpaceType s' = CurrentSpaceType s"
    and "GizmoPlacement s' = GizmoPlacement s"
    and "bToggleSelectedInMultiSelection s' = bToggleSelectedInMultiSelection s"
    and "bComponentBased s' = bComponentBased s"
    and "bIgnoreNonReplicatedObjects s' = bIgnoreNonReplicatedObjects s"
    and "bResyncSelection s' = bResyncSelection s"
    and "ResyncSelectionTimerHandle s' = ResyncSelectionTimerHandle s"
    and "CheckUnrepTimerHandle s' = CheckUnrepTimerHandle s"
    and "UnreplicatedComponentClones s' = UnreplicatedComponentClones s"
    and "CloneReplicationCheckFrequency s' = CloneReplicationCheckFrequency s"
    and "MinimumCloneReplicationTime s' = MinimumCloneReplicationTime s"
    and "HasWorld (World s') = HasWorld (World s)"
    and "OwnerRole (World s') = OwnerRole (World s)"
    and "GetOwner (World s') = GetOwner (World s)"
    and "GetRootComponent (World s') = GetRootComponent (World s)"
    and "GetAttachParent (World s') = GetAttachParent (World s)"
    and "CompImplementsFocusable (World s') = CompImplementsFocusable (World s)"
    and "ActorImplementsFocusable (World s') = ActorImplementsFocusable (World s)"
    and "ShouldSelect (World s') = ShouldSelect (World s)"
    and "CompHasBegunPlay (World s') = CompHasBegunPlay (World s)"
    and "CompSupportedForNetworking (World s') = CompSupportedForNetworking (World s)"
proof -
  have c: "core s' = core s"
    using assms by (simp add: frame_def)
  show "Sent s' = Sent s"
    using arg_cong[OF c, of Sent] by (simp add: core_def)
  show "NetworkDeltaTransform s' = NetworkDeltaTransform s"
    using arg_cong[OF c, of NetworkDeltaTransform] by (simp add: core_def)
  show "CurrentTransformation s' = CurrentTransformation s"
    using arg_cong[OF c, of CurrentTransformation] by (simp add: core_def)
  show "CurrentSpaceType s' = CurrentSpaceType s"
    using arg_cong[OF c, of CurrentSpaceType] by (simp add: core_def)
  show "GizmoPlacement s' = GizmoPlacement s"
    using arg_cong[OF c, of GizmoPlacement] by (simp add: core_def)
  show "bToggleSelectedInMultiSelection s' = bToggleSelectedInMultiSelection s"
    using arg_cong[OF c, of bToggleSelectedInMultiSelection] by (simp add: core_def)
  show "bComponentBased s' = bComponentBased s"
    using arg_cong[OF c, of bComponentBased] by (simp add: core_def)
  show "bIgnoreNonReplicatedObjects s' = bIgnoreNonReplicatedObjects s"
    using arg_cong[OF c, of bIgnoreNonReplicatedObjects] by (simp add: core_def)
  show "bResyncSelection s' = bResyncSelection s"
    using arg_cong[OF c, of bResyncSelection] by (simp add: core_def)
  show "ResyncSelectionTimerHandle s' = ResyncSelectionTimerHandle s"
    using arg_cong[OF c, of ResyncSelectionTimerHandle] by (simp add: core_def)
  show "CheckUnrepTimerHandle s' = CheckUnrepTimerHandle s"
    using arg_cong[OF c, of CheckUnrepTimerHandle] by (simp add: core_def)
  show "UnreplicatedComponentClones s' = UnreplicatedComponentClones s"
    using arg_cong[OF c, of UnreplicatedComponentClones] by (simp add: core_def)
  show "CloneReplicationCheckFrequency s' = CloneReplicationCheckFrequency s"
    using arg_cong[OF c, of CloneReplicationCheckFrequency] by (simp add: core_def)
  show "MinimumCloneReplicationTime s' = MinimumCloneReplicationTime s"
    using arg_cong[OF c, of MinimumCloneReplicationTime] by (simp add: core_def)
  have w: "f (World s') = f (World (core s'))" "f (World s) = f (World (core s))"
    if "\<And>w n b t ck ak nc.
          f (w\<lparr>NextId := n, IsBaseGizmo := b, GetGizmoType := t, CompPendingKill := ck,
                ActorPendingKill := ak, NumComponents := nc\<rparr>) = f w"
    for f :: "world \<Rightarrow> 'b"
    by (simp_all add: core_def that)
  show "HasWorld (World s') = HasWorld (World s)"
    using w[of HasWorld] c by simp
  show "OwnerRole (World s') = OwnerRole (World s)"
    using w[of OwnerRole] c by simp
  show "GetOwner (World s') = GetOwner (World s)"
    using w[of GetOwner] c by simp
  show "GetRootComponent (World s') = GetRootComponent (World s)"
    using w[of GetRootComponent] c by simp
  show "GetAttachParent (World s') = GetAttachParent (World s)"
    using w[of GetAttachParent] c by simp
  show "CompImplementsFocusable (World s') = CompImplementsFocusable (World s)"
    using w[of CompImplementsFocusable] c by simp
  show "ActorImplementsFocusable (World s') = ActorImplementsFocusable (World s)"
    using w[of ActorImplementsFocusable] c by simp
  show "ShouldSelect (World s') = ShouldSelect (World s)"
    using w[of ShouldSelect] c by simp
  show "CompHasBegunPlay (World s') = CompHasBegunPlay (World s)"
    using w[of CompHasBegunPlay] c by simp
  show "CompSupportedForNetworking (World s') = CompSupportedForNetworking (World s)"
    using w[of CompSupportedForNetworking] c by simp
qed

lemma frame_owner:
  assumes "frame s s'"
  shows "TransformerOwner (World s') = TransformerOwner (World s)"
proof -
  have c: "core s' = core s"
    using assms by (simp add: frame_def)
  have "TransformerOwner (World s') = TransformerOwner (World (core s'))"
    by (simp add: core_def)
  also have "\<dots> = TransformerOwner (World (core s))"
    by (simp add: c)
  also have "\<dots> = TransformerOwner (World s)"
    by (simp add: core_def)
  finally show ?thesis .
qed

lemma frame_GetUFocusable:
  assumes "frame s s'"
  shows "GetUFocusable s' C = GetUFocusable s C"
  by (simp add: GetUFocusable_def frame_fields[OF assms] split: option.splits)

lemma frame_events:
  assumes "frame s s'"
  shows "deselect_events s' C = deselect_events s C"
    and "select_events s' C = select_events s C"
    and "deselect_all_events s' cs = deselect_all_events s cs"
proof -
  have d: "deselect_events s' D = deselect_events s D" for D
    by (simp add: deselect_events_def frame_GetUFocusable[OF assms] frame_fields[OF assms]
        split: option.splits)
  show "deselect_events s' C = deselect_events s C"
    by (rule d)
  show "select_events s' C = select_events s C"
    by (simp add: select_events_def frame_GetUFocusable[OF assms] frame_fields[OF assms]
        split: option.splits)
  show "deselect_all_events s' cs = deselect_all_events s cs"
    using ext[of "deselect_events s'" "deselect_events s", OF d]
    by (simp add: deselect_all_events_def)
qed

lemma frame_gizmo_do: "frame s (gizmo_do g c s)"
  by (simp add: frame_def core_def gizmo_do_def)

lemma frame_UE_LOG: "frame s (UE_LOG v m s)"
  by (simp add: frame_def core_def UE_LOG_def)

lemma frame_SpawnGizmo: "frame s (SpawnGizmo s)"
  by (simp add: frame_def core_def SpawnGizmo_def Let_def split: option.splits)

lemma frame_SetGizmo: "frame s (SetGizmo s)"
proof (cases "Gizmo s")
  case None
  then show ?thesis
    by (simp add: SetGizmo_def frame_refl frame_SpawnGizmo)
next
  case (Some g)
  have a: "frame s (SpawnGizmo (gizmo_do g DestroyGizmo s))"
    by (rule frame_trans[OF frame_gizmo_do frame_SpawnGizmo])
  have b: "frame s ((gizmo_do g DestroyGizmo s)\<lparr>Gizmo := None\<rparr>)"
    by (simp add: frame_def core_def gizmo_do_def)
  from Some a b show ?thesis
    by (simp add: SetGizmo_def frame_refl)
qed

lemma frame_UpdateGizmoPlacement: "frame s (UpdateGizmoPlacement s)"
proof -
  let ?s1 = "SetGizmo s"
  have 1: "frame s ?s1" by (rule frame_SetGizmo)
  show ?thesis
  proof (cases "Gizmo ?s1")
    case None
    with 1 show ?thesis by (simp add: UpdateGizmoPlacement_def Let_def)
  next
    case (Some g)
    have 2: "frame s (gizmo_do g c2 ?s1)" for c2
      by (rule frame_trans[OF 1 frame_gizmo_do])
    have 3: "frame s (gizmo_do g c3 (gizmo_do g c2 ?s1))" for c2 c3
      by (rule frame_trans[OF 2 frame_gizmo_do])
    from Some 2 3 show ?thesis
      by (simp add: UpdateGizmoPlacement_def Let_def split: option.splits)
  qed
qed

lemma frame_SetDomain: "frame s (SetDomain d s)"
  by (simp add: frame_def core_def SetDomain_def gizmo_do_def Let_def split: option.splits)

lemma frame_ClearDomain: "frame s (ClearDomain s)"
  unfolding ClearDomain_def
  by (rule frame_trans[OF _ frame_SetDomain]) (simp add: frame_def core_def)

section \<open>The selection set\<close>

lemma Find_None: "Find xs x = None \<longleftrightarrow> x \<notin> set xs"
  by (induction xs) auto

lemma Find_Some:
  "Find xs x = Some i \<Longrightarrow> i < length xs \<and> xs ! i = x \<and> RemoveAt i xs = remove1 x xs"
proof (induction xs arbitrary: i)
  case Nil
  then show ?case by simp
next
  case (Cons y ys)
  show ?case
  proof (cases "y = x")
    case True
    with Cons.prems show ?thesis by (simp add: RemoveAt_def)
  next
    case False
    with Cons.prems obtain j where j: "Find ys x = Some j" "i = Suc j"
      by auto
    from Cons.IH[OF j(1)] j(2) False show ?thesis
      by (simp add: RemoveAt_def)
  qed
qed

lemma frame_Select: "frame s (fst (Select C s))"
  by (simp add: Select_def frame_def core_def split: option.splits)

lemma frame_Deselect: "frame s (fst (Deselect C s))"
  by (simp add: Deselect_def frame_def core_def split: option.splits)

lemma frame_OnComponentSelectionChange: "frame s (OnComponentSelectionChange C b i s)"
  by (simp add: OnComponentSelectionChange_def frame_def core_def)

lemma Deselect_eq:
  "Deselect C s =
     (s\<lparr>Events := Events s @ (case GetUFocusable s C of Some obj \<Rightarrow> [Unfocus obj C (bComponentBased s)] | None \<Rightarrow> [])\<rparr>,
      GetUFocusable s C \<noteq> None)"
  by (simp add: Deselect_def split: option.splits)

lemma Select_eq:
  "Select C s =
     (s\<lparr>Events := Events s @ (case GetUFocusable s C of Some obj \<Rightarrow> [Focus obj C (bComponentBased s)] | None \<Rightarrow> [])\<rparr>,
      GetUFocusable s C \<noteq> None)"
  by (simp add: Select_def split: option.splits)

lemma DeselectComponentAtIndex_Internal_eq:
  assumes "Find (SelectedComponents s) C = Some i"
  shows "DeselectComponentAtIndex_Internal i s =
           s\<lparr>SelectedComponents := remove1 C (SelectedComponents s),
             Events := Events s @ deselect_events s C\<rparr>"
  using Find_Some[OF assms]
  by (simp add: DeselectComponentAtIndex_Internal_def Deselect_eq Let_def
      OnComponentSelectionChange_def deselect_events_def split: option.splits)

lemma AddComponent_Internal_eq:
  "AddComponent_Internal C s =
     (if C \<in> set (SelectedComponents s) then
        (if bToggleSelectedInMultiSelection s
         then s\<lparr>SelectedComponents := remove1 C (SelectedComponents s),
                Events := Events s @ deselect_events s C\<rparr>
         else s)
      else s\<lparr>SelectedComponents := SelectedComponents s @ [C],
             Events := Events s @ select_events s C\<rparr>)"
proof (cases "Find (SelectedComponents s) C")
  case None
  then have "C \<notin> set (SelectedComponents s)" by (simp add: Find_None)
  with None show ?thesis
    by (simp add: AddComponent_Internal_def Select_eq Let_def GetUFocusable_def
        OnComponentSelectionChange_def select_events_def split: option.splits)
next
  case (Some i)
  then have "C \<in> set (SelectedComponents s)"
    using Find_None[of "SelectedComponents s" C] by auto
  with Some show ?thesis
    by (simp add: AddComponent_Internal_def DeselectComponentAtIndex_Internal_eq)
qed

lemma DeselectComponent_Internal_eq:
  "DeselectComponent_Internal C s =
     (if C \<in> set (SelectedComponents s)
      then s\<lparr>SelectedComponents := remove1 C (SelectedComponents s),
             Events := Events s @ deselect_events s C\<rparr>
      else s)"
proof (cases "Find (SelectedComponents s) C")
  case None
  then have "C \<notin> set (SelectedComponents s)" by (simp add: Find_None)
  with None show ?thesis
    by (simp add: DeselectComponent_Internal_def)
next
  case (Some i)
  then have "C \<in> set (SelectedComponents s)"
    using Find_None[of "SelectedComponents s" C] by auto
  with Some show ?thesis
    by (simp add: DeselectComponent_Internal_def DeselectComponentAtIndex_Internal_eq)
qed

lemma SpawnGizmo_keeps:
  "SelectedComponents (SpawnGizmo s) = SelectedComponents s"
  "Events (SpawnGizmo s) = Events s"
  "CurrentDomain (SpawnGizmo s) = CurrentDomain s"
  "AccumulatedDeltaTransform (SpawnGizmo s) = AccumulatedDeltaTransform s"
  "LogOutput (SpawnGizmo s) = LogOutput s"
  by (simp_all add: SpawnGizmo_def Let_def split: option.splits)

lemma SetGizmo_keeps:
  "SelectedComponents (SetGizmo s) = SelectedComponents s"
  "Events (SetGizmo s) = Events s"
  "CurrentDomain (SetGizmo s) = CurrentDomain s"
  "AccumulatedDeltaTransform (SetGizmo s) = AccumulatedDeltaTransform s"
  "LogOutput (SetGizmo s) = LogOutput s"
  by (simp_all add: SetGizmo_def SpawnGizmo_keeps gizmo_do_def split: option.splits)

lemma UpdateGizmoPlacement_keeps:
  "SelectedComponents (UpdateGizmoPlacement s) = SelectedComponents s"
  "Events (UpdateGizmoPlacement s) = Events s"
  "CurrentDomain (UpdateGizmoPlacement s) = CurrentDomain s"
  "AccumulatedDeltaTransform (UpdateGizmoPlacement s) = AccumulatedDeltaTransform s"
  "LogOutput (UpdateGizmoPlacement s) = LogOutput s"
  by (simp_all add: UpdateGizmoPlacement_def SetGizmo_keeps gizmo_do_def Let_def
      split: option.splits)

lemma frame_AddComponent_Internal: "frame s (AddComponent_Internal C s)"
  by (simp add: AddComponent_Internal_eq frame_def core_def)

lemma frame_DeselectComponent_Internal: "frame s (DeselectComponent_Internal C s)"
  by (simp add: DeselectComponent_Internal_eq frame_def core_def)

lemma frame_DeselectComponent: "frame s (DeselectComponent C s)"
  by (cases C)
    (simp_all add: DeselectComponent_def frame_refl
      frame_trans[OF frame_DeselectComponent_Internal frame_UpdateGizmoPlacement])

lemma DeselectComponent_sel:
  "SelectedComponents (DeselectComponent C s) =
     (if C = None then SelectedComponents s else remove1 C (SelectedComponents s))"
  by (cases C)
    (simp_all add: DeselectComponent_def UpdateGizmoPlacement_keeps DeselectComponent_Internal_eq
      remove1_idem)

lemma deselect_all_events_simps:
  "deselect_all_events s [] = []"
  "deselect_all_events s (None # cs) = deselect_all_events s cs"
  "deselect_all_events s (Some c # cs) = deselect_events s (Some c) @ deselect_all_events s cs"
  by (simp_all add: deselect_all_events_def)

lemma DeselectComponent_events:
  "Events (DeselectComponent C s) =
     Events s @ (if C \<noteq> None \<and> C \<in> set (SelectedComponents s) then deselect_events s C else [])"
  by (cases C)
    (simp_all add: DeselectComponent_def UpdateGizmoPlacement_keeps DeselectComponent_Internal_eq)

lemma fold_DeselectComponent:
  assumes "SelectedComponents s = replicate k None @ cs"
  shows "frame s (fold DeselectComponent cs s) \<and>
         SelectedComponents (fold DeselectComponent cs s) =
           replicate (k + length (filter (\<lambda>c. c = None) cs)) None \<and>
         Events (fold DeselectComponent cs s) = Events s @ deselect_all_events s cs"
  using assms
proof (induction cs arbitrary: s k)
  case Nil
  then show ?case by (simp add: frame_refl deselect_all_events_simps)
next
  case (Cons c cs)
  let ?s1 = "DeselectComponent c s"
  have f1: "frame s ?s1" by (rule frame_DeselectComponent)
  show ?case
  proof (cases c)
    case None
    then have sel1: "SelectedComponents ?s1 = replicate (Suc k) None @ cs"
      using Cons.prems by (simp add: DeselectComponent_sel replicate_append_same)
    have ev1: "Events ?s1 = Events s"
      using None by (simp add: DeselectComponent_events)
    from Cons.IH[OF sel1] f1 None ev1 frame_events(3)[OF f1, of cs] show ?thesis
      by (auto simp: deselect_all_events_simps intro: frame_trans)
  next
    case (Some x)
    then have sel1: "SelectedComponents ?s1 = replicate k None @ cs"
      using Cons.prems by (simp add: DeselectComponent_sel remove1_append)
    have ev1: "Events ?s1 = Events s @ deselect_events s c"
      using Some Cons.prems by (simp add: DeselectComponent_events)
    from Cons.IH[OF sel1] f1 Some ev1 frame_events(3)[OF f1, of cs] show ?thesis
      by (auto simp: deselect_all_events_simps intro: frame_trans)
  qed
qed

lemma destroy_deselected_keeps:
  "SelectedComponents (destroy_deselected cs s) = SelectedComponents s \<and>
   Events (destroy_deselected cs s) = Events s \<and>
   Sent (destroy_deselected cs s) = Sent s"
  by (induction cs s rule: destroy_deselected.induct) (auto split: option.splits)

lemma DeselectAll_sel: "SelectedComponents (fst (DeselectAll b s)) = []"
  by (simp add: DeselectAll_def Let_def destroy_deselected_keeps UpdateGizmoPlacement_keeps)

lemma DeselectAll_snd: "snd (DeselectAll b s) = SelectedComponents s"
  by (simp add: DeselectAll_def Let_def)

lemma frame_DeselectAll: "frame s (fst (DeselectAll False s))"
proof -
  let ?s1 = "fold DeselectComponent (SelectedComponents s) s"
  have 1: "frame s ?s1"
    using fold_DeselectComponent[of s 0 "SelectedComponents s"] by simp
  have 2: "frame ?s1 (?s1\<lparr>SelectedComponents := []\<rparr>)"
    by (simp add: frame_def core_def)
  show ?thesis
    using frame_trans[OF frame_trans[OF 1 2] frame_UpdateGizmoPlacement]
    by (simp add: DeselectAll_def Let_def)
qed

lemma DeselectAll_events:
  "Events (fst (DeselectAll False s)) = Events s @ deselect_all_events s (SelectedComponents s)"
  using fold_DeselectComponent[of s 0 "SelectedComponents s"]
  by (simp add: DeselectAll_def Let_def UpdateGizmoPlacement_keeps)

lemma frame_destroy_deselected: "frame s (destroy_deselected cs s)"
proof (induction cs s rule: destroy_deselected.induct)
  case (1 s)
  then show ?case by (simp add: frame_refl)
next
  case (2 cs s)
  then show ?case by simp
next
  case (3 c cs s)
  let ?s1 = "(if \<not> IsValid (World s) c then s
        else
          (case GetOwner (World s) c of
             None \<Rightarrow> s
           | Some a \<Rightarrow>
               if bComponentBased s \<and> NumComponents (World s) a > 1
               then s\<lparr>World := DestroyComponent c a (World s)\<rparr>
               else s\<lparr>World := DestroyActor a (World s)\<rparr>))"
  have "frame s ?s1"
    by (simp add: frame_def core_def DestroyComponent_def DestroyActor_def split: option.splits)
  from frame_trans[OF this "3.IH"] show ?case by simp
qed

lemma frame_DeselectAll_any: "frame s (fst (DeselectAll b s))"
proof -
  let ?s3 = "fst (DeselectAll False s)"
  have "fst (DeselectAll b s) =
      (if b then destroy_deselected (SelectedComponents s) ?s3 else ?s3)"
    by (simp add: DeselectAll_def Let_def)
  then show ?thesis
    using frame_DeselectAll[of s] frame_trans[OF frame_DeselectAll frame_destroy_deselected]
    by simp
qed

lemma SelectComponent_eq:
  "SelectComponent (Some c) bAppendToList s =
     (if ShouldSelect (World s) (GetOwner (World s) c) (Some c)
      then UpdateGizmoPlacement
             (AddComponent_Internal (Some c)
                (if bAppendToList then s else fst (DeselectAll False s)))
      else s)"
  by (simp add: SelectComponent_def Let_def)

lemma frame_SelectComponent: "frame s (SelectComponent C b s)"
proof (cases C)
  case None
  then show ?thesis by (simp add: SelectComponent_def frame_refl)
next
  case (Some c)
  have "frame s (if b then s else fst (DeselectAll False s))"
    by (simp add: frame_refl frame_DeselectAll)
  from frame_trans[OF frame_trans[OF this frame_AddComponent_Internal] frame_UpdateGizmoPlacement]
  show ?thesis
    using Some by (simp add: SelectComponent_eq frame_refl)
qed

lemma SelectActor_eq:
  "SelectActor (Some a) bAppendToList s =
     (if ShouldSelect (World s) (Some a) (GetRootComponent (World s) a)
      then UpdateGizmoPlacement
             (AddComponent_Internal (GetRootComponent (World s) a)
                (if bAppendToList then s else fst (DeselectAll False s)))
      else s)"
  by (simp add: SelectActor_def Let_def frame_fields(18)[OF frame_DeselectAll])

lemma frame_SelectActor: "frame s (SelectActor A b s)"
proof (cases A)
  case None
  then show ?thesis by (simp add: SelectActor_def frame_refl)
next
  case (Some a)
  have "frame s (if b then s else fst (DeselectAll False s))"
    by (simp add: frame_refl frame_DeselectAll)
  from frame_trans[OF frame_trans[OF this frame_AddComponent_Internal] frame_UpdateGizmoPlacement]
  show ?thesis
    using Some by (simp add: SelectActor_eq frame_refl)
qed

text \<open>
  What selecting the list entry \<open>C\<close> does to the selection and to the notifications,
  when the entry is accepted by \<open>ShouldSelect\<close>.
\<close>

lemma select_entry_append:
  assumes "s' = UpdateGizmoPlacement (AddComponent_Internal C s)"
  shows "SelectedComponents s' =
           (if C \<in> set (SelectedComponents s) then
              (if bToggleSelectedInMultiSelection s then remove1 C (SelectedComponents s)
               else SelectedComponents s)
            else SelectedComponents s @ [C])"
    and "Events s' =
           Events s @
           (if C \<in> set (SelectedComponents s) then
              (if bToggleSelectedInMultiSelection s then deselect_events s C else [])
            else select_events s C)"
  using assms by (simp_all add: UpdateGizmoPlacement_keeps AddComponent_Internal_eq)

lemma select_entry_replace:
  assumes "s' = UpdateGizmoPlacement (AddComponent_Internal C (fst (DeselectAll False s)))"
  shows "SelectedComponents s' = [C]"
    and "Events s' =
           Events s @ deselect_all_events s (SelectedComponents s) @ select_events s C"
  using assms
  by (simp_all add: UpdateGizmoPlacement_keeps AddComponent_Internal_eq DeselectAll_sel
      DeselectAll_events frame_events[OF frame_DeselectAll])

section \<open>Accumulators and the transformation type\<close>

lemma ResetDeltaTransform_eq:
  "ResetDeltaTransform T = \<lparr>Rotation = (0, 0, 0, 1), Translation = (0, 0, 0), Scale3D = (0, 0, 0)\<rparr>"
  by (simp add: ResetDeltaTransform_def FTransform_Identity_def ZeroVector_def)

lemma Constructor_eq:
  "Constructor w =
     \<lparr>SelectedComponents = [], Gizmo = None,
      GizmoPlacement = GP_OnLastSelection,
      CurrentTransformation = TT_Translation,
      CurrentDomain = TD_None,
      CurrentSpaceType = ST_World,
      TranslationGizmoClass = Some ATranslationGizmo,
      RotationGizmoClass = Some ARotationGizmo,
      ScaleGizmoClass = Some AScaleGizmo,
      AccumulatedDeltaTransform = ResetDeltaTransform FTransform_Identity,
      NetworkDeltaTransform = ResetDeltaTransform FTransform_Identity,
      bToggleSelectedInMultiSelection = True,
      bComponentBased = False,
      bIgnoreNonReplicatedObjects = False,
      bResyncSelection = False,
      ResyncSelectionTimerHandle = None,
      CheckUnrepTimerHandle = None,
      UnreplicatedComponentClones = [],
      CloneReplicationCheckFrequency = 5 / 100,
      MinimumCloneReplicationTime = 1 / 100,
      World = w, Events = [], GizmoCalls = [], Sent = [], LogOutput = []\<rparr>"
  by (simp add: Constructor_def SetSpaceType_def SetTransformationType_def SetGizmo_def)


text \<open>
  C9, as the claim states it, fails: with translation active and a snapping remainder
  accumulated, setting the transformation type to translation again returns at the
  guard and the remainder stays.
\<close>

theorem C9_counterexample_same_type_keeps_delta:
  "CurrentTransformation snap_remainder_state = TT_Translation \<and>
   AccumulatedDeltaTransform (SetTransformationType TT_Translation snap_remainder_state) =
     \<lparr>Rotation = (0, 0, 0, 1), Translation = (3, 0, 0), Scale3D = (0, 0, 0)\<rparr> \<and>
   AccumulatedDeltaTransform (SetTransformationType TT_Translation snap_remainder_state) \<noteq>
     ResetDeltaTransform (AccumulatedDeltaTransform snap_remainder_state)"
  by (simp add: snap_remainder_state_def Constructor_eq SetTransformationType_def
      ResetDeltaTransform_eq)

text \<open>
  C9, amended. Setting a transformation type other than the active one makes it the
  active one and resets the accumulated delta; setting the active type again changes
  nothing.
\<close>

theorem C9_amended_new_type_resets_delta:
  "(TransformationType \<noteq> CurrentTransformation s \<longrightarrow>
      AccumulatedDeltaTransform (SetTransformationType TransformationType s) =
        \<lparr>Rotation = (0, 0, 0, 1), Translation = (0, 0, 0), Scale3D = (0, 0, 0)\<rparr> \<and>
      CurrentTransformation (SetTransformationType TransformationType s) = TransformationType) \<and>
   SetTransformationType (CurrentTransformation s) s = s"
  by (auto simp: SetTransformationType_def Let_def UE_LOG_def ResetDeltaTransform_eq
      UpdateGizmoPlacement_keeps frame_fields(3)[OF frame_UpdateGizmoPlacement])

theorem C9_amended_witness:
  "TT_Rotation \<noteq> CurrentTransformation snap_remainder_state \<and>
   AccumulatedDeltaTransform (SetTransformationType TT_Rotation snap_remainder_state) =
     \<lparr>Rotation = (0, 0, 0, 1), Translation = (0, 0, 0), Scale3D = (0, 0, 0)\<rparr> \<and>
   CurrentTransformation (SetTransformationType TT_Rotation snap_remainder_state) = TT_Rotation"
proof -
  have h: "TT_Rotation \<noteq> CurrentTransformation snap_remainder_state"
    by (simp add: snap_remainder_state_def Constructor_eq)
  from C9_amended_new_type_resets_delta[of TT_Rotation snap_remainder_state] h
  show ?thesis by blast
qed

section \<open>Mouse traces\<close>

text \<open>
  C10. \<^verbatim>\<open>MouseTraceByChannel\<close> returns false whatever the mouse, the trace and the
  state are, while it changes the state as \<^verbatim>\<open>MouseTraceByObjectTypes\<close> does;
  \<^verbatim>\<open>MouseTraceByObjectTypes\<close> and \<^verbatim>\<open>MouseTraceByProfile\<close> return the result of their
  trace when the mouse points are available.
\<close>

theorem C10_MouseTraceByChannel_returns_false:
  "snd (MouseTraceByChannel bMousePoints LineTrace bAppendToList s) = False \<and>
   fst (MouseTraceByChannel bMousePoints LineTrace bAppendToList s) =
     fst (MouseTraceByObjectTypes bMousePoints LineTrace bAppendToList s) \<and>
   snd (MouseTraceByObjectTypes bMousePoints LineTrace bAppendToList s) =
     (bMousePoints \<and> snd (TraceByObjectTypes LineTrace bAppendToList s)) \<and>
   snd (MouseTraceByProfile bMousePoints LineTrace bAppendToList s) =
     (bMousePoints \<and> snd (TraceByProfile LineTrace bAppendToList s))"
  by (simp add: MouseTraceByChannel_def MouseTraceByObjectTypes_def MouseTraceByProfile_def
      TraceByChannel_def TraceByObjectTypes_def Let_def split: prod.splits)

section \<open>Reselecting a selected object\<close>

lemma scene_fields:
  "HasWorld scene" "OwnerRole scene = ROLE_Authority"
  "GetOwner scene = scene_owner" "GetRootComponent scene = scene_root"
  "GetAttachParent scene = scene_parent"
  "CompImplementsFocusable scene = (\<lambda>c. c = 11)"
  "ActorImplementsFocusable scene = (\<lambda>a. a = 5)"
  "ShouldSelect scene = (\<lambda>a c. True)"
  by (simp_all add: scene_def)

lemma Constructor_fields:
  "SelectedComponents (Constructor w) = []"
  "Events (Constructor w) = []"
  "Sent (Constructor w) = []"
  "World (Constructor w) = w"
  "bToggleSelectedInMultiSelection (Constructor w)"
  "\<not> bComponentBased (Constructor w)"
  "CurrentTransformation (Constructor w) = TT_Translation"
  by (simp_all add: Constructor_eq)

lemma actors_selected_fields:
  "SelectedComponents actors_selected = [Some 10, Some 20]"
  "Events actors_selected =
     [Focus (ObjActor 5) (Some 10) False, SelectionChange (Some 10) True True,
      SelectionChange (Some 20) True False]"
  "bToggleSelectedInMultiSelection actors_selected"
  "\<not> bComponentBased actors_selected"
  "ShouldSelect (World actors_selected) = (\<lambda>a c. True)"
  "GetOwner (World actors_selected) = scene_owner"
  "GetRootComponent (World actors_selected) = scene_root"
  "ActorImplementsFocusable (World actors_selected) = (\<lambda>a. a = 5)"
proof -
  let ?s0 = "Constructor scene"
  let ?s1 = "SelectActor (Some 5) True ?s0"
  have f1: "frame ?s0 ?s1" by (rule frame_SelectActor)
  have f2: "frame ?s1 actors_selected"
    unfolding actors_selected_def by (rule frame_SelectActor)
  note w1 = frame_fields[OF f1]
  note w2 = frame_fields[OF frame_trans[OF f1 f2]]
  have u0: "GetUFocusable ?s0 (Some 10) = Some (ObjActor 5)" "GetUFocusable ?s0 (Some 20) = None"
    by (simp_all add: GetUFocusable_def Constructor_fields scene_fields scene_owner_def)
  have sel1: "SelectedComponents ?s1 = [Some 10]"
    and ev1: "Events ?s1 = [Focus (ObjActor 5) (Some 10) False, SelectionChange (Some 10) True True]"
    by (simp_all add: SelectActor_eq Constructor_fields scene_fields scene_root_def
        UpdateGizmoPlacement_keeps AddComponent_Internal_eq select_events_def u0)
  have u1: "GetUFocusable ?s1 (Some 20) = None"
    using frame_GetUFocusable[OF f1] u0 by simp
  have r2: "GetRootComponent (World ?s1) 6 = Some 20"
    and ss: "ShouldSelect (World ?s1) (Some 6) (Some 20)"
    and t1: "bToggleSelectedInMultiSelection ?s1"
    by (simp_all add: w1 Constructor_fields scene_fields scene_root_def)
  have s2: "actors_selected = UpdateGizmoPlacement (AddComponent_Internal (Some 20) ?s1)"
    using SelectActor_eq[of 6 True ?s1] r2 ss by (simp add: actors_selected_def)
  show "SelectedComponents actors_selected = [Some 10, Some 20]"
    using select_entry_append(1)[OF s2] sel1 by simp
  show "Events actors_selected =
     [Focus (ObjActor 5) (Some 10) False, SelectionChange (Some 10) True True,
      SelectionChange (Some 20) True False]"
    using select_entry_append(2)[OF s2] sel1 ev1 u1 by (simp add: select_events_def)
  show "bToggleSelectedInMultiSelection actors_selected"
    "\<not> bComponentBased actors_selected"
    "ShouldSelect (World actors_selected) = (\<lambda>a c. True)"
    "GetOwner (World actors_selected) = scene_owner"
    "GetRootComponent (World actors_selected) = scene_root"
    "ActorImplementsFocusable (World actors_selected) = (\<lambda>a. a = 5)"
    by (simp_all add: w2 Constructor_fields scene_fields)
qed

text \<open>
  C4. Let the list entry of an object be in the selection already: the component itself
  for \<^verbatim>\<open>SelectComponent\<close>, the actor's root component for \<^verbatim>\<open>SelectActor\<close>, accepted by
  \<open>ShouldSelect\<close>. Selecting the object with \<^verbatim>\<open>bAppendToList\<close> set removes the entry
  under the toggle policy, and sends the notifications of one deselection: the unfocus
  of the focusable object, if there is one, and the selection change. Selecting it with
  \<^verbatim>\<open>bAppendToList\<close> cleared leaves the selection with exactly that entry, after the
  notifications of the deselection of every prior entry, followed by the notifications
  of its selection: the focus of the focusable object and the selection change.
\<close>

theorem C4_reselecting_a_selected_object:
  "(ShouldSelect (World s) (GetOwner (World s) c) (Some c) \<and>
    Some c \<in> set (SelectedComponents s) \<longrightarrow>
      (bToggleSelectedInMultiSelection s \<longrightarrow>
         SelectedComponents (SelectComponent (Some c) True s) =
           remove1 (Some c) (SelectedComponents s) \<and>
         (distinct (SelectedComponents s) \<longrightarrow>
            Some c \<notin> set (SelectedComponents (SelectComponent (Some c) True s))) \<and>
         Events (SelectComponent (Some c) True s) = Events s @ deselect_events s (Some c)) \<and>
      SelectedComponents (SelectComponent (Some c) False s) = [Some c] \<and>
      Events (SelectComponent (Some c) False s) =
        Events s @ deselect_all_events s (SelectedComponents s) @ select_events s (Some c)) \<and>
   (ShouldSelect (World s) (Some a) (GetRootComponent (World s) a) \<and>
    GetRootComponent (World s) a \<in> set (SelectedComponents s) \<longrightarrow>
      (bToggleSelectedInMultiSelection s \<longrightarrow>
         SelectedComponents (SelectActor (Some a) True s) =
           remove1 (GetRootComponent (World s) a) (SelectedComponents s) \<and>
         (distinct (SelectedComponents s) \<longrightarrow>
            GetRootComponent (World s) a \<notin> set (SelectedComponents (SelectActor (Some a) True s))) \<and>
         Events (SelectActor (Some a) True s) =
           Events s @ deselect_events s (GetRootComponent (World s) a)) \<and>
      SelectedComponents (SelectActor (Some a) False s) = [GetRootComponent (World s) a] \<and>
      Events (SelectActor (Some a) False s) =
        Events s @ deselect_all_events s (SelectedComponents s) @
        select_events s (GetRootComponent (World s) a))"
proof -
  have entry:
    "(bToggleSelectedInMultiSelection s \<longrightarrow>
         SelectedComponents (UpdateGizmoPlacement (AddComponent_Internal C s)) =
           remove1 C (SelectedComponents s) \<and>
         (distinct (SelectedComponents s) \<longrightarrow>
            C \<notin> set (SelectedComponents (UpdateGizmoPlacement (AddComponent_Internal C s)))) \<and>
         Events (UpdateGizmoPlacement (AddComponent_Internal C s)) =
           Events s @ deselect_events s C) \<and>
      SelectedComponents
        (UpdateGizmoPlacement (AddComponent_Internal C (fst (DeselectAll False s)))) = [C] \<and>
      Events (UpdateGizmoPlacement (AddComponent_Internal C (fst (DeselectAll False s)))) =
        Events s @ deselect_all_events s (SelectedComponents s) @ select_events s C"
    if "C \<in> set (SelectedComponents s)" for C
    using that select_entry_append[OF refl, of C s] select_entry_replace[OF refl, of C s]
    by simp
  show ?thesis
    using entry[of "Some c"] entry[of "GetRootComponent (World s) a"]
    by (simp add: SelectComponent_eq SelectActor_eq)
qed

lemma components_selected_fields:
  "SelectedComponents components_selected = [Some 11, Some 12]"
  "Events components_selected =
     [Focus (ObjComponent 11) (Some 11) True, SelectionChange (Some 11) True True,
      SelectionChange (Some 12) True False]"
  "bToggleSelectedInMultiSelection components_selected"
  "bComponentBased components_selected"
  "ShouldSelect (World components_selected) = (\<lambda>a c. True)"
  "GetOwner (World components_selected) = scene_owner"
  "CompImplementsFocusable (World components_selected) = (\<lambda>c. c = 11)"
proof -
  let ?s0 = "(Constructor scene)\<lparr>bComponentBased := True\<rparr>"
  let ?s1 = "SelectComponent (Some 11) True ?s0"
  have f1: "frame ?s0 ?s1" by (rule frame_SelectComponent)
  have f2: "frame ?s1 components_selected"
    unfolding components_selected_def by (rule frame_SelectComponent)
  note w1 = frame_fields[OF f1]
  note w2 = frame_fields[OF frame_trans[OF f1 f2]]
  have u0: "GetUFocusable ?s0 (Some 11) = Some (ObjComponent 11)" "GetUFocusable ?s0 (Some 12) = None"
    by (simp_all add: GetUFocusable_def Constructor_fields scene_fields)
  have sel1: "SelectedComponents ?s1 = [Some 11]"
    and ev1: "Events ?s1 = [Focus (ObjComponent 11) (Some 11) True, SelectionChange (Some 11) True True]"
    by (simp_all add: SelectComponent_eq Constructor_fields scene_fields
        UpdateGizmoPlacement_keeps AddComponent_Internal_eq select_events_def u0)
  have u1: "GetUFocusable ?s1 (Some 12) = None"
    using frame_GetUFocusable[OF f1] u0 by simp
  have ss: "ShouldSelect (World ?s1) (GetOwner (World ?s1) 12) (Some 12)"
    and t1: "bToggleSelectedInMultiSelection ?s1"
    by (simp_all add: w1 Constructor_fields scene_fields)
  have s2: "components_selected = UpdateGizmoPlacement (AddComponent_Internal (Some 12) ?s1)"
    using SelectComponent_eq[of 12 True ?s1] ss by (simp add: components_selected_def)
  show "SelectedComponents components_selected = [Some 11, Some 12]"
    using select_entry_append(1)[OF s2] sel1 by simp
  show "Events components_selected =
     [Focus (ObjComponent 11) (Some 11) True, SelectionChange (Some 11) True True,
      SelectionChange (Some 12) True False]"
    using select_entry_append(2)[OF s2] sel1 ev1 u1 by (simp add: select_events_def)
  show "bToggleSelectedInMultiSelection components_selected"
    "bComponentBased components_selected"
    "ShouldSelect (World components_selected) = (\<lambda>a c. True)"
    "GetOwner (World components_selected) = scene_owner"
    "CompImplementsFocusable (World components_selected) = (\<lambda>c. c = 11)"
    by (simp_all add: w2 Constructor_fields scene_fields)
qed

theorem C4_witness:
  "(ShouldSelect (World components_selected) (GetOwner (World components_selected) 11) (Some 11) \<and>
    Some 11 \<in> set (SelectedComponents components_selected) \<and>
    bToggleSelectedInMultiSelection components_selected \<and>
    distinct (SelectedComponents components_selected) \<and>
    SelectedComponents (SelectComponent (Some 11) True components_selected) = [Some 12] \<and>
    Events (SelectComponent (Some 11) True components_selected) =
      Events components_selected @
      [Unfocus (ObjComponent 11) (Some 11) True, SelectionChange (Some 11) False True] \<and>
    SelectedComponents (SelectComponent (Some 11) False components_selected) = [Some 11] \<and>
    Events (SelectComponent (Some 11) False components_selected) =
      Events components_selected @
      [Unfocus (ObjComponent 11) (Some 11) True, SelectionChange (Some 11) False True,
       SelectionChange (Some 12) False False,
       Focus (ObjComponent 11) (Some 11) True, SelectionChange (Some 11) True True]) \<and>
   (ShouldSelect (World actors_selected) (Some 5) (GetRootComponent (World actors_selected) 5) \<and>
    GetRootComponent (World actors_selected) 5 \<in> set (SelectedComponents actors_selected) \<and>
    bToggleSelectedInMultiSelection actors_selected \<and>
    distinct (SelectedComponents actors_selected) \<and>
    SelectedComponents (SelectActor (Some 5) True actors_selected) = [Some 20] \<and>
    Events (SelectActor (Some 5) True actors_selected) =
      Events actors_selected @
      [Unfocus (ObjActor 5) (Some 10) False, SelectionChange (Some 10) False True] \<and>
    SelectedComponents (SelectActor (Some 5) False actors_selected) = [Some 10] \<and>
    Events (SelectActor (Some 5) False actors_selected) =
      Events actors_selected @
      [Unfocus (ObjActor 5) (Some 10) False, SelectionChange (Some 10) False True,
       SelectionChange (Some 20) False False,
       Focus (ObjActor 5) (Some 10) False, SelectionChange (Some 10) True True])"
proof -
  have u: "GetUFocusable actors_selected (Some 10) = Some (ObjActor 5)"
    "GetUFocusable actors_selected (Some 20) = None"
    by (simp_all add: GetUFocusable_def actors_selected_fields scene_owner_def)
  have v: "GetUFocusable components_selected (Some 11) = Some (ObjComponent 11)"
    "GetUFocusable components_selected (Some 12) = None"
    by (simp_all add: GetUFocusable_def components_selected_fields)
  have a: "ShouldSelect (World actors_selected) (Some 5) (GetRootComponent (World actors_selected) 5) \<and>
    GetRootComponent (World actors_selected) 5 \<in> set (SelectedComponents actors_selected) \<and>
    bToggleSelectedInMultiSelection actors_selected \<and>
    distinct (SelectedComponents actors_selected) \<and>
    SelectedComponents (SelectActor (Some 5) True actors_selected) = [Some 20] \<and>
    Events (SelectActor (Some 5) True actors_selected) =
      Events actors_selected @
      [Unfocus (ObjActor 5) (Some 10) False, SelectionChange (Some 10) False True] \<and>
    SelectedComponents (SelectActor (Some 5) False actors_selected) = [Some 10] \<and>
    Events (SelectActor (Some 5) False actors_selected) =
      Events actors_selected @
      [Unfocus (ObjActor 5) (Some 10) False, SelectionChange (Some 10) False True,
       SelectionChange (Some 20) False False,
       Focus (ObjActor 5) (Some 10) False, SelectionChange (Some 10) True True]"
    using C4_reselecting_a_selected_object[of actors_selected 10 5]
    by (simp add: actors_selected_fields scene_root_def deselect_events_def select_events_def
        deselect_all_events_def u)
  have c: "ShouldSelect (World components_selected) (GetOwner (World components_selected) 11) (Some 11) \<and>
    Some 11 \<in> set (SelectedComponents components_selected) \<and>
    bToggleSelectedInMultiSelection components_selected \<and>
    distinct (SelectedComponents components_selected) \<and>
    SelectedComponents (SelectComponent (Some 11) True components_selected) = [Some 12] \<and>
    Events (SelectComponent (Some 11) True components_selected) =
      Events components_selected @
      [Unfocus (ObjComponent 11) (Some 11) True, SelectionChange (Some 11) False True] \<and>
    SelectedComponents (SelectComponent (Some 11) False components_selected) = [Some 11] \<and>
    Events (SelectComponent (Some 11) False components_selected) =
      Events components_selected @
      [Unfocus (ObjComponent 11) (Some 11) True, SelectionChange (Some 11) False True,
       SelectionChange (Some 12) False False,
       Focus (ObjComponent 11) (Some 11) True, SelectionChange (Some 11) True True]"
    using C4_reselecting_a_selected_object[of components_selected 11 5]
    by (simp add: components_selected_fields deselect_events_def select_events_def
        deselect_all_events_def v)
  from a c show ?thesis by blast
qed

section \<open>The selection as a set of references\<close>

lemma spec_select_components_cong:
  assumes "GetOwner w' = GetOwner w" and "ShouldSelect w' = ShouldSelect w"
  shows "spec_select_components w' t cs a S = spec_select_components w t cs a S"
  using assms
  by (induction w t cs a S rule: spec_select_components.induct) simp_all

lemma spec_select_actors_cong:
  assumes "GetRootComponent w' = GetRootComponent w" and "ShouldSelect w' = ShouldSelect w"
  shows "spec_select_actors w' t as a S = spec_select_actors w t as a S"
  using assms
  by (induction w t as a S rule: spec_select_actors.induct) simp_all

lemma spec_apply_cong:
  assumes "GetOwner w' = GetOwner w" and "GetRootComponent w' = GetRootComponent w"
    and "ShouldSelect w' = ShouldSelect w"
  shows "spec_apply w' t op S = spec_apply w t op S"
  using assms spec_select_components_cong[OF assms(1,3)] spec_select_actors_cong[OF assms(2,3)]
  by (cases op) (auto split: option.splits)

lemma represents_empty: "SelectedComponents s = [] \<Longrightarrow> represents s {}"
  by (simp add: represents_def)

lemma represents_UpdateGizmoPlacement:
  "represents (UpdateGizmoPlacement s) S = represents s S"
  by (simp add: represents_def UpdateGizmoPlacement_keeps)

lemma represents_add:
  assumes "represents s S"
  shows "represents (AddComponent_Internal C s)
           (spec_add (bToggleSelectedInMultiSelection s) C S)"
  using assms
  by (auto simp: represents_def AddComponent_Internal_eq spec_add_def)

lemma represents_DeselectAll: "represents (fst (DeselectAll b s)) {}"
  by (simp add: represents_def DeselectAll_sel)

lemma represents_DeselectComponent:
  assumes "represents s S"
  shows "represents (DeselectComponent C s) (case C of None \<Rightarrow> S | Some c \<Rightarrow> S - {Some c})"
proof (cases C)
  case None
  with assms show ?thesis by (simp add: DeselectComponent_def)
next
  case (Some c)
  from assms Some show ?thesis
    by (auto simp: represents_def DeselectComponent_sel)
qed

lemma frame_select_components_loop: "frame s (fst (select_components_loop cs app v s))"
proof (induction cs app v s rule: select_components_loop.induct)
  case (1 app v s)
  show ?case by (simp add: frame_refl)
next
  case (2 cs app v s)
  then show ?case by simp
next
  case (3 c cs app v s)
  show ?case
  proof (cases "ShouldSelect (World s) (GetOwner (World s) c) (Some c)")
    case False
    with 3 show ?thesis by simp
  next
    case True
    let ?s1 = "if \<not> app then fst (DeselectAll False s) else s"
    have "frame s ?s1" by (simp add: frame_refl frame_DeselectAll)
    from frame_trans[OF frame_trans[OF this frame_AddComponent_Internal] "3.IH"(2)[OF _ refl]] True
    show ?thesis by (simp add: Let_def)
  qed
qed

lemma SelectMultipleComponents_eq:
  "SelectMultipleComponents cs app s =
     (if snd (select_components_loop cs app False s)
      then UpdateGizmoPlacement (fst (select_components_loop cs app False s))
      else fst (select_components_loop cs app False s))"
  by (simp add: SelectMultipleComponents_def split: prod.splits)

lemma frame_SelectMultipleComponents: "frame s (SelectMultipleComponents cs app s)"
  using frame_select_components_loop[of s cs app False]
    frame_trans[OF frame_select_components_loop frame_UpdateGizmoPlacement, of s cs app False]
  by (simp add: SelectMultipleComponents_eq)

lemma represents_select_components_loop:
  assumes "represents s S"
  shows "represents (fst (select_components_loop cs app v s))
           (spec_select_components (World s) (bToggleSelectedInMultiSelection s) cs app S)"
  using assms
proof (induction cs app v s arbitrary: S rule: select_components_loop.induct)
  case (1 app v s)
  then show ?case by simp
next
  case (2 cs app v s)
  then show ?case by simp
next
  case (3 c cs app v s)
  show ?case
  proof (cases "ShouldSelect (World s) (GetOwner (World s) c) (Some c)")
    case False
    with 3 show ?thesis by simp
  next
    case True
    let ?s1 = "if \<not> app then fst (DeselectAll False s) else s"
    let ?s2 = "AddComponent_Internal (Some c) ?s1"
    have f1: "frame s ?s1" by (simp add: frame_refl frame_DeselectAll)
    have f2: "frame s ?s2" by (rule frame_trans[OF f1 frame_AddComponent_Internal])
    have r1: "represents ?s1 (if app then S else {})"
      using "3.prems" by (simp add: represents_DeselectAll)
    have r2: "represents ?s2
        (spec_add (bToggleSelectedInMultiSelection s) (Some c) (if app then S else {}))"
      using represents_add[OF r1, of "Some c"] frame_fields(6)[OF f1] by simp
    from "3.IH"(2)[OF _ refl r2] True
    have "represents (fst (select_components_loop cs True True ?s2))
        (spec_select_components (World ?s2) (bToggleSelectedInMultiSelection ?s2) cs True
           (spec_add (bToggleSelectedInMultiSelection s) (Some c) (if app then S else {})))"
      by simp
    moreover have "spec_select_components (World ?s2) t cs a T = spec_select_components (World s) t cs a T"
      for t a T
      by (rule spec_select_components_cong) (simp_all add: frame_fields[OF f2])
    ultimately show ?thesis
      using True frame_fields(6)[OF f2] by (simp add: Let_def)
  qed
qed

lemma represents_SelectMultipleComponents:
  assumes "represents s S"
  shows "represents (SelectMultipleComponents cs app s)
           (spec_select_components (World s) (bToggleSelectedInMultiSelection s) cs app S)"
  using represents_select_components_loop[OF assms, of cs app False]
  by (simp add: SelectMultipleComponents_eq represents_UpdateGizmoPlacement)

lemma SelectComponent_as_loop:
  "SelectComponent C app s = SelectMultipleComponents [C] app s"
proof (cases C)
  case None
  then show ?thesis
    by (simp add: SelectComponent_def SelectMultipleComponents_eq)
next
  case (Some c)
  then show ?thesis
    by (simp add: SelectComponent_eq SelectMultipleComponents_eq Let_def)
qed

lemma frame_select_actors_loop: "frame s (fst (select_actors_loop as app v s))"
proof (induction as app v s rule: select_actors_loop.induct)
  case (1 app v s)
  show ?case by (simp add: frame_refl)
next
  case (2 as app v s)
  then show ?case by simp
next
  case (3 a as app v s)
  show ?case
  proof (cases "ShouldSelect (World s) (Some a) (GetRootComponent (World s) a)")
    case False
    with 3 show ?thesis by simp
  next
    case True
    let ?s1 = "if \<not> app then fst (DeselectAll False s) else s"
    have "frame s ?s1" by (simp add: frame_refl frame_DeselectAll)
    from frame_trans[OF frame_trans[OF this frame_AddComponent_Internal] "3.IH"(2)[OF _ refl]] True
    show ?thesis by (simp add: Let_def)
  qed
qed

lemma SelectMultipleActors_eq:
  "SelectMultipleActors as app s =
     (if snd (select_actors_loop as app False s)
      then UpdateGizmoPlacement (fst (select_actors_loop as app False s))
      else fst (select_actors_loop as app False s))"
  by (simp add: SelectMultipleActors_def split: prod.splits)

lemma frame_SelectMultipleActors: "frame s (SelectMultipleActors as app s)"
  using frame_select_actors_loop[of s as app False]
    frame_trans[OF frame_select_actors_loop frame_UpdateGizmoPlacement, of s as app False]
  by (simp add: SelectMultipleActors_eq)

lemma represents_select_actors_loop:
  assumes "represents s S"
  shows "represents (fst (select_actors_loop as app v s))
           (spec_select_actors (World s) (bToggleSelectedInMultiSelection s) as app S)"
  using assms
proof (induction as app v s arbitrary: S rule: select_actors_loop.induct)
  case (1 app v s)
  then show ?case by simp
next
  case (2 as app v s)
  then show ?case by simp
next
  case (3 a as app v s)
  let ?r = "GetRootComponent (World s) a"
  show ?case
  proof (cases "ShouldSelect (World s) (Some a) ?r")
    case False
    with 3 show ?thesis by simp
  next
    case True
    let ?s1 = "if \<not> app then fst (DeselectAll False s) else s"
    let ?s2 = "AddComponent_Internal ?r ?s1"
    have f1: "frame s ?s1" by (simp add: frame_refl frame_DeselectAll)
    have f2: "frame s ?s2" by (rule frame_trans[OF f1 frame_AddComponent_Internal])
    have r1: "represents ?s1 (if app then S else {})"
      using "3.prems" by (simp add: represents_DeselectAll)
    have r2: "represents ?s2
        (spec_add (bToggleSelectedInMultiSelection s) ?r (if app then S else {}))"
      using represents_add[OF r1, of ?r] frame_fields(6)[OF f1] by simp
    have root1: "GetRootComponent (World ?s1) a = ?r"
      using frame_fields(18)[OF f1] by simp
    have eq2: "AddComponent_Internal (GetRootComponent (World ?s1) a) ?s1 = ?s2"
      using root1 by simp
    have nn: "\<not> \<not> ShouldSelect (World s) (Some a) (GetRootComponent (World s) a)"
      using True by simp
    have "represents (fst (select_actors_loop as True True ?s2))
        (spec_select_actors (World ?s2) (bToggleSelectedInMultiSelection ?s2) as True
           (spec_add (bToggleSelectedInMultiSelection s) ?r (if app then S else {})))"
      by (rule "3.IH"(2)[OF nn refl, unfolded eq2, OF r2])
    moreover have "spec_select_actors (World ?s2) t as a' T = spec_select_actors (World s) t as a' T"
      for t a' T
      by (rule spec_select_actors_cong) (simp_all add: frame_fields[OF f2])
    ultimately show ?thesis
      using True root1 frame_fields(6)[OF f2] by (simp add: Let_def)
  qed
qed

lemma SelectActor_as_loop:
  "SelectActor A app s = SelectMultipleActors [A] app s"
proof (cases A)
  case None
  then show ?thesis
    by (simp add: SelectActor_def SelectMultipleActors_eq)
next
  case (Some a)
  then show ?thesis
    by (simp add: SelectActor_eq SelectMultipleActors_eq Let_def
        frame_fields(18)[OF frame_DeselectAll])
qed

lemma frame_DeselectActor: "frame s (DeselectActor A s)"
  by (cases A) (simp_all add: DeselectActor_def frame_refl frame_DeselectComponent)

lemma frame_apply_op: "frame s (apply_op op s)"
  by (cases op)
    (simp_all add: frame_SelectComponent frame_SelectActor frame_SelectMultipleComponents
      frame_SelectMultipleActors frame_DeselectComponent frame_DeselectActor
      frame_DeselectAll_any)

lemma represents_apply_op:
  assumes "represents s S"
  shows "represents (apply_op op s)
           (spec_apply (World s) (bToggleSelectedInMultiSelection s) op S)"
proof (cases op)
  case (OpSelectComponent C app)
  then show ?thesis
    using represents_SelectMultipleComponents[OF assms(1), of "[C]" app]
    by (simp add: SelectComponent_as_loop)
next
  case (OpSelectActor A app)
  then show ?thesis
    using represents_select_actors_loop[OF assms(1), of "[A]" app False]
    by (simp add: SelectActor_as_loop SelectMultipleActors_eq represents_UpdateGizmoPlacement)
next
  case (OpSelectMultipleComponents Cs app)
  then show ?thesis
    using represents_SelectMultipleComponents[OF assms(1), of Cs app] by simp
next
  case (OpSelectMultipleActors As app)
  then show ?thesis
    using represents_select_actors_loop[OF assms(1), of As app False]
    by (simp add: SelectMultipleActors_eq represents_UpdateGizmoPlacement)
next
  case (OpDeselectComponent C)
  then show ?thesis
    using represents_DeselectComponent[OF assms(1), of C] by simp
next
  case (OpDeselectActor A)
  show ?thesis
  proof (cases A)
    case None
    with OpDeselectActor assms(1) show ?thesis by (simp add: DeselectActor_def)
  next
    case (Some a)
    with OpDeselectActor show ?thesis
      using represents_DeselectComponent[OF assms(1), of "GetRootComponent (World s) a"]
      by (simp add: DeselectActor_def split: option.splits)
  qed
next
  case (OpDeselectAll b)
  then show ?thesis by (simp add: represents_DeselectAll)
qed

lemma UpdateGizmoPlacement_world_keeps:
  "ActorPendingKill (World (UpdateGizmoPlacement s)) = ActorPendingKill (World s)"
  "CompPendingKill (World (UpdateGizmoPlacement s)) = CompPendingKill (World s)"
  by (simp_all add: UpdateGizmoPlacement_def SetGizmo_def SpawnGizmo_def gizmo_do_def Let_def
      split: option.splits)

lemma represents_run_ops:
  assumes "represents s S"
  shows "represents (run_ops ops s)
           (spec_run (World s) (bToggleSelectedInMultiSelection s) ops S)"
  using assms
proof (induction ops arbitrary: s S)
  case Nil
  then show ?case by (simp add: run_ops_def spec_run_def)
next
  case (Cons op ops)
  let ?s1 = "apply_op op s"
  let ?S1 = "spec_apply (World s) (bToggleSelectedInMultiSelection s) op S"
  have f: "frame s ?s1" by (rule frame_apply_op)
  have r1: "represents ?s1 ?S1"
    by (rule represents_apply_op[OF Cons.prems(1)])
  have c: "spec_apply (World ?s1) t = spec_apply (World s) t" for t
    by (intro ext spec_apply_cong) (simp_all add: frame_fields[OF f])
  from Cons.IH[OF r1] show ?case
    by (simp add: run_ops_def spec_run_def c frame_fields(6)[OF f])
qed

text \<open>
  C3, as the claim states it, fails: the selection keeps the entry of an object that
  has become invalid. With actors 5 and 6 selected and actor 6 destroyed by the game,
  deselecting actor 5 leaves a selection of length one, whose only entry is the root
  component of the destroyed actor: of the objects added and not removed, none is valid.
\<close>

theorem C3_counterexample_invalid_object_stays_selected:
  "SelectedComponents actor6_destroyed = [Some 10, Some 20] \<and>
   SelectedComponents (DeselectActor (Some 5) actor6_destroyed) = [Some 20] \<and>
   \<not> IsValid (World (DeselectActor (Some 5) actor6_destroyed)) 20 \<and>
   length (SelectedComponents (DeselectActor (Some 5) actor6_destroyed)) \<noteq>
     card {c \<in> {10, 20} - {10}. IsValid (World (DeselectActor (Some 5) actor6_destroyed)) c}"
proof -
  let ?s = "actor6_destroyed"
  let ?s' = "DeselectActor (Some 5) ?s"
  have sel: "SelectedComponents ?s = [Some 10, Some 20]"
    by (simp add: actor6_destroyed_def actors_selected_fields)
  have root: "GetRootComponent (World ?s) 5 = Some 10"
    by (simp add: actor6_destroyed_def DestroyActor_def actors_selected_fields scene_root_def)
  have eq: "?s' = UpdateGizmoPlacement (DeselectComponent_Internal (Some 10) ?s)"
    using root by (simp add: DeselectActor_def DeselectComponent_def)
  have sel': "SelectedComponents ?s' = [Some 20]"
    using sel by (simp add: eq UpdateGizmoPlacement_keeps DeselectComponent_Internal_eq)
  have own: "GetOwner (World ?s') 20 = Some 6"
    using frame_fields(17)[OF frame_DeselectActor, of "Some 5" ?s]
    by (simp add: actor6_destroyed_def DestroyActor_def actors_selected_fields scene_owner_def)
  have pk0: "ActorPendingKill (World ?s) 6"
    by (simp add: actor6_destroyed_def DestroyActor_def)
  have pk: "ActorPendingKill (World ?s') 6"
    using pk0 by (simp add: eq UpdateGizmoPlacement_world_keeps DeselectComponent_Internal_eq)
  have inv: "\<not> IsValid (World ?s') 20"
    using own pk by (simp add: IsValid_def)
  have "{c \<in> {10, 20} - {10}. IsValid (World ?s') c} = {}"
    using inv by auto
  then have "card {c \<in> {10, 20} - {10}. IsValid (World ?s') c} = 0"
    by (simp only: card.empty)
  with sel sel' inv show ?thesis by (simp only: list.size) simp
qed

text \<open>
  C3, amended. Along every run of select and deselect operations the selection has no
  entry twice: adding a reference that is present never creates a second entry. Its
  entries are the references of the set the specification describes, and its length is
  the number of those references: of the distinct references added and not removed
  since, whether or not the objects they name are still valid.
\<close>

theorem C3_amended_selection_is_a_set:
  assumes "distinct (SelectedComponents s)"
  shows "distinct (SelectedComponents (run_ops ops s)) \<and>
         set (SelectedComponents (run_ops ops s)) =
           spec_run (World s) (bToggleSelectedInMultiSelection s) ops
             (set (SelectedComponents s)) \<and>
         length (SelectedComponents (run_ops ops s)) =
           card (spec_run (World s) (bToggleSelectedInMultiSelection s) ops
                   (set (SelectedComponents s)))"
proof -
  let ?xs = "SelectedComponents (run_ops ops s)"
  let ?T = "spec_run (World s) (bToggleSelectedInMultiSelection s) ops
              (set (SelectedComponents s))"
  have "represents s (set (SelectedComponents s))"
    using assms by (simp add: represents_def)
  from represents_run_ops[OF this, of ops] have r: "distinct ?xs" "set ?xs = ?T"
    by (simp_all add: represents_def)
  have "length ?xs = card (set ?xs)"
    using r(1) by (simp add: distinct_card)
  with r show ?thesis by simp
qed

theorem C3_amended_witness:
  "distinct (SelectedComponents (Constructor scene)) \<and>
   spec_run (World (Constructor scene))
     (bToggleSelectedInMultiSelection (Constructor scene)) example_ops
     (set (SelectedComponents (Constructor scene))) = {Some 12, None} \<and>
   distinct (SelectedComponents (run_ops example_ops (Constructor scene))) \<and>
   set (SelectedComponents (run_ops example_ops (Constructor scene))) = {Some 12, None} \<and>
   length (SelectedComponents (run_ops example_ops (Constructor scene))) = 2"
proof -
  have h1: "distinct (SelectedComponents (Constructor scene))"
    by (simp add: Constructor_fields)
  have sp: "spec_run (World (Constructor scene))
     (bToggleSelectedInMultiSelection (Constructor scene)) example_ops
     (set (SelectedComponents (Constructor scene))) = {Some 12, None}"
    by (auto simp: example_ops_def spec_run_def spec_add_def Constructor_fields scene_fields
        scene_root_def)
  have "card {Some (12 :: comp), None} = 2"
    by simp
  with C3_amended_selection_is_a_set[OF h1, of example_ops] h1 sp show ?thesis
    by simp
qed

text \<open>
  The null reference is counted: \<^verbatim>\<open>SelectActor\<close> tests the actor, not its root
  component, and an actor without a root component adds a null entry; a second such
  actor then toggles that entry off.
\<close>

lemma SelectActor_rootless_adds_null:
  "GetRootComponent (World (Constructor scene)) 7 = None \<and>
   SelectedComponents (SelectActor (Some 7) True (Constructor scene)) = [None] \<and>
   SelectedComponents
     (SelectActor (Some 8) True (SelectActor (Some 7) True (Constructor scene))) = []"
proof -
  let ?s0 = "Constructor scene"
  let ?s1 = "SelectActor (Some 7) True ?s0"
  have f1: "frame ?s0 ?s1" by (rule frame_SelectActor)
  have r7: "GetRootComponent (World ?s0) 7 = None"
    by (simp add: Constructor_fields scene_fields scene_root_def)
  have sel1: "SelectedComponents ?s1 = [None]"
    by (simp add: SelectActor_eq Constructor_fields scene_fields scene_root_def
        UpdateGizmoPlacement_keeps AddComponent_Internal_eq)
  have r8: "GetRootComponent (World ?s1) 8 = None"
    and ss: "ShouldSelect (World ?s1) (Some 8) None"
    and t1: "bToggleSelectedInMultiSelection ?s1"
    by (simp_all add: frame_fields[OF f1] Constructor_fields scene_fields scene_root_def)
  have s2: "SelectActor (Some 8) True ?s1 = UpdateGizmoPlacement (AddComponent_Internal None ?s1)"
    using SelectActor_eq[of 8 True ?s1] r8 ss by simp
  have "SelectedComponents (SelectActor (Some 8) True ?s1) = []"
    using select_entry_append(1)[OF s2] sel1 t1 by simp
  with r7 sel1 show ?thesis by simp
qed

section \<open>Traces and the deselect-all\<close>

lemma frame_filter_hits_loop: "frame s (fst (filter_hits_loop hs s))"
proof (induction hs s rule: filter_hits_loop.induct)
  case (1 s)
  show ?case by (simp add: frame_refl)
next
  case (2 h hs s)
  let ?c = "(case HitActor h of
                 None \<Rightarrow> False
               | Some a \<Rightarrow>
                   ActorSupportedForNetworking (World s) a \<and>
                   (if bComponentBased s
                    then (case HitComponent h of
                            None \<Rightarrow> False
                          | Some c \<Rightarrow> CompSupportedForNetworking (World s) c)
                    else True))"
  let ?s1 = "(if HitActor h \<noteq> None \<and> HitComponent h \<noteq> None
           then UE_LOG WarningLevel
                  ''Removing (Actor: %s   ComponentHit:  %s) from hits because it is not supported for networking.'' s
           else s)"
  have f: "frame s ?s1" by (simp add: frame_refl frame_UE_LOG)
  show ?case
  proof (cases "hit_is_gizmo (World s) h")
    case True
    with "2.IH"(1) show ?thesis by (simp add: split_def Let_def)
  next
    case False
    show ?thesis
    proof (cases ?c)
      case True
      with False "2.IH"(2) show ?thesis by (simp add: split_def Let_def)
    next
      case c: False
      have "fst (filter_hits_loop (h # hs) s) = fst (filter_hits_loop hs ?s1)"
        using False c by (simp del: not_None_eq)
      with frame_trans[OF f "2.IH"(3)[OF False c]] show ?thesis
        by (simp del: not_None_eq)
    qed
  qed
qed

lemma frame_FilterHits: "frame s (fst (FilterHits hs s))"
  by (simp add: FilterHits_def frame_refl frame_filter_hits_loop)

lemma frame_find_gizmo_domain: "frame s (fst (find_gizmo_domain g hs s))"
proof (induction g hs s rule: find_gizmo_domain.induct)
  case (1 g s)
  show ?case by (simp add: frame_refl)
next
  case (2 g h hs s)
  show ?case
  proof (cases "HitActor h = Some g")
    case False
    with 2 show ?thesis by simp
  next
    case True
    show ?thesis
    proof (cases "HitComponent h")
      case None
      with True 2 show ?thesis by simp
    next
      case (Some c)
      let ?s1 = "SetDomain (GetTransformationDomain (World s) c) s"
      have f1: "frame s ?s1" by (rule frame_SetDomain)
      show ?thesis
      proof (cases "CurrentDomain ?s1 \<noteq> TD_None")
        case True
        with \<open>HitActor h = Some g\<close> Some frame_trans[OF f1 frame_gizmo_do] show ?thesis
          by (simp add: Let_def)
      next
        case False
        with \<open>HitActor h = Some g\<close> Some frame_trans[OF f1 "2.IH"(2)[OF \<open>HitActor h = Some g\<close> Some refl]]
        show ?thesis
          by (simp add: Let_def)
      qed
    qed
  qed
qed

lemma frame_select_first_hit: "frame s (fst (select_first_hit hs app s))"
  by (induction hs app s rule: select_first_hit.induct)
    (simp_all add: frame_refl frame_SelectComponent frame_SelectActor)

lemma frame_HandleTracedObjects: "frame s (fst (HandleTracedObjects hs app s))"
proof -
  let ?s1 = "ClearDomain s"
  let ?r = "(case Gizmo ?s1 of None \<Rightarrow> (?s1, False) | Some g \<Rightarrow> find_gizmo_domain g hs ?s1)"
  have f1: "frame s ?s1" by (rule frame_ClearDomain)
  have f2: "frame s (fst ?r)"
    using f1 frame_trans[OF f1 frame_find_gizmo_domain] by (simp split: option.splits)
  have "fst (HandleTracedObjects hs app s) =
      (if snd ?r then fst ?r else fst (select_first_hit hs app (fst ?r)))"
    by (simp add: HandleTracedObjects_def Let_def split_def)
  with f2 frame_trans[OF f2 frame_select_first_hit] show ?thesis by simp
qed

lemma frame_TraceByObjectTypes: "frame s (fst (TraceByObjectTypes lt app s))"
proof -
  let ?p = "FilterHits (snd lt) s"
  have "frame s (fst (HandleTracedObjects (snd ?p) app (fst ?p)))"
    by (rule frame_trans[OF frame_FilterHits frame_HandleTracedObjects])
  then show ?thesis
    by (simp add: TraceByObjectTypes_def frame_refl split_def Let_def)
qed

lemma TraceByObjectTypes_no_hits:
  "\<not> snd (TraceByObjectTypes (b, []) app s)"
  by (simp add: TraceByObjectTypes_def FilterHits_def HandleTracedObjects_def Let_def
      split: option.splits)

lemma SetDomain_keeps:
  "SelectedComponents (SetDomain d s) = SelectedComponents s"
  "CurrentDomain (SetDomain d s) = d"
  by (simp_all add: SetDomain_def gizmo_do_def Let_def split: option.splits)

lemma select_components_loop_Nil_sel:
  "SelectedComponents (SelectMultipleComponents [] app s) = SelectedComponents s"
  by (simp add: SelectMultipleComponents_eq)

lemma MulticastSetSelectedComponents_sel:
  "SelectedComponents (MulticastSetSelectedComponents_Implementation cs s) =
     SelectedComponents (SelectMultipleComponents cs True
        (fst (DeselectAll False
           (if role_rank (OwnerRole (World s)) < role_rank ROLE_Authority
            then UE_LOG LogLevel ''MulticastSelect ComponentCount: %d'' s else s))))"
  by (simp add: MulticastSetSelectedComponents_Implementation_def Let_def UE_LOG_def)

lemma TraceByChannel_eq: "TraceByChannel = TraceByObjectTypes"
  by (intro ext) (simp add: TraceByChannel_def TraceByObjectTypes_def)

lemma TraceByProfile_eq: "TraceByProfile = TraceByObjectTypes"
  by (intro ext) (simp add: TraceByProfile_def TraceByObjectTypes_def)

lemma TraceByObjectTypes_query_failed: "TraceByObjectTypes (False, hs) app s = (s, False)"
  by (simp add: TraceByObjectTypes_def)

lemma actors_selected_owner:
  "OwnerRole (World actors_selected) = ROLE_Authority"
  "TransformerOwner (World actors_selected) = Some (PlayerController True)"
proof -
  have f: "frame (Constructor scene) actors_selected"
    unfolding actors_selected_def by (rule frame_trans[OF frame_SelectActor frame_SelectActor])
  show "OwnerRole (World actors_selected) = ROLE_Authority"
    using frame_fields(16)[OF f] by (simp add: Constructor_fields scene_fields)
  show "TransformerOwner (World actors_selected) = Some (PlayerController True)"
    using frame_owner[OF f] by (simp add: Constructor_fields scene_def)
qed

text \<open>
  On the authority \<^verbatim>\<open>ReplicateServerTraceResults\<close> returns the state it was given: its
  caller tests \<^verbatim>\<open>GetOwnerRole() == ROLE_Authority\<close> and its body runs when the owner has
  no authority.
\<close>

lemma ReplicateServerTraceResults_on_authority:
  assumes "OwnerRole (World s) = ROLE_Authority" and "TransformerOwner (World s) = Some a"
  shows "ReplicateServerTraceResults bTraceSuccessful bAppendToList s = Some (Inr s)"
  using assms by (simp add: ReplicateServerTraceResults_def HasAuthority_def returns_def)

lemma ReplicatedMouseTraceByObjectTypes_on_authority:
  assumes "OwnerRole (World s) = ROLE_Authority" and "TransformerOwner (World s) = Some a"
  shows "ReplicatedMouseTraceByObjectTypes True LineTrace bAppendToList s =
           Some (Inr (fst (TraceByObjectTypes LineTrace bAppendToList s)))"
proof -
  let ?s1 = "fst (TraceByObjectTypes LineTrace bAppendToList s)"
  have f: "frame s ?s1" by (rule frame_TraceByObjectTypes)
  have r: "OwnerRole (World ?s1) = ROLE_Authority"
    using frame_fields(16)[OF f] assms(1) by simp
  have ow: "TransformerOwner (World ?s1) = Some a"
    using frame_owner[OF f] assms(2) by simp
  show ?thesis
    by (simp add: ReplicatedMouseTraceByObjectTypes_def split_def r
        ReplicateServerTraceResults_on_authority[OF r ow])
qed

text \<open>
  C5 fails on the authority, where a replicated mouse trace hands its result to
  \<^verbatim>\<open>ReplicateServerTraceResults\<close>. With actors 5 and 6 selected there, the mouse over the
  scene and a trace that returns no hits and does not append, each of the three
  replicated mouse traces returns the state it was given: the selection is not emptied
  and no call is sent to the other participants.
\<close>

theorem C5_replicated_mouse_trace_on_authority:
  "OwnerRole (World actors_selected) = ROLE_Authority \<and>
   SelectedComponents actors_selected = [Some 10, Some 20] \<and>
   TraceByObjectTypes (False, []) False actors_selected = (actors_selected, False) \<and>
   ReplicatedMouseTraceByObjectTypes True (False, []) False actors_selected =
     Some (Inr actors_selected) \<and>
   ReplicatedMouseTraceByChannel True (False, []) False actors_selected =
     Some (Inr actors_selected) \<and>
   ReplicatedMouseTraceByProfile True (False, []) False actors_selected =
     Some (Inr actors_selected)"
proof -
  have t: "TraceByObjectTypes (False, []) False actors_selected = (actors_selected, False)"
    by (rule TraceByObjectTypes_query_failed)
  have r: "ReplicateServerTraceResults False False actors_selected = Some (Inr actors_selected)"
    by (rule ReplicateServerTraceResults_on_authority[OF actors_selected_owner])
  have 1: "ReplicatedMouseTraceByObjectTypes True (False, []) False actors_selected =
     Some (Inr actors_selected)"
    by (simp add: ReplicatedMouseTraceByObjectTypes_def t actors_selected_owner(1) r)
  have 2: "ReplicatedMouseTraceByChannel True (False, []) False actors_selected =
     Some (Inr actors_selected)"
    by (simp add: ReplicatedMouseTraceByChannel_def TraceByChannel_eq t
        actors_selected_owner(1) r)
  have 3: "ReplicatedMouseTraceByProfile True (False, []) False actors_selected =
     Some (Inr actors_selected)"
    by (simp add: ReplicatedMouseTraceByProfile_def TraceByProfile_eq t
        actors_selected_owner(1) r)
  from t 1 2 3 show ?thesis
    by (simp add: actors_selected_owner(1) actors_selected_fields(1))
qed

text \<open>
  The other paths do what the claim says. For a trace that is unsuccessful and does not
  append, the server trace handler, when the owner is a player controller, leaves the
  authority's selection empty and sends the domain and the empty selection to all
  participants; away from the authority the replicated mouse trace by object types
  sends the deselect-all request, as the mouse trace does, and the authority relays it
  as a multicast; a participant \<open>p\<close> that runs these calls has an empty selection.
\<close>

lemma server_trace_handler_deselects_all:
  assumes "\<not> snd (TraceByObjectTypes LineTrace False s)"
    and "GetPlayerController (World s) = Some bIsLocalController"
  shows "\<exists>s'. ServerTraceByObjectTypes_Implementation LineTrace False s = Some (Inr s') \<and>
           SelectedComponents s' = [] \<and>
           Sent s' = Sent s @
             [MulticastSetDomain (CurrentDomain s'), MulticastSetSelectedComponents []]"
proof -
  let ?s1 = "fst (TraceByObjectTypes LineTrace False s)"
  let ?s2 = "fst (DeselectAll False ?s1)"
  let ?s' = "call_rpc (MulticastSetSelectedComponents (SelectedComponents ?s2))
        (call_rpc (MulticastSetDomain (CurrentDomain ?s2)) ?s2)"
  have f1: "frame s ?s1" by (rule frame_TraceByObjectTypes)
  have f2: "frame s ?s2" by (rule frame_trans[OF f1 frame_DeselectAll])
  have e: "ServerTraceByObjectTypes_Implementation LineTrace False s = Some (Inr ?s')"
    using assms
    by (simp add: ServerTraceByObjectTypes_Implementation_def GetIgnoredActorsForServerTrace_def
        bind_outcome_def returns_def split_def Let_def call_rpc_def)
  have 1: "SelectedComponents ?s' = []"
    by (simp add: call_rpc_def DeselectAll_sel)
  have 2: "Sent ?s' = Sent s @
      [MulticastSetDomain (CurrentDomain ?s'), MulticastSetSelectedComponents []]"
    by (simp add: call_rpc_def DeselectAll_sel frame_fields(1)[OF f2])
  from e 1 2 show ?thesis by blast
qed

lemma server_trace_handler_without_controller:
  assumes "GetPlayerController (World s) = None"
  shows "ServerTraceByObjectTypes_Implementation LineTrace bAppendToList s =
           Some (Inl NullDereference)"
    and "ServerTraceByChannel_Implementation LineTrace bAppendToList s =
           Some (Inl NullDereference)"
    and "ServerTraceByProfile_Implementation LineTrace bAppendToList s =
           Some (Inl NullDereference)"
  using assms
  by (simp_all add: ServerTraceByObjectTypes_Implementation_def
      ServerTraceByChannel_Implementation_def ServerTraceByProfile_Implementation_def
      GetIgnoredActorsForServerTrace_def bind_outcome_def)

lemma client_mouse_trace_requests_deselect_all:
  assumes "\<not> snd (TraceByObjectTypes LineTrace False s)"
  shows "Sent (fst (MouseTraceByObjectTypes True LineTrace False s)) =
           Sent s @ [ServerDeselectAll False]"
    and "OwnerRole (World s) \<noteq> ROLE_Authority \<Longrightarrow>
         \<exists>s'. ReplicatedMouseTraceByObjectTypes True LineTrace False s = Some (Inr s') \<and>
              Sent s' = Sent s @ [ServerDeselectAll False]"
proof -
  let ?s1 = "fst (TraceByObjectTypes LineTrace False s)"
  have f1: "frame s ?s1" by (rule frame_TraceByObjectTypes)
  show "Sent (fst (MouseTraceByObjectTypes True LineTrace False s)) =
           Sent s @ [ServerDeselectAll False]"
    using assms
    by (simp add: MouseTraceByObjectTypes_def split_def Let_def call_rpc_def frame_fields(1)[OF f1])
  assume "OwnerRole (World s) \<noteq> ROLE_Authority"
  then have r: "OwnerRole (World ?s1) \<noteq> ROLE_Authority"
    using frame_fields(16)[OF f1] by simp
  have "ReplicatedMouseTraceByObjectTypes True LineTrace False s =
      Some (Inr (call_rpc (ServerDeselectAll False) ?s1))"
    using assms r
    by (simp add: ReplicatedMouseTraceByObjectTypes_def split_def returns_def)
  then show "\<exists>s'. ReplicatedMouseTraceByObjectTypes True LineTrace False s = Some (Inr s') \<and>
              Sent s' = Sent s @ [ServerDeselectAll False]"
    by (simp add: call_rpc_def frame_fields(1)[OF f1])
qed

text \<open>
  On the input of the failing case the server trace handler empties the selection and
  sends the domain and the empty selection.
\<close>

lemma server_trace_handler_on_actors_selected:
  "\<exists>s'. ServerTraceByObjectTypes_Implementation (False, []) False actors_selected =
          Some (Inr s') \<and>
        SelectedComponents s' = [] \<and>
        Sent s' = [MulticastSetDomain (CurrentDomain s'), MulticastSetSelectedComponents []]"
proof -
  have h: "\<not> snd (TraceByObjectTypes (False, []) False actors_selected)"
    by (simp add: TraceByObjectTypes_query_failed)
  have pc: "GetPlayerController (World actors_selected) = Some True"
    by (simp add: GetPlayerController_def actors_selected_owner(2))
  have "frame (Constructor scene) actors_selected"
    unfolding actors_selected_def by (rule frame_trans[OF frame_SelectActor frame_SelectActor])
  from frame_fields(1)[OF this] have s0: "Sent actors_selected = []"
    by (simp add: Constructor_fields)
  from server_trace_handler_deselects_all[OF h pc] s0 show ?thesis
    by simp
qed

lemma multicasts_empty_the_selection:
  "SelectedComponents
     (deliver_multicasts [MulticastSetDomain d, MulticastSetSelectedComponents []] p) = []"
  "Sent (ServerDeselectAll_Implementation False a) = Sent a @ [MulticastDeselectAll False]"
  "SelectedComponents (deliver_multicasts [MulticastDeselectAll False] p) = []"
  by (simp_all add: deliver_multicasts_def MulticastSetSelectedComponents_sel
      select_components_loop_Nil_sel DeselectAll_sel ServerDeselectAll_Implementation_def
      call_rpc_def MulticastDeselectAll_Implementation_def)

section \<open>The resync poll\<close>

lemma select_components_loop_resolved:
  assumes "distinct (SelectedComponents s @ filter (\<lambda>c. c \<noteq> None) cs)"
    and "\<And>c. Some c \<in> set cs \<Longrightarrow> ShouldSelect (World s) (GetOwner (World s) c) (Some c)"
  shows "SelectedComponents (fst (select_components_loop cs True v s)) =
           SelectedComponents s @ filter (\<lambda>c. c \<noteq> None) cs"
  using assms
proof (induction cs arbitrary: s v)
  case Nil
  then show ?case by simp
next
  case (Cons x cs)
  show ?case
  proof (cases x)
    case None
    with Cons show ?thesis by simp
  next
    case (Some c)
    let ?s1 = "AddComponent_Internal (Some c) s"
    have acc: "ShouldSelect (World s) (GetOwner (World s) c) (Some c)"
      using Cons.prems(2)[of c] Some by simp
    have notin: "Some c \<notin> set (SelectedComponents s)"
      using Cons.prems(1) Some by auto
    have sel1: "SelectedComponents ?s1 = SelectedComponents s @ [Some c]"
      using notin by (simp add: AddComponent_Internal_eq)
    have f: "frame s ?s1" by (rule frame_AddComponent_Internal)
    have d1: "distinct (SelectedComponents ?s1 @ filter (\<lambda>c. c \<noteq> None) cs)"
      using Cons.prems(1) Some sel1 by simp
    have a1: "\<And>c. Some c \<in> set cs \<Longrightarrow>
        ShouldSelect (World ?s1) (GetOwner (World ?s1) c) (Some c)"
      using Cons.prems(2) by (simp add: frame_fields[OF f])
    from Cons.IH[OF d1 a1, of True] acc Some sel1 show ?thesis
      by (simp add: Let_def)
  qed
qed

lemma Multicast_frame_core:
  "frame s (SelectMultipleComponents cs True
     (fst (DeselectAll False
        (if role_rank (OwnerRole (World s)) < role_rank ROLE_Authority
         then UE_LOG LogLevel ''MulticastSelect ComponentCount: %d'' s else s))))"
proof -
  let ?s0 = "(if role_rank (OwnerRole (World s)) < role_rank ROLE_Authority
         then UE_LOG LogLevel ''MulticastSelect ComponentCount: %d'' s else s)"
  have "frame s ?s0" by (simp add: frame_refl frame_UE_LOG)
  from frame_trans[OF frame_trans[OF this frame_DeselectAll] frame_SelectMultipleComponents]
  show ?thesis .
qed

lemma Multicast_fields:
  "bResyncSelection (MulticastSetSelectedComponents_Implementation cs s) =
     (length cs \<noteq> length (SelectedComponents (MulticastSetSelectedComponents_Implementation cs s)))"
  "ResyncSelectionTimerHandle (MulticastSetSelectedComponents_Implementation cs s) =
     (if bResyncSelection (MulticastSetSelectedComponents_Implementation cs s) \<and>
         HasWorld (World s) \<and> ResyncSelectionTimerHandle s = None
      then Some ResyncSelectionTimer else ResyncSelectionTimerHandle s)"
  "Sent (MulticastSetSelectedComponents_Implementation cs s) = Sent s"
  "HasWorld (World (MulticastSetSelectedComponents_Implementation cs s)) = HasWorld (World s)"
  "GetOwner (World (MulticastSetSelectedComponents_Implementation cs s)) = GetOwner (World s)"
  "ShouldSelect (World (MulticastSetSelectedComponents_Implementation cs s)) =
     ShouldSelect (World s)"
  using frame_fields[OF Multicast_frame_core[of s cs]]
  by (simp_all add: MulticastSetSelectedComponents_Implementation_def Let_def UE_LOG_def)

lemma Multicast_resolved:
  assumes "distinct (filter (\<lambda>c. c \<noteq> None) cs)"
    and "\<And>c. Some c \<in> set cs \<Longrightarrow> ShouldSelect (World s) (GetOwner (World s) c) (Some c)"
  shows "SelectedComponents (MulticastSetSelectedComponents_Implementation cs s) =
           filter (\<lambda>c. c \<noteq> None) cs"
proof -
  let ?s0 = "(if role_rank (OwnerRole (World s)) < role_rank ROLE_Authority
         then UE_LOG LogLevel ''MulticastSelect ComponentCount: %d'' s else s)"
  let ?s1 = "fst (DeselectAll False ?s0)"
  have f: "frame s ?s1"
    by (rule frame_trans[OF _ frame_DeselectAll]) (simp add: frame_refl frame_UE_LOG)
  have d: "distinct (SelectedComponents ?s1 @ filter (\<lambda>c. c \<noteq> None) cs)"
    using assms(1) by (simp add: DeselectAll_sel)
  have w: "GetOwner (World ?s1) = GetOwner (World s)"
    "ShouldSelect (World ?s1) = ShouldSelect (World s)"
    by (rule frame_fields(17)[OF f], rule frame_fields(22)[OF f])
  have a: "\<And>c. Some c \<in> set cs \<Longrightarrow>
      ShouldSelect (World ?s1) (GetOwner (World ?s1) c) (Some c)"
    unfolding w by (rule assms(2))
  from select_components_loop_resolved[OF d a, of False] show ?thesis
    by (simp add: MulticastSetSelectedComponents_sel SelectMultipleComponents_eq
        UpdateGizmoPlacement_keeps DeselectAll_sel)
qed

lemma ResyncSelection_fields:
  "Sent (ResyncSelection s) =
     (if bResyncSelection s then Sent s @ [ServerSyncSelectedComponents] else Sent s)"
  "ResyncSelectionTimerHandle (ResyncSelection s) =
     (if bResyncSelection s then ResyncSelectionTimerHandle s else None)"
  "bResyncSelection (ResyncSelection s) = bResyncSelection s"
  "HasWorld (World (ResyncSelection s)) = HasWorld (World s)"
  "SelectedComponents (ResyncSelection s) = SelectedComponents s"
  "World (ResyncSelection s) = World s"
  by (simp_all add: ResyncSelection_def call_rpc_def UE_LOG_def)

lemma proxy_poll_running:
  assumes "HasWorld (World s)"
    and "bResyncSelection s \<longrightarrow> ResyncSelectionTimerHandle s \<noteq> None"
  shows "HasWorld (World (proxy_run evs s)) \<and>
         (bResyncSelection (proxy_run evs s) \<longrightarrow>
            ResyncSelectionTimerHandle (proxy_run evs s) \<noteq> None)"
  using assms
proof (induction evs arbitrary: s)
  case Nil
  then show ?case by (simp add: proxy_run_def)
next
  case (Cons ev evs)
  have "HasWorld (World (proxy_step ev s)) \<and>
        (bResyncSelection (proxy_step ev s) \<longrightarrow>
           ResyncSelectionTimerHandle (proxy_step ev s) \<noteq> None)"
    using Cons.prems
    by (cases ev) (auto simp: Multicast_fields ResyncSelection_fields)
  with Cons.IH[of "proxy_step ev s"] show ?case
    by (simp add: proxy_run_def)
qed

text \<open>
  C2. A proxy that applies a selection broadcast sets its out-of-sync flag exactly when
  the number of references that came in differs from the number of components it has
  selected; the flag is clear when every reference is resolved, distinct and accepted.
  With the flag set, and no poll running, it starts a looping timer of a tenth of a
  second on \<^verbatim>\<open>ResyncSelection\<close>. That function, while the flag is set, sends the
  request for the authority's selection and keeps the timer; once a broadcast has
  cleared the flag, it sends nothing and clears the timer. The authority answers the
  request with a broadcast of its selection. Along every run of broadcasts and timer
  firings of a proxy in a world, the timer is running whenever the flag is set.
\<close>

theorem C2_resync_poll:
  "bResyncSelection (MulticastSetSelectedComponents_Implementation Components s) =
     (length Components \<noteq>
      length (SelectedComponents (MulticastSetSelectedComponents_Implementation Components s))) \<and>
   (distinct Components \<and> None \<notin> set Components \<and>
    (\<forall>c. Some c \<in> set Components \<longrightarrow>
           ShouldSelect (World s) (GetOwner (World s) c) (Some c)) \<longrightarrow>
      \<not> bResyncSelection (MulticastSetSelectedComponents_Implementation Components s)) \<and>
   ResyncSelectionTimerHandle (MulticastSetSelectedComponents_Implementation Components s) =
     (if bResyncSelection (MulticastSetSelectedComponents_Implementation Components s) \<and>
         HasWorld (World s) \<and> ResyncSelectionTimerHandle s = None
      then Some \<lparr>TimerFn = Fn_ResyncSelection, TimerRate = 1 / 10, TimerLoop = True,
                 TimerFirstDelay = 0\<rparr>
      else ResyncSelectionTimerHandle s) \<and>
   (bResyncSelection s \<longrightarrow>
      Sent (ResyncSelection s) = Sent s @ [ServerSyncSelectedComponents] \<and>
      ResyncSelectionTimerHandle (ResyncSelection s) = ResyncSelectionTimerHandle s) \<and>
   (\<not> bResyncSelection s \<longrightarrow>
      Sent (ResyncSelection s) = Sent s \<and>
      ResyncSelectionTimerHandle (ResyncSelection s) = None) \<and>
   Sent (ServerSyncSelectedComponents_Implementation a) =
     Sent a @ [MulticastSetSelectedComponents (SelectedComponents a)] \<and>
   (HasWorld w \<and> bResyncSelection (proxy_run evs (Constructor w)) \<longrightarrow>
      ResyncSelectionTimerHandle (proxy_run evs (Constructor w)) \<noteq> None)"
proof -
  have conv: "\<not> bResyncSelection (MulticastSetSelectedComponents_Implementation Components s)"
    if "distinct Components" "None \<notin> set Components"
      "\<forall>c. Some c \<in> set Components \<longrightarrow>
           ShouldSelect (World s) (GetOwner (World s) c) (Some c)"
  proof -
    have "c \<noteq> None" if "c \<in> set Components" for c
      using that \<open>None \<notin> set Components\<close> by metis
    then have all: "filter (\<lambda>c. c \<noteq> None) Components = Components"
      by (simp add: filter_id_conv del: not_None_eq)
    have "SelectedComponents (MulticastSetSelectedComponents_Implementation Components s) =
        filter (\<lambda>c. c \<noteq> None) Components"
      using that by (intro Multicast_resolved) (simp_all add: all del: not_None_eq)
    then have "SelectedComponents (MulticastSetSelectedComponents_Implementation Components s) =
        Components"
      by (simp only: all)
    then show ?thesis
      by (simp add: Multicast_fields(1))
  qed
  have run: "ResyncSelectionTimerHandle (proxy_run evs (Constructor w)) \<noteq> None"
    if "HasWorld w" "bResyncSelection (proxy_run evs (Constructor w))"
    using proxy_poll_running[of "Constructor w" evs] that
    by (simp add: Constructor_eq)
  show ?thesis
    using conv run
    by (simp add: Multicast_fields ResyncSelection_fields ResyncSelectionTimer_def
        ServerSyncSelectedComponents_Implementation_def call_rpc_def)
qed

theorem C2_witness:
  "bResyncSelection (proxy_run (take 1 resync_scenario) proxy_state) \<and>
   SelectedComponents (proxy_run (take 1 resync_scenario) proxy_state) = [Some 10, Some 20] \<and>
   ResyncSelectionTimerHandle (proxy_run (take 1 resync_scenario) proxy_state) =
     Some \<lparr>TimerFn = Fn_ResyncSelection, TimerRate = 1 / 10, TimerLoop = True,
           TimerFirstDelay = 0\<rparr> \<and>
   Sent (proxy_run (take 2 resync_scenario) proxy_state) = [ServerSyncSelectedComponents] \<and>
   \<not> bResyncSelection (proxy_run (take 3 resync_scenario) proxy_state) \<and>
   ResyncSelectionTimerHandle (proxy_run (take 3 resync_scenario) proxy_state) \<noteq> None \<and>
   Sent (proxy_run resync_scenario proxy_state) = [ServerSyncSelectedComponents] \<and>
   ResyncSelectionTimerHandle (proxy_run resync_scenario proxy_state) = None"
proof -
  let ?c1 = "[Some 10, Some 20, None]"
  let ?c3 = "[Some 10, Some 20, Some 11]"
  let ?s0 = "proxy_state"
  let ?s1 = "MulticastSetSelectedComponents_Implementation ?c1 ?s0"
  let ?s2 = "ResyncSelection ?s1"
  let ?s3 = "MulticastSetSelectedComponents_Implementation ?c3 ?s2"
  let ?s4 = "ResyncSelection ?s3"
  have w0: "HasWorld (World ?s0)" "ShouldSelect (World ?s0) = (\<lambda>a c. True)"
    "ResyncSelectionTimerHandle ?s0 = None" "Sent ?s0 = []"
    by (simp_all add: proxy_state_def Constructor_eq scene_def)
  have sel1: "SelectedComponents ?s1 = [Some 10, Some 20]"
    using Multicast_resolved[of ?c1 ?s0] w0 by simp
  note flag = C2_resync_poll[THEN conjunct1]
  note conv = C2_resync_poll[THEN conjunct2, THEN conjunct1]
  note handle = C2_resync_poll[THEN conjunct2, THEN conjunct2, THEN conjunct1]
  note poll = C2_resync_poll[THEN conjunct2, THEN conjunct2, THEN conjunct2, THEN conjunct1]
  note stop = C2_resync_poll[THEN conjunct2, THEN conjunct2, THEN conjunct2, THEN conjunct2,
      THEN conjunct1]
  have b1: "bResyncSelection ?s1"
    using flag[of ?c1 ?s0] sel1 by simp
  have h1: "ResyncSelectionTimerHandle ?s1 =
      Some \<lparr>TimerFn = Fn_ResyncSelection, TimerRate = 1 / 10, TimerLoop = True,
            TimerFirstDelay = 0\<rparr>"
    using handle[of ?c1 ?s0] b1 w0 by simp
  have sent1: "Sent ?s1 = []"
    using w0 by (simp add: Multicast_fields)
  have sent2: "Sent ?s2 = [ServerSyncSelectedComponents]"
    and h2: "ResyncSelectionTimerHandle ?s2 \<noteq> None"
    using poll[of ?s1] b1 sent1 h1 by simp_all
  have w2: "ShouldSelect (World ?s2) = (\<lambda>a c. True)" "HasWorld (World ?s2)"
    using w0 by (simp_all add: ResyncSelection_fields Multicast_fields)
  have b3: "\<not> bResyncSelection ?s3"
    using conv[of ?c3 ?s2] w2 by simp
  have h3: "ResyncSelectionTimerHandle ?s3 \<noteq> None"
    using handle[of ?c3 ?s2] b3 h2 by simp
  have sent3: "Sent ?s3 = [ServerSyncSelectedComponents]"
    using sent2 by (simp add: Multicast_fields)
  have sent4: "Sent ?s4 = [ServerSyncSelectedComponents]"
    and h4: "ResyncSelectionTimerHandle ?s4 = None"
    using stop[of ?s3] b3 sent3 by simp_all
  have r1: "proxy_run (take 1 resync_scenario) ?s0 = ?s1"
    by (simp add: resync_scenario_def proxy_run_def)
  have r2: "proxy_run (take 2 resync_scenario) ?s0 = ?s2"
    using h1 by (simp add: resync_scenario_def proxy_run_def take_Cons')
  have r3: "proxy_run (take 3 resync_scenario) ?s0 = ?s3"
    using h1 by (simp add: resync_scenario_def proxy_run_def take_Cons')
  have r4: "proxy_run resync_scenario ?s0 = ?s4"
    using h1 h3 by (simp add: resync_scenario_def proxy_run_def del: not_None_eq)
  show ?thesis
    unfolding r1 r2 r3 r4
    using b1 sel1 h1 sent2 b3 h3 sent4 h4 by simp
qed

section \<open>Clone requests and the readiness poll\<close>

text \<open>
  C7. In component-based mode the server handler of a clone request returns the state
  it was given with one warning added to the log: the world has no new object, the
  selection and the pending clones are as before, no timer is started and nothing is
  sent.
\<close>

theorem C7_component_clone_rejected:
  assumes "bComponentBased s"
  shows "ServerCloneSelected_Implementation bSelectNewClones bAppendToList s =
           Some (Inr (s\<lparr>LogOutput := LogOutput s @
             [(WarningLevel,
               ''** Component Cloning is currently not supported in a Network Environment :( **'')]\<rparr>))"
  using assms by (simp add: ServerCloneSelected_Implementation_def returns_def UE_LOG_def)

theorem C7_witness:
  "bComponentBased components_selected \<and>
   ServerCloneSelected_Implementation True False components_selected =
     Some (Inr (components_selected\<lparr>LogOutput := LogOutput components_selected @
       [(WarningLevel,
         ''** Component Cloning is currently not supported in a Network Environment :( **'')]\<rparr>))"
  using C7_component_clone_rejected[of components_selected True False]
  by (simp add: components_selected_fields)

lemma RemoveAtSwap_length:
  "Index + Count \<le> length xs \<Longrightarrow> length (RemoveAtSwap Index Count xs) = length xs - Count"
  by (auto simp: RemoveAtSwap_def Let_def min_def)

lemma CheckUnreplicatedActors_fields:
  "Sent (CheckUnreplicatedActors t s) =
     (if UnreplicatedComponentClones (CheckUnreplicatedActors t s) = []
      then Sent s @ [MulticastSetSelectedComponents (SelectedComponents s)] else Sent s)"
  "CheckUnrepTimerHandle (CheckUnreplicatedActors t s) =
     (if UnreplicatedComponentClones (CheckUnreplicatedActors t s) = []
      then None else CheckUnrepTimerHandle s)"
  "UnreplicatedComponentClones (CheckUnreplicatedActors t s) =
     RemoveAtSwap 0 (length (filter (clone_ready s t) (UnreplicatedComponentClones s)))
       (UnreplicatedComponentClones s)"
  "World (CheckUnreplicatedActors t s) = World s"
  "SelectedComponents (CheckUnreplicatedActors t s) = SelectedComponents s"
  "MinimumCloneReplicationTime (CheckUnreplicatedActors t s) = MinimumCloneReplicationTime s"
  by (simp_all add: CheckUnreplicatedActors_def Let_def call_rpc_def UE_LOG_def)

text \<open>
  C1 fails on the code. \<^verbatim>\<open>CheckUnreplicatedActors\<close> counts the pending clones that are
  ready and removes that many entries from the front of the list, ready or not. With
  the pending clones 10 and 20, of which 10 has not begun play, the first poll removes
  10 and sends nothing; the second poll removes 20, stops the timer and multicasts the
  selection, which names the clone 10 that still has not begun play.
\<close>

theorem C1_broadcast_names_unready_clone:
  "UnreplicatedComponentClones clones_pending = [Some 10, Some 20] \<and>
   SelectedComponents clones_pending = [Some 10, Some 20] \<and>
   \<not> clone_ready clones_pending poll_time (Some 10) \<and>
   clone_ready clones_pending poll_time (Some 20) \<and>
   UnreplicatedComponentClones (CheckUnreplicatedActors poll_time clones_pending) = [Some 20] \<and>
   Sent (CheckUnreplicatedActors poll_time clones_pending) = [] \<and>
   CheckUnrepTimerHandle (CheckUnreplicatedActors poll_time clones_pending) \<noteq> None \<and>
   UnreplicatedComponentClones
     (CheckUnreplicatedActors poll_time (CheckUnreplicatedActors poll_time clones_pending)) = [] \<and>
   Sent (CheckUnreplicatedActors poll_time (CheckUnreplicatedActors poll_time clones_pending)) =
     [MulticastSetSelectedComponents [Some 10, Some 20]] \<and>
   CheckUnrepTimerHandle
     (CheckUnreplicatedActors poll_time (CheckUnreplicatedActors poll_time clones_pending)) = None \<and>
   \<not> CompHasBegunPlay
       (World (CheckUnreplicatedActors poll_time
                 (CheckUnreplicatedActors poll_time clones_pending))) 10"
proof -
  let ?s0 = "clones_pending"
  let ?s1 = "CheckUnreplicatedActors poll_time ?s0"
  let ?s2 = "CheckUnreplicatedActors poll_time ?s1"
  have fr: "frame (Constructor scene) actors_selected"
    unfolding actors_selected_def by (rule frame_trans[OF frame_SelectActor frame_SelectActor])
  note a = frame_fields[OF fr]
  have p0: "UnreplicatedComponentClones ?s0 = [Some 10, Some 20]"
    "SelectedComponents ?s0 = [Some 10, Some 20]"
    "Sent ?s0 = []" "CheckUnrepTimerHandle ?s0 \<noteq> None"
    "MinimumCloneReplicationTime ?s0 = 1 / 100"
    "CompHasBegunPlay (World ?s0) = (\<lambda>c. c \<noteq> 10)"
    "CompSupportedForNetworking (World ?s0) = (\<lambda>c. True)"
    by (simp_all add: clones_pending_def actors_selected_fields a Constructor_eq scene_def)
  have r0: "\<not> clone_ready ?s0 poll_time (Some 10)" "clone_ready ?s0 poll_time (Some 20)"
    by (simp_all add: clone_ready_def p0 poll_time_def)
  have p1: "UnreplicatedComponentClones ?s1 = [Some 20]"
    using r0 by (simp add: CheckUnreplicatedActors_fields p0 RemoveAtSwap_def)
  have q1: "Sent ?s1 = []" "CheckUnrepTimerHandle ?s1 \<noteq> None"
    "SelectedComponents ?s1 = [Some 10, Some 20]"
    using p1 p0 by (simp_all add: CheckUnreplicatedActors_fields)
  have r1: "clone_ready ?s1 poll_time (Some 20)"
    using r0 by (simp add: clone_ready_def CheckUnreplicatedActors_fields)
  have p2: "UnreplicatedComponentClones ?s2 = []"
    using r1 p1 by (simp add: CheckUnreplicatedActors_fields(3)[of _ ?s1] RemoveAtSwap_def)
  have q2: "Sent ?s2 = [MulticastSetSelectedComponents [Some 10, Some 20]]"
    "CheckUnrepTimerHandle ?s2 = None"
    using p2 q1 by (simp_all add: CheckUnreplicatedActors_fields(1,2)[of _ ?s1])
  have w2: "\<not> CompHasBegunPlay (World ?s2) 10"
    by (simp add: CheckUnreplicatedActors_fields(4) p0)
  from p0 r0 p1 q1 p2 q2 w2 show ?thesis by simp
qed

section \<open>The reparenting of clones\<close>

text \<open>
  C6, as the claim states it, fails: with the root component 10 of actor 5 and the
  component 11 attached to it both cloned, the clone 101 of component 11, whose original
  parent is the root, is attached to the clone 100 of the root, not to the original
  root; it is the clone of the root that is attached to the original root.
\<close>

theorem C6_counterexample_child_of_root_on_root_clone:
  "GetAttachParent scene 11 = Some 10 \<and> GetRootComponent scene 5 = Some 10 \<and>
   GetOwner scene 11 = Some 5 \<and>
   clones_returned (CloneComponents [Some 10, Some 11] scene) = Some [Some 100, Some 101] \<and>
   parent_after (CloneComponents [Some 10, Some 11] scene) 101 = Some 100 \<and>
   parent_after (CloneComponents [Some 10, Some 11] scene) 100 = Some 10"
  by (simp add: CloneComponents_def scene_def scene_owner_def scene_root_def scene_parent_def
      StaticDuplicateObject_def reparent_one_def TMap_Find_def AttachToComponent_def
      returns_def bind_outcome_def Let_def clones_returned_def parent_after_def)

subsection \<open>The clone phase, the walk and the reparenting phase\<close>

lemma same_below_refl: "same_below w w"
  by (simp add: same_below_def)

lemma same_below_StaticDuplicateObject:
  assumes "same_below w0 w"
  shows "same_below w0 (StaticDuplicateObject t owner w)"
  using assms by (auto simp: same_below_def StaticDuplicateObject_def)

lemma same_below_AttachToComponent:
  assumes "same_below w0 w" and "NextId w0 \<le> x" and "x < NextId w"
  shows "same_below w0 (AttachToComponent x P w)"
  using assms by (auto simp: same_below_def AttachToComponent_def)

lemma clone_phase_inv:
  assumes "same_below w0 w"
    and "\<forall>t. Some t \<in> set ts \<longrightarrow> t < NextId w0"
    and "\<forall>t x. OcCc t = Some x \<longrightarrow> (x, t) \<in> set Tacc"
    and "clone_phase ts w OcCc CcOp out = (w1, OcCc1, CcOp1, out1)"
  shows "\<exists>T. same_below w0 w1 \<and>
           NextId w1 = NextId w + length T \<and>
           map fst T = [NextId w ..< NextId w + length T] \<and>
           CcOp1 = CcOp @ map (\<lambda>(x, t). (x, original_parent w0 t)) T \<and>
           out1 = out @ map (\<lambda>(x, t). Some x) T \<and>
           (\<forall>(x, t) \<in> set T. t < NextId w0 \<and> GetOwner w0 t \<noteq> None \<and> OcCc1 t \<noteq> None) \<and>
           (\<forall>t. OcCc t \<noteq> None \<longrightarrow> OcCc1 t \<noteq> None) \<and>
           (\<forall>t x. OcCc1 t = Some x \<longrightarrow> (x, t) \<in> set (Tacc @ T))"
  using assms
proof (induction ts arbitrary: w OcCc CcOp out Tacc)
  case Nil
  then show ?case
    by (intro exI[of _ "[]"]) simp
next
  case (Cons a ts)
  show ?case
  proof (cases a)
    case None
    with Cons.prems Cons.IH[of w OcCc Tacc CcOp out] show ?thesis by simp
  next
    case (Some t)
    have tlt: "t < NextId w0" using Cons.prems(2) Some by simp
    have own: "GetOwner w t = GetOwner w0 t" and dup: "DuplicateSucceeds w t = DuplicateSucceeds w0 t"
      using Cons.prems(1) tlt by (simp_all add: same_below_def)
    have rest: "\<forall>t. Some t \<in> set ts \<longrightarrow> t < NextId w0"
      using Cons.prems(2) by simp
    show ?thesis
    proof (cases "GetOwner w t")
      case None
      with Cons.prems Some Cons.IH[OF Cons.prems(1) rest Cons.prems(3), of CcOp out] show ?thesis
        by simp
    next
      case (Some owner)
      note ow = this
      show ?thesis
      proof (cases "DuplicateSucceeds w t")
        case False
        with Cons.prems \<open>a = Some t\<close> ow Cons.IH[OF Cons.prems(1) rest Cons.prems(3), of CcOp out]
        show ?thesis by simp
      next
        case True
        let ?x = "NextId w"
        let ?w' = "StaticDuplicateObject t owner w"
        let ?V = "(if Some t = GetRootComponent ?w' owner then GetRootComponent ?w' owner
                   else GetAttachParent ?w' t)"
        have sb: "same_below w0 ?w'"
          by (rule same_below_StaticDuplicateObject[OF Cons.prems(1)])
        have le: "NextId w0 \<le> NextId w"
          using Cons.prems(1) by (simp add: same_below_def)
        have V: "?V = original_parent w0 t"
          using Cons.prems(1) tlt ow own le
          by (auto simp: original_parent_def same_below_def StaticDuplicateObject_def)
        have acc: "\<forall>t' x. (OcCc(t \<mapsto> ?x)) t' = Some x \<longrightarrow> (x, t') \<in> set (Tacc @ [(?x, t)])"
          using Cons.prems(3) by auto
        have run: "clone_phase ts ?w' (OcCc(t \<mapsto> ?x)) (CcOp @ [(?x, ?V)]) (out @ [Some ?x]) =
            (w1, OcCc1, CcOp1, out1)"
          using Cons.prems(4) \<open>a = Some t\<close> ow True by (simp add: Let_def)
        from Cons.IH[OF sb rest acc run] obtain T where T:
          "same_below w0 w1"
          "NextId w1 = NextId ?w' + length T"
          "map fst T = [NextId ?w' ..< NextId ?w' + length T]"
          "CcOp1 = (CcOp @ [(?x, ?V)]) @ map (\<lambda>(x, t). (x, original_parent w0 t)) T"
          "out1 = (out @ [Some ?x]) @ map (\<lambda>(x, t). Some x) T"
          "\<forall>(x, t) \<in> set T. t < NextId w0 \<and> GetOwner w0 t \<noteq> None \<and> OcCc1 t \<noteq> None"
          "\<forall>t'. (OcCc(t \<mapsto> ?x)) t' \<noteq> None \<longrightarrow> OcCc1 t' \<noteq> None"
          "\<forall>t' x. OcCc1 t' = Some x \<longrightarrow> (x, t') \<in> set ((Tacc @ [(?x, t)]) @ T)"
          by blast
        have nx: "NextId ?w' = Suc ?x"
          by (simp add: StaticDuplicateObject_def)
        have o1: "OcCc1 t \<noteq> None"
          using T(7) by simp
        have keep: "\<forall>t'. OcCc t' \<noteq> None \<longrightarrow> OcCc1 t' \<noteq> None"
          using T(7) by auto
        have g0: "GetOwner w0 t \<noteq> None"
          using own ow by (metis option.distinct(1))
        have c2: "NextId w1 = NextId w + length ((?x, t) # T)"
          using T(2) nx by simp
        have e1: "map fst T = [Suc ?x ..< Suc ?x + length T]"
          using T(3) unfolding nx .
        have e2: "[?x ..< ?x + Suc (length T)] = ?x # [Suc ?x ..< ?x + Suc (length T)]"
          by (rule upt_conv_Cons) simp
        have e3: "Suc ?x + length T = ?x + Suc (length T)"
          by simp
        have "map fst ((?x, t) # T) = ?x # map fst T"
          by simp
        also have "\<dots> = ?x # [Suc ?x ..< ?x + Suc (length T)]"
          unfolding e1 e3 ..
        also have "\<dots> = [?x ..< ?x + Suc (length T)]"
          by (rule e2[symmetric])
        finally have c3: "map fst ((?x, t) # T) = [NextId w ..< NextId w + length ((?x, t) # T)]"
          by (simp del: upt_Suc)
        have c4: "CcOp1 = CcOp @ map (\<lambda>(x, t). (x, original_parent w0 t)) ((?x, t) # T)"
          using T(4) V by simp
        have c5: "out1 = out @ map (\<lambda>(x, t). Some x) ((?x, t) # T)"
          using T(5) by simp
        have c6: "\<forall>(x, t) \<in> set ((?x, t) # T).
            t < NextId w0 \<and> GetOwner w0 t \<noteq> None \<and> OcCc1 t \<noteq> None"
          using T(6) tlt g0 o1 by simp
        have c8: "\<forall>t' x. OcCc1 t' = Some x \<longrightarrow> (x, t') \<in> set (Tacc @ (?x, t) # T)"
          using T(8) by simp
        from T(1) c2 c3 c4 c5 c6 keep c8 show ?thesis
          by blast
      qed
    qed
  qed
qed

lemma reparent_walk_terminates:
  assumes wfR: "wf (attach_rel w0)"
    and closed: "\<forall>c p. GetAttachParent w0 c = Some p \<longrightarrow> p < NextId w0"
    and inside: "\<forall>c a. GetOwner w0 c = Some a \<longrightarrow> GetRootComponent w0 a \<noteq> Some c \<longrightarrow>
        (\<exists>p. GetAttachParent w0 c = Some p \<and> GetOwner w0 p = Some a)"
    and sb: "same_below w0 w"
    and cur: "cur < NextId w0" "GetOwner w0 cur = Some ao"
  shows "\<exists>P. reparent_walk w OcCc (Some ao) v0 (Some cur) = Some (Inr P) \<and>
             nearest_cloned w0 OcCc ao v0 cur P"
  using wfR cur
proof (induction cur rule: wf_induct_rule)
  case (less cur)
  have root: "GetRootComponent w ao = GetRootComponent w0 ao"
    using sb by (simp add: same_below_def)
  have ap: "GetAttachParent w cur = GetAttachParent w0 cur"
    using sb less.prems(1) by (simp add: same_below_def)
  show ?case
  proof (cases "GetRootComponent w0 ao = Some cur")
    case True
    have "reparent_walk w OcCc (Some ao) v0 (Some cur) = Some (Inr v0)"
      using True root by (subst reparent_walk.simps) simp
    moreover have "nearest_cloned w0 OcCc ao v0 cur v0"
      using True by (rule nearest_cloned.at_root)
    ultimately show ?thesis by blast
  next
    case False
    from inside less.prems(2) False obtain p where
      p: "GetAttachParent w0 cur = Some p" "GetOwner w0 p = Some ao"
      by blast
    have plt: "p < NextId w0" using closed p(1) by blast
    show ?thesis
    proof (cases "OcCc p")
      case (Some cp)
      have "reparent_walk w OcCc (Some ao) v0 (Some cur) = Some (Inr cp)"
        using False root ap p(1) Some
        by (subst reparent_walk.simps) (auto simp: TMap_Find_def)
      moreover have "nearest_cloned w0 OcCc ao v0 cur cp"
        using False p(1) Some by (rule nearest_cloned.found)
      ultimately show ?thesis by blast
    next
      case None
      have step: "reparent_walk w OcCc (Some ao) v0 (Some cur) =
          reparent_walk w OcCc (Some ao) v0 (Some p)"
        using False root ap p(1) None
        by (subst reparent_walk.simps) (auto simp: TMap_Find_def)
      have "(p, cur) \<in> attach_rel w0"
        using p(1) by (simp add: attach_rel_def)
      from less.IH[OF this plt p(2)] obtain P where
        P: "reparent_walk w OcCc (Some ao) v0 (Some p) = Some (Inr P)"
          "nearest_cloned w0 OcCc ao v0 p P"
        by blast
      have "nearest_cloned w0 OcCc ao v0 cur P"
        using False p(1) None P(2) by (rule nearest_cloned.up)
      with P(1) step show ?thesis by simp
    qed
  qed
qed

lemma original_parent_ok:
  assumes "world_wf w0" and "t < NextId w0" and "GetOwner w0 t \<noteq> None"
  shows "\<exists>v a. original_parent w0 t = Some v \<and> v < NextId w0 \<and> GetOwner w0 v = Some a \<and>
               (v = t \<or> (v, t) \<in> attach_rel w0)"
proof -
  from assms(3) obtain a where a: "GetOwner w0 t = Some a" by auto
  show ?thesis
  proof (cases "GetRootComponent w0 a = Some t")
    case True
    with a assms(2) show ?thesis
      by (auto simp: original_parent_def)
  next
    case False
    with assms(1) a obtain p where p: "GetAttachParent w0 t = Some p" "GetOwner w0 p = Some a"
      unfolding world_wf_def by blast
    have "p < NextId w0" using assms(1) p(1) unfolding world_wf_def by blast
    with False a p show ?thesis
      by (auto simp: original_parent_def attach_rel_def)
  qed
qed

lemma reparent_one_ok:
  assumes wf0: "world_wf w0" and sb: "same_below w0 w"
    and t: "t < NextId w0" "GetOwner w0 t \<noteq> None"
  shows "\<exists>v P. original_parent w0 t = Some v \<and>
           reparent_one OcCc (x, original_parent w0 t) w = Some (Inr (AttachToComponent x P w)) \<and>
           reparent_spec w0 OcCc x v P"
proof -
  from original_parent_ok[OF wf0 t] obtain v a where
    v: "original_parent w0 t = Some v" "v < NextId w0" "GetOwner w0 v = Some a"
    by blast
  have own: "GetOwner w v = Some a"
    using sb v(2,3) by (simp add: same_below_def)
  show ?thesis
  proof (cases "OcCc v")
    case (Some cv)
    then have "reparent_one OcCc (x, original_parent w0 t) w =
        Some (Inr (AttachToComponent x (if cv \<noteq> x then cv else v) w))"
      by (simp add: reparent_one_def v(1) TMap_Find_def returns_def)
    moreover have "reparent_spec w0 OcCc x v (if cv \<noteq> x then cv else v)"
      using Some by (simp add: reparent_spec_def)
    ultimately show ?thesis using v(1) by blast
  next
    case None
    from wf0 have
      "wf (attach_rel w0)"
      "\<forall>c p. GetAttachParent w0 c = Some p \<longrightarrow> p < NextId w0"
      "\<forall>c a. GetOwner w0 c = Some a \<longrightarrow> GetRootComponent w0 a \<noteq> Some c \<longrightarrow>
        (\<exists>p. GetAttachParent w0 c = Some p \<and> GetOwner w0 p = Some a)"
      unfolding world_wf_def by blast+
    from reparent_walk_terminates[OF this sb v(2,3), of OcCc v] obtain P where
      P: "reparent_walk w OcCc (Some a) v (Some v) = Some (Inr P)"
        "nearest_cloned w0 OcCc a v v P"
      by blast
    have "reparent_one OcCc (x, original_parent w0 t) w = Some (Inr (AttachToComponent x P w))"
      using None P(1) own
      by (simp add: reparent_one_def v(1) TMap_Find_def returns_def bind_outcome_def)
    moreover have "reparent_spec w0 OcCc x v P"
      using None P(2) v(3) by (simp add: reparent_spec_def)
    ultimately show ?thesis using v(1) by blast
  qed
qed

lemma reparent_phase_ok:
  assumes wf0: "world_wf w0" and sb: "same_below w0 w"
    and T: "\<forall>(x, t) \<in> set T. NextId w0 \<le> x \<and> x < NextId w \<and> t < NextId w0 \<and> GetOwner w0 t \<noteq> None"
    and dist: "distinct (map fst T)"
  shows "\<exists>w'. reparent_phase (map (\<lambda>(x, t). (x, original_parent w0 t)) T) OcCc w = Some (Inr w') \<and>
           same_below w0 w' \<and> NextId w' = NextId w \<and>
           (\<forall>(x, t) \<in> set T. \<exists>v P. original_parent w0 t = Some v \<and>
               GetAttachParent w' x = Some P \<and> reparent_spec w0 OcCc x v P) \<and>
           (\<forall>c. c \<notin> fst ` set T \<longrightarrow> GetAttachParent w' c = GetAttachParent w c)"
  using sb T dist
proof (induction T arbitrary: w)
  case Nil
  then show ?case by (simp add: returns_def)
next
  case (Cons xt T)
  obtain x t where xt: "xt = (x, t)" by (cases xt)
  have hx: "NextId w0 \<le> x" "x < NextId w" "t < NextId w0" "GetOwner w0 t \<noteq> None"
    using Cons.prems(2) xt by auto
  from reparent_one_ok[OF wf0 Cons.prems(1) hx(3,4), of OcCc x] obtain v P where
    one: "original_parent w0 t = Some v"
      "reparent_one OcCc (x, original_parent w0 t) w = Some (Inr (AttachToComponent x P w))"
      "reparent_spec w0 OcCc x v P"
    by blast
  let ?w2 = "AttachToComponent x P w"
  have sb2: "same_below w0 ?w2"
    by (rule same_below_AttachToComponent[OF Cons.prems(1) hx(1,2)])
  have n2: "NextId ?w2 = NextId w"
    by (simp add: AttachToComponent_def)
  have T2: "\<forall>(x, t) \<in> set T. NextId w0 \<le> x \<and> x < NextId ?w2 \<and> t < NextId w0 \<and> GetOwner w0 t \<noteq> None"
    using Cons.prems(2) n2 by auto
  have d2: "distinct (map fst T)" and xnot: "x \<notin> fst ` set T"
    using Cons.prems(3) xt by auto
  from Cons.IH[OF sb2 T2 d2] obtain w' where w':
    "reparent_phase (map (\<lambda>(x, t). (x, original_parent w0 t)) T) OcCc ?w2 = Some (Inr w')"
    "same_below w0 w'" "NextId w' = NextId ?w2"
    "\<forall>(x, t) \<in> set T. \<exists>v P. original_parent w0 t = Some v \<and>
               GetAttachParent w' x = Some P \<and> reparent_spec w0 OcCc x v P"
    "\<forall>c. c \<notin> fst ` set T \<longrightarrow> GetAttachParent w' c = GetAttachParent ?w2 c"
    by blast
  have run: "reparent_phase (map (\<lambda>(x, t). (x, original_parent w0 t)) (xt # T)) OcCc w =
      Some (Inr w')"
    using one(2) w'(1) xt by (simp add: bind_outcome_def)
  have px: "GetAttachParent w' x = Some P"
    using w'(5) xnot by (simp add: AttachToComponent_def)
  have head: "\<exists>v P. original_parent w0 t = Some v \<and>
               GetAttachParent w' x = Some P \<and> reparent_spec w0 OcCc x v P"
    using one(1,3) px by blast
  have others: "\<forall>c. c \<notin> fst ` set (xt # T) \<longrightarrow> GetAttachParent w' c = GetAttachParent w c"
    using w'(5) xt by (auto simp: AttachToComponent_def)
  from run w'(2) w'(3) n2 head w'(4) others xt show ?case
    by auto
qed

lemma nearest_cloned_cases:
  assumes "nearest_cloned w OcCc ao v0 cur P"
  shows "P = v0 \<or> (\<exists>q. (q, cur) \<in> (attach_rel w)\<^sup>+ \<and> OcCc q = Some P)"
  using assms
proof (induction rule: nearest_cloned.induct)
  case (at_root cur)
  then show ?case by simp
next
  case (found cur p cp)
  then have "(p, cur) \<in> (attach_rel w)\<^sup>+"
    by (simp add: attach_rel_def r_into_trancl)
  with found show ?case by blast
next
  case (up cur p P)
  have e: "(p, cur) \<in> (attach_rel w)\<^sup>+"
    using up(2) by (simp add: attach_rel_def r_into_trancl)
  from up.IH show ?case
  proof
    assume "P = v0" then show ?thesis by simp
  next
    assume "\<exists>q. (q, p) \<in> (attach_rel w)\<^sup>+ \<and> OcCc q = Some P"
    then obtain q where "(q, p) \<in> (attach_rel w)\<^sup>+" "OcCc q = Some P" by blast
    with e have "(q, cur) \<in> (attach_rel w)\<^sup>+ \<and> OcCc q = Some P"
      by (meson trancl_trans)
    then show ?thesis by blast
  qed
qed

lemma reparented_wf:
  assumes wf0: "world_wf w0"
    and T: "\<forall>(x, t) \<in> set T. NextId w0 \<le> x \<and> t < NextId w0 \<and> GetOwner w0 t \<noteq> None"
    and dist: "distinct (map fst T)"
    and reg: "\<forall>t x. OcCc t = Some x \<longrightarrow> (x, t) \<in> set T"
    and clones: "\<forall>(x, t) \<in> set T. \<exists>v P. original_parent w0 t = Some v \<and>
        GetAttachParent w' x = Some P \<and> reparent_spec w0 OcCc x v P"
    and others: "\<forall>c. c \<notin> fst ` set T \<longrightarrow> GetAttachParent w' c = GetAttachParent w0 c"
  shows "wf (attach_rel w')"
proof -
  let ?R = "attach_rel w0"
  let ?f = "clone_rank T OcCc"
  let ?L = "less_than <*lex*> (?R\<^sup>+ <*lex*> less_than)"
  from wf0 have wfR: "wf ?R"
    and closed: "\<And>c p. GetAttachParent w0 c = Some p \<Longrightarrow> p < NextId w0"
    unfolding world_wf_def by blast+
  have orig: "?f c = (0, c, 0)" if "c < NextId w0" for c
  proof -
    have "c \<notin> fst ` set T" using T that by force
    then have "map_of T c = None" by (simp add: map_of_eq_None_iff)
    then show ?thesis by (simp add: clone_rank_def)
  qed
  have clone: "?f x = (1, t, if OcCc t = Some x then 0 else 1)" if "(x, t) \<in> set T" for x t
  proof -
    have "map_of T x = Some t" using dist that by simp
    then show ?thesis by (simp add: clone_rank_def)
  qed
  have registered: "?f x = (1, t, 0)" if "OcCc t = Some x" for x t
    using clone[of x t] reg that by simp
  have sub: "attach_rel w' \<subseteq> inv_image ?L ?f"
  proof
    fix e assume e: "e \<in> attach_rel w'"
    obtain p c where pc: "e = (p, c)" by (cases e)
    with e have ap: "GetAttachParent w' c = Some p" by (simp add: attach_rel_def)
    have "(?f p, ?f c) \<in> ?L"
    proof (cases "c \<in> fst ` set T")
      case False
      with others ap have ap0: "GetAttachParent w0 c = Some p" by simp
      then have plt: "p < NextId w0" by (rule closed)
      from False have "map_of T c = None" by (simp add: map_of_eq_None_iff)
      then have fc: "?f c = (0, c, 0)" by (simp add: clone_rank_def)
      have "(p, c) \<in> ?R\<^sup>+"
        using ap0 by (simp add: attach_rel_def r_into_trancl)
      then show ?thesis by (simp add: orig[OF plt] fc)
    next
      case True
      then obtain t where xt: "(c, t) \<in> set T" by force
      from T xt have t: "t < NextId w0" "GetOwner w0 t \<noteq> None" by auto
      from clones xt ap obtain v where
        v: "original_parent w0 t = Some v" "reparent_spec w0 OcCc c v p"
        by fastforce
      from original_parent_ok[OF wf0 t] v(1) have
        vlt: "v < NextId w0" and vt: "v = t \<or> (v, t) \<in> ?R"
        by auto
      have fc: "?f c = (1, t, if OcCc t = Some c then 0 else 1)"
        by (rule clone[OF xt])
      have to_orig: "(?f v, ?f c) \<in> ?L"
        by (simp add: orig[OF vlt] fc)
      show ?thesis
      proof (cases "OcCc v")
        case (Some cv)
        with v(2) have p: "p = (if cv \<noteq> c then cv else v)"
          by (simp add: reparent_spec_def)
        show ?thesis
        proof (cases "cv = c")
          case True
          with p to_orig show ?thesis by simp
        next
          case False
          with p have pcv: "p = cv" by simp
          have fp: "?f p = (1, v, 0)"
            using registered[OF Some] pcv by simp
          from vt show ?thesis
          proof
            assume "v = t"
            with Some False have "OcCc t \<noteq> Some c" by simp
            then show ?thesis using fp fc \<open>v = t\<close> by simp
          next
            assume "(v, t) \<in> ?R"
            then have "(v, t) \<in> ?R\<^sup>+" by (rule r_into_trancl)
            then show ?thesis using fp fc by simp
          qed
        qed
      next
        case None
        with v(2) obtain ao where "nearest_cloned w0 OcCc ao v v p"
          by (auto simp: reparent_spec_def)
        from nearest_cloned_cases[OF this] show ?thesis
        proof
          assume "p = v" with to_orig show ?thesis by simp
        next
          assume "\<exists>q. (q, v) \<in> ?R\<^sup>+ \<and> OcCc q = Some p"
          then obtain q where q: "(q, v) \<in> ?R\<^sup>+" "OcCc q = Some p" by blast
          have "(q, t) \<in> ?R\<^sup>+"
            using vt q(1) by (auto intro: trancl_into_trancl)
          then show ?thesis using registered[OF q(2)] fc by simp
        qed
      qed
    qed
    then show "e \<in> inv_image ?L ?f" by (simp add: pc inv_image_def)
  qed
  have "wf ?L"
    by (intro wf_lex_prod wf_less_than wf_trancl wfR)
  then have "wf (inv_image ?L ?f)" by (rule wf_inv_image)
  then show ?thesis using sub by (rule wf_subset)
qed

lemma world_wf_scene: "world_wf scene"
proof -
  have "attach_rel scene \<subseteq> less_than"
    by (auto simp: attach_rel_def scene_def scene_parent_def split: if_splits)
  then have "wf (attach_rel scene)"
    by (rule wf_subset[OF wf_less_than])
  moreover have "\<forall>c p. GetAttachParent scene c = Some p \<longrightarrow> p < NextId scene"
    by (auto simp: scene_def scene_parent_def split: if_splits)
  moreover have "\<forall>c a. GetOwner scene c = Some a \<longrightarrow> GetRootComponent scene a \<noteq> Some c \<longrightarrow>
        (\<exists>p. GetAttachParent scene c = Some p \<and> GetOwner scene p = Some a)"
    by (auto simp: scene_def scene_parent_def scene_owner_def scene_root_def split: if_splits)
  ultimately show ?thesis
    unfolding world_wf_def by blast
qed

lemma reparent_walk_found:
  assumes "GetRootComponent w ao \<noteq> Some p" and "GetAttachParent w p = Some q"
    and "OcCc q = Some c"
  shows "reparent_walk w OcCc (Some ao) v (Some p) = Some (Inr c)"
  using assms by (subst reparent_walk.simps) (auto simp: TMap_Find_def)

lemma scene_clone_phase:
  "clone_phase [Some 10, Some 12] scene Map.empty [] [] =
     (StaticDuplicateObject 12 5 (StaticDuplicateObject 10 5 scene),
      [10 \<mapsto> 100, 12 \<mapsto> 101], [(100, Some 10), (101, Some 11)], [Some 100, Some 101])"
  by (simp add: scene_def scene_owner_def scene_root_def scene_parent_def
      StaticDuplicateObject_def Let_def)

text \<open>
  C6, amended. In a world whose attachment hierarchy is well founded, where a parent is
  an existing component and every owned component other than its actor's root is
  attached to a component of the same actor, \<^verbatim>\<open>CloneComponents\<close> returns, with one clone
  for each entry of \<open>CcOp\<close>, in order. Each clone ends attached to the parent
  \<open>reparent_spec\<close> gives: the clone of its original parent when that parent was cloned,
  where the original parent of a root's clone is the root itself and a clone recorded
  as the clone of its own original parent stays on the original; otherwise, walking up
  the original hierarchy, the clone of the nearest cloned ancestor, or the original
  parent when the root is reached first. No other component is reattached, the
  attachment hierarchy after the call is well founded, and no component is attached to
  itself.
\<close>

theorem C6_amended_clone_reparenting:
  assumes world: "HasWorld w" and wf0: "world_wf w" and comps: "components_exist Components w"
  shows "\<exists>w'. CloneComponents Components w =
            Some (Inr (w', map (\<lambda>cp. Some (fst cp)) (CcOp_of Components w))) \<and>
          (\<forall>cp \<in> set (CcOp_of Components w). \<exists>v P. snd cp = Some v \<and>
              GetAttachParent w' (fst cp) = Some P \<and>
              reparent_spec w (OcCc_of Components w) (fst cp) v P) \<and>
          (\<forall>c. c \<notin> fst ` set (CcOp_of Components w) \<longrightarrow>
              GetAttachParent w' c = GetAttachParent w c) \<and>
          wf (attach_rel w') \<and>
          (\<forall>c. GetAttachParent w' c \<noteq> Some c)"
proof -
  obtain w1 OcCc CcOp out where
    cp: "clone_phase Components w Map.empty [] [] = (w1, OcCc, CcOp, out)"
    by (cases "clone_phase Components w Map.empty [] []") auto
  have c0: "\<forall>t. Some t \<in> set Components \<longrightarrow> t < NextId w"
    using comps by (simp add: components_exist_def)
  have e0: "\<forall>t x. Map.empty t = Some x \<longrightarrow> (x, t) \<in> set ([] :: (comp \<times> comp) list)"
    by simp
  from clone_phase_inv[OF same_below_refl c0 e0 cp] obtain T where
    sb1: "same_below w w1" and n1: "NextId w1 = NextId w + length T"
    and fsts: "map fst T = [NextId w ..< NextId w + length T]"
    and CcOp: "CcOp = map (\<lambda>(x, t). (x, original_parent w t)) T"
    and out: "out = map (\<lambda>(x, t). Some x) T"
    and Tp: "\<forall>(x, t) \<in> set T. t < NextId w \<and> GetOwner w t \<noteq> None \<and> OcCc t \<noteq> None"
    and reg: "\<forall>t x. OcCc t = Some x \<longrightarrow> (x, t) \<in> set T"
    by auto
  have dist: "distinct (map fst T)"
    by (simp add: fsts)
  have fset: "fst ` set T = {NextId w ..< NextId w + length T}"
  proof -
    have "fst ` set T = set (map fst T)" by simp
    also have "\<dots> = {NextId w ..< NextId w + length T}" by (simp only: fsts set_upt)
    finally show ?thesis .
  qed
  have rng: "NextId w \<le> x \<and> x < NextId w1" if "(x, t) \<in> set T" for x t
  proof -
    from that have "x \<in> fst ` set T" by force
    then show ?thesis by (simp add: fset n1)
  qed
  have T1: "\<forall>(x, t) \<in> set T. NextId w \<le> x \<and> x < NextId w1 \<and> t < NextId w \<and> GetOwner w t \<noteq> None"
    using Tp rng by auto
  from reparent_phase_ok[OF wf0 sb1 T1 dist, of OcCc] obtain w' where
    run: "reparent_phase (map (\<lambda>(x, t). (x, original_parent w t)) T) OcCc w1 = Some (Inr w')"
    and clones: "\<forall>(x, t) \<in> set T. \<exists>v P. original_parent w t = Some v \<and>
               GetAttachParent w' x = Some P \<and> reparent_spec w OcCc x v P"
    and rest: "\<forall>c. c \<notin> fst ` set T \<longrightarrow> GetAttachParent w' c = GetAttachParent w1 c"
    by blast
  have OcCc_of: "OcCc_of Components w = OcCc" and CcOp_of: "CcOp_of Components w = CcOp"
    by (simp_all add: OcCc_of_def CcOp_of_def cp)
  have outv: "out = map (\<lambda>cp. Some (fst cp)) CcOp"
    by (simp add: out CcOp case_prod_unfold)
  have res: "CloneComponents Components w = Some (Inr (w', map (\<lambda>cp. Some (fst cp)) CcOp))"
    using world run by (simp add: CloneComponents_def cp CcOp[symmetric] outv[symmetric]
        bind_outcome_def returns_def)
  have fC: "fst ` set CcOp = fst ` set T"
    by (force simp: CcOp)
  have each: "\<forall>cp \<in> set CcOp. \<exists>v P. snd cp = Some v \<and>
      GetAttachParent w' (fst cp) = Some P \<and> reparent_spec w OcCc (fst cp) v P"
  proof
    fix cp assume "cp \<in> set CcOp"
    then obtain x t where xt: "(x, t) \<in> set T" "cp = (x, original_parent w t)"
      by (auto simp: CcOp)
    from clones xt(1) show "\<exists>v P. snd cp = Some v \<and>
      GetAttachParent w' (fst cp) = Some P \<and> reparent_spec w OcCc (fst cp) v P"
      by (auto simp: xt(2))
  qed
  have others: "\<forall>c. c \<notin> fst ` set T \<longrightarrow> GetAttachParent w' c = GetAttachParent w c"
  proof (intro allI impI)
    fix c assume c: "c \<notin> fst ` set T"
    then have "c < NextId w \<or> NextId w1 \<le> c"
      by (simp add: fset n1) arith
    then have "GetAttachParent w1 c = GetAttachParent w c"
      using sb1 by (auto simp: same_below_def)
    with rest c show "GetAttachParent w' c = GetAttachParent w c" by simp
  qed
  have T0: "\<forall>(x, t) \<in> set T. NextId w \<le> x \<and> t < NextId w \<and> GetOwner w t \<noteq> None"
    using T1 by auto
  have wfw: "wf (attach_rel w')"
    by (rule reparented_wf[OF wf0 T0 dist reg clones others])
  have noself: "\<forall>c. GetAttachParent w' c \<noteq> Some c"
  proof
    fix c
    have "(c, c) \<notin> attach_rel w'" using wfw by (rule wf_not_refl)
    then show "GetAttachParent w' c \<noteq> Some c" by (simp add: attach_rel_def)
  qed
  from res each others wfw noself show ?thesis
    unfolding OcCc_of CcOp_of fC by blast
qed

theorem C6_amended_witness:
  "HasWorld scene \<and> world_wf scene \<and> components_exist [Some 10, Some 12] scene \<and>
   CcOp_of [Some 10, Some 12] scene = [(100, Some 10), (101, Some 11)] \<and>
   OcCc_of [Some 10, Some 12] scene 10 = Some 100 \<and>
   OcCc_of [Some 10, Some 12] scene 11 = None \<and>
   clones_returned (CloneComponents [Some 10, Some 12] scene) = Some [Some 100, Some 101] \<and>
   parent_after (CloneComponents [Some 10, Some 12] scene) 100 = Some 10 \<and>
   parent_after (CloneComponents [Some 10, Some 12] scene) 101 = Some 100 \<and>
   (\<exists>w'. CloneComponents [Some 10, Some 12] scene = Some (Inr (w', [Some 100, Some 101])) \<and>
         wf (attach_rel w'))"
proof -
  let ?r = "CloneComponents [Some 10, Some 12] scene"
  have h1: "HasWorld scene" by (simp add: scene_def)
  have h3: "components_exist [Some 10, Some 12] scene"
    by (auto simp: components_exist_def scene_def)
  have c: "CcOp_of [Some 10, Some 12] scene = [(100, Some 10), (101, Some 11)]"
    unfolding CcOp_of_def scene_clone_phase by simp
  have o: "OcCc_of [Some 10, Some 12] scene 10 = Some 100"
    "OcCc_of [Some 10, Some 12] scene 11 = None"
    unfolding OcCc_of_def scene_clone_phase by simp_all
  let ?w1 = "StaticDuplicateObject 12 5 (StaticDuplicateObject 10 5 scene)"
  let ?O = "[10 \<mapsto> 100, 12 \<mapsto> (101 :: comp)]"
  let ?w2 = "AttachToComponent 100 10 ?w1"
  let ?w3 = "AttachToComponent 101 100 ?w2"
  have one1: "reparent_one ?O (100, Some 10) ?w1 = Some (Inr ?w2)"
    by (simp add: reparent_one_def TMap_Find_def returns_def)
  have walk: "reparent_walk ?w2 ?O (Some 5) 11 (Some 11) = Some (Inr 100)"
    by (rule reparent_walk_found[where q = 10])
      (simp_all add: scene_def scene_owner_def scene_root_def scene_parent_def
        StaticDuplicateObject_def AttachToComponent_def)
  have own: "GetOwner ?w2 11 = Some 5"
    by (simp add: scene_def scene_owner_def StaticDuplicateObject_def AttachToComponent_def)
  have one2: "reparent_one ?O (101, Some 11) ?w2 = Some (Inr ?w3)"
    by (simp add: reparent_one_def TMap_Find_def own walk returns_def bind_outcome_def)
  have res: "?r = Some (Inr (?w3, [Some 100, Some 101]))"
    unfolding CloneComponents_def scene_clone_phase
    by (simp add: h1 one1 one2 bind_outcome_def returns_def)
  have r: "clones_returned ?r = Some [Some 100, Some 101]"
    "parent_after ?r 100 = Some 10" "parent_after ?r 101 = Some 100"
    unfolding res
    by (simp_all add: clones_returned_def parent_after_def AttachToComponent_def)
  from C6_amended_clone_reparenting[OF h1 world_wf_scene h3] obtain w' where
    "?r = Some (Inr (w', map (\<lambda>cp. Some (fst cp)) (CcOp_of [Some 10, Some 12] scene)))"
    "wf (attach_rel w')"
    by blast
  then have "\<exists>w'. ?r = Some (Inr (w', [Some 100, Some 101])) \<and> wf (attach_rel w')"
    by (simp add: c)
  with h1 world_wf_scene h3 c o r show ?thesis
    by simp
qed

text \<open>
  The hypothesis on the attach parents is needed: for a component that is not the root
  of its owner and has no attach parent, the recorded original parent is null and the
  reparenting phase dereferences it.
\<close>

lemma CloneComponents_detached_component:
  "CloneComponents [Some 11] (scene\<lparr>GetAttachParent := scene_parent(11 := None)\<rparr>) =
     Some (Inl NullDereference)"
  by (simp add: CloneComponents_def scene_def scene_owner_def scene_root_def scene_parent_def
      StaticDuplicateObject_def reparent_one_def bind_outcome_def Let_def)

end
